(* ===== verification/Prelude.thy ===== *)
theory Prelude
  imports Complex_Main "HOL-Library.Word" "HOL-Library.AList" "HOL-Library.Multiset"
begin

text \<open>
  What every component shares: the widths of Go's unsigned integers, Go errors and run-time
  panics as values of a sum type, slices with Go's bounds check, the big-endian fields of
  \<open>encoding/binary\<close>, Go maps as association lists with distinct keys (a \<open>range\<close> loop visits
  such a list in an order the run time picks), and locales for the invariants of a machine
  that runs a list of operations and for packet formats.
\<close>

unbundle bit_operations_syntax

named_theorems wire_simps
  \<comment> \<open>lengths and read-back equations of encoded fields\<close>

named_theorems range_simps
  \<comment> \<open>facts about an association list that do not depend on the order of a range loop\<close>

section \<open>Machine integers, errors, slices\<close>

type_synonym u8 = "8 word"
type_synonym u16 = "16 word"
type_synonym u32 = "32 word"

text \<open>
  An \<open>error\<close> value carries the message the code builds; a run-time panic is kept apart, because
  no caller of the code recovers from one.
\<close>

datatype go_panic = IndexOutOfRange | SliceBounds | NilDereference | MakeSliceLen

datatype go_error = Error string | Panic go_panic

type_synonym 'a res = "go_error + 'a"

definition is_panic :: "go_error \<Rightarrow> bool" where
  "is_panic e \<longleftrightarrow> (case e of Error _ \<Rightarrow> False | Panic _ \<Rightarrow> True)"

text \<open>\<open>b[i:j]\<close> of a slice whose capacity is its length, with Go's bounds check.\<close>

definition go_slice :: "'a list \<Rightarrow> int \<Rightarrow> int \<Rightarrow> 'a list res" where
  "go_slice xs i j =
     (if 0 \<le> i \<and> i \<le> j \<and> j \<le> int (length xs)
      then Inr (take (nat (j - i)) (drop (nat i) xs)) else Inl (Panic SliceBounds))"

lemma go_slice_prefix [simp]: "go_slice (xs @ ys) 0 (int (length xs)) = Inr xs"
  by (simp add: go_slice_def)

lemma go_slice_middle [simp]:
  "go_slice (xs @ ys @ zs) (int (length xs)) (int (length xs) + int (length ys)) = Inr ys"
  by (simp add: go_slice_def)

lemma go_slice_Inr_length: "go_slice xs i j = Inr ys \<Longrightarrow> int (length ys) = j - i"
  by (auto simp: go_slice_def split: if_splits)

section \<open>Big-endian fields\<close>

definition put_uint16 :: "u16 \<Rightarrow> u8 list" where
  "put_uint16 w = [ucast (drop_bit 8 w), ucast w]"

definition put_uint32 :: "u32 \<Rightarrow> u8 list" where
  "put_uint32 w =
     [ucast (drop_bit 24 w), ucast (drop_bit 16 w), ucast (drop_bit 8 w), ucast w]"

fun get_uint16 :: "u8 list \<Rightarrow> u16" where
  "get_uint16 (a # b # _) = push_bit 8 (ucast a) OR ucast b"
| "get_uint16 _ = 0"

fun get_uint32 :: "u8 list \<Rightarrow> u32" where
  "get_uint32 (a # b # c # d # _) =
     push_bit 24 (ucast a) OR push_bit 16 (ucast b) OR push_bit 8 (ucast c) OR ucast d"
| "get_uint32 _ = 0"

lemma length_put_uint16 [simp, wire_simps]: "length (put_uint16 w) = 2"
  by (simp add: put_uint16_def)

lemma length_put_uint32 [simp, wire_simps]: "length (put_uint32 w) = 4"
  by (simp add: put_uint32_def)

lemma get_put_uint16 [simp, wire_simps]: "get_uint16 (put_uint16 w @ bs) = w"
  unfolding put_uint16_def
  by (auto intro!: bit_word_eqI simp: bit_simps)

lemma get_put_uint32 [simp, wire_simps]: "get_uint32 (put_uint32 w @ bs) = w"
proof (rule bit_word_eqI)
  fix n
  assume "n < LENGTH(32)"
  then consider "n < 8" | "8 \<le> n" "n < 16" | "16 \<le> n" "n < 24" | "24 \<le> n" "n < 32"
    by fastforce
  then show "bit (get_uint32 (put_uint32 w @ bs)) n = bit w n"
    by cases (auto simp: put_uint32_def bit_simps less_diff_conv2)
qed

lemma bit_u8_high [simp]: "8 \<le> n \<Longrightarrow> \<not> bit (w :: u8) n"
  by (auto dest: bit_imp_le_length)

lemma bit_u32_lt: "bit (w :: u32) n \<Longrightarrow> n < 32"
  using bit_imp_le_length [of w n] by simp

lemmas get_put_uint16_Nil [simp, wire_simps] = get_put_uint16 [where bs = "[]", simplified]
lemmas get_put_uint32_Nil [simp, wire_simps] = get_put_uint32 [where bs = "[]", simplified]

lemma put_get_uint16 [wire_simps]:
  assumes "length bs = 2"
  shows "put_uint16 (get_uint16 bs) = bs"
proof -
  obtain a b where bs: "bs = [a, b]"
    using assms by (auto simp: length_Suc_conv numeral_2_eq_2)
  show ?thesis
    by (simp add: bs put_uint16_def) (intro conjI bit_word_eqI; simp add: bit_simps)
qed

lemma put_get_uint32 [wire_simps]:
  assumes "length bs = 4"
  shows "put_uint32 (get_uint32 bs) = bs"
proof -
  obtain a b c d where bs: "bs = [a, b, c, d]"
    using assms by (auto simp: length_Suc_conv eval_nat_numeral)
  show ?thesis
    by (simp add: bs put_uint32_def) (intro conjI bit_word_eqI; simp add: bit_simps)
qed

section \<open>Maps and range loops\<close>

text \<open>
  A Go map is an association list with distinct keys: \<open>m[k]\<close> is \<^const>\<open>map_of\<close>, \<open>m[k] = v\<close>
  is \<^const>\<open>AList.update\<close> and \<open>delete(m, k)\<close> is \<^const>\<open>AList.delete\<close>. The order of the list
  means nothing: a \<open>range\<close> loop visits the entries in an order the run time picks afresh for
  every loop. A function with such loops takes that choice as an argument \<open>rng\<close>, where \<open>rng i m\<close>
  is the order of its \<open>i\<close>-th loop over \<open>m\<close>, and all a caller may assume of it is \<open>range_ok\<close>.
\<close>

definition range_ok :: "(nat \<Rightarrow> 'a list \<Rightarrow> 'a list) \<Rightarrow> bool" where
  "range_ok rng \<longleftrightarrow> (\<forall>i m. mset (rng i m) = mset m)"

lemma range_ok_id: "range_ok (\<lambda>i m. m)"
  by (simp add: range_ok_def)

lemma range_ok_rev: "range_ok (\<lambda>i m. rev m)"
  by (simp add: range_ok_def)

lemma range_ok_mset [range_simps]: "range_ok rng \<Longrightarrow> mset (rng i m) = mset m"
  by (simp add: range_ok_def)

lemma range_ok_set [range_simps]: "range_ok rng \<Longrightarrow> set (rng i m) = set m"
  using range_ok_mset mset_eq_setD by blast

lemma range_ok_length [range_simps]: "range_ok rng \<Longrightarrow> length (rng i m) = length m"
  using range_ok_mset mset_eq_length by blast

lemma find_eq_Some_in_set: "find P xs = Some x \<Longrightarrow> x \<in> set xs \<and> P x"
  by (auto simp: find_Some_iff)

text \<open>A search that at most one entry satisfies does not depend on the order of the loop.\<close>

lemma find_unique:
  assumes x: "x \<in> set xs" "P x" and uniq: "\<And>y. y \<in> set xs \<Longrightarrow> P y \<Longrightarrow> y = x"
  shows "find P xs = Some x"
proof (cases "find P xs")
  case None
  with x show ?thesis by (auto simp: find_None_iff)
next
  case (Some y)
  with uniq find_eq_Some_in_set [OF Some] show ?thesis by simp
qed

lemma find_order_irrelevant:
  assumes "set xs = set ys" and "\<And>x y. x \<in> set ys \<Longrightarrow> y \<in> set ys \<Longrightarrow> P x \<Longrightarrow> P y \<Longrightarrow> x = y"
  shows "find P xs = find P ys"
proof (cases "find P ys")
  case None
  with assms(1) have "find P xs = None" by (simp add: find_None_iff)
  with None show ?thesis by simp
next
  case (Some y)
  then have "y \<in> set ys" "P y" using find_eq_Some_in_set by fastforce+
  with assms have "find P xs = Some y" by (intro find_unique) auto
  with Some show ?thesis by simp
qed

lemma distinct_fst_entry_eq:
  "distinct (map fst m) \<Longrightarrow> (k, v) \<in> set m \<Longrightarrow> (k, w) \<in> set m \<Longrightarrow> v = w"
  by (metis eq_key_imp_eq_value)

section \<open>Machines that run a list of operations\<close>

text \<open>
  The contract between a component and whoever drives it: every admissible operation keeps
  the invariant.
  The lemmas lift it to any sequence of operations.
\<close>

locale op_machine =
  fixes step :: "'s \<Rightarrow> 'o \<Rightarrow> 's" and inv :: "'s \<Rightarrow> bool" and ok :: "'o \<Rightarrow> bool"
  assumes step_inv: "inv s \<Longrightarrow> ok x \<Longrightarrow> inv (step s x)"
begin

lemma run_inv: "inv s \<Longrightarrow> (\<And>x. x \<in> set xs \<Longrightarrow> ok x) \<Longrightarrow> inv (foldl step s xs)"
  by (induction xs arbitrary: s) (auto intro: step_inv)

lemma run_inv_prefix: "inv s \<Longrightarrow> (\<And>x. x \<in> set xs \<Longrightarrow> ok x) \<Longrightarrow> inv (foldl step s (take n xs))"
  by (rule run_inv) (auto dest: in_set_takeD)

end

section \<open>Codecs\<close>

text \<open>
  The contract between a packet format and the code that uses it: what is encoded decodes to
  itself, and a byte string that is accepted is the encoding of what it decodes to, so a message
  has one encoding and no accepted byte is ignored.
\<close>

locale packet_codec =
  fixes encode :: "'p \<Rightarrow> u8 list" and decode :: "u8 list \<Rightarrow> 'p res" and valid :: "'p \<Rightarrow> bool"
  assumes decode_encode: "valid p \<Longrightarrow> decode (encode p) = Inr p"
    and encode_decode: "decode bs = Inr p \<Longrightarrow> valid p \<and> encode p = bs"
begin

lemma encode_inj: "valid p \<Longrightarrow> valid q \<Longrightarrow> encode p = encode q \<Longrightarrow> p = q"
  by (metis decode_encode sum.inject(2))

lemma decode_inj: "decode bs = Inr p \<Longrightarrow> decode cs = Inr p \<Longrightarrow> bs = cs"
  using encode_decode by blast

lemma accepted_iff: "(\<exists>p. decode bs = Inr p) \<longleftrightarrow> (\<exists>p. valid p \<and> encode p = bs)"
  using decode_encode encode_decode by metis

lemma rejected_iff: "(\<exists>e. decode bs = Inl e) \<longleftrightarrow> (\<forall>p. valid p \<longrightarrow> encode p \<noteq> bs)"
proof -
  have "(\<exists>e. decode bs = Inl e) \<longleftrightarrow> \<not> (\<exists>p. decode bs = Inr p)"
    by (cases "decode bs") auto
  then show ?thesis using accepted_iff by blast
qed

end

end
