(* ===== verification/NetAddr.thy ===== *)
theory NetAddr
  imports Prelude
begin

text \<open>
  The part of Go's \<open>net\<close> and \<open>net/netip\<close> the stack uses, for IPv4: addresses, prefixes,
  \<open>Prefix.Contains\<close>, \<open>Prefix.Masked\<close>, \<open>net.CIDRMask\<close> and \<open>IPMask.Size\<close>.
\<close>

unbundle bit_operations_syntax

type_synonym Addr = u32

datatype AddrPort = AddrPort (udp_addr: Addr) (udp_port: u16)

record Prefix =
  PAddr :: Addr
  Bits :: nat

text \<open>A prefix that \<open>netip.ParsePrefix\<close> can return has at most 32 bits.\<close>

definition prefix_ok :: "Prefix \<Rightarrow> bool" where
  "prefix_ok p \<longleftrightarrow> Bits p \<le> 32"

definition Contains :: "Prefix \<Rightarrow> Addr \<Rightarrow> bool" where
  "Contains p ip \<longleftrightarrow> drop_bit (32 - Bits p) (ip XOR PAddr p) = 0"

definition CIDRMask :: "nat \<Rightarrow> u32" where
  "CIDRMask ones = NOT (mask (32 - ones))"

definition Masked :: "Prefix \<Rightarrow> Prefix" where
  "Masked p = p\<lparr>PAddr := PAddr p AND CIDRMask (Bits p)\<rparr>"

text \<open>
  \<open>IPMask.Size\<close> returns the number of leading ones of a canonical mask and 0 for a mask that is
  not ones followed by zeros.
\<close>

definition mask_Size :: "u32 \<Rightarrow> nat" where
  "mask_Size m = (case find (\<lambda>n. CIDRMask n = m) [0..<33] of None \<Rightarrow> 0 | Some n \<Rightarrow> n)"

section \<open>Facts\<close>

lemma Contains_iff: "Contains p ip \<longleftrightarrow> (\<forall>n. 32 - Bits p \<le> n \<longrightarrow> bit ip n = bit (PAddr p) n)"
proof
  assume "Contains p ip"
  then have *: "bit (drop_bit (32 - Bits p) (ip XOR PAddr p)) k = bit (0 :: u32) k" for k
    by (simp add: Contains_def)
  show "\<forall>n. 32 - Bits p \<le> n \<longrightarrow> bit ip n = bit (PAddr p) n"
  proof (intro allI impI)
    fix n assume "32 - Bits p \<le> n"
    then show "bit ip n = bit (PAddr p) n"
      using * [of "n - (32 - Bits p)"] by (simp add: bit_simps)
  qed
next
  assume "\<forall>n. 32 - Bits p \<le> n \<longrightarrow> bit ip n = bit (PAddr p) n"
  then show "Contains p ip"
    unfolding Contains_def by (intro bit_word_eqI) (simp add: bit_simps)
qed

lemma Contains_self [simp]: "Contains p (PAddr p)"
  by (simp add: Contains_iff)

lemma Contains_zero_bits: "Bits p = 0 \<Longrightarrow> Contains p ip"
  by (auto simp: Contains_iff dest: bit_u32_lt)

lemma Contains_32_iff: "32 \<le> Bits p \<Longrightarrow> Contains p ip \<longleftrightarrow> ip = PAddr p"
  by (auto simp: Contains_iff intro!: bit_word_eqI)

lemma bit_CIDRMask: "bit (CIDRMask k) n \<longleftrightarrow> n < 32 \<and> 32 - k \<le> n"
  by (auto simp: CIDRMask_def bit_simps)

lemma Contains_Masked [simp]: "Contains (Masked p) ip = Contains p ip"
  by (auto simp: Contains_iff Masked_def bit_simps bit_CIDRMask dest: bit_u32_lt)

lemma Contains_Masked_self [simp]: "Contains (Masked \<lparr>PAddr = a, Bits = k\<rparr>) a"
  using Contains_self [of "\<lparr>PAddr = a, Bits = k\<rparr>"] by simp

lemma Masked_idem [simp]: "Masked (Masked p) = Masked p"
  by (simp add: Masked_def and.assoc)

lemma Bits_Masked [simp]: "Bits (Masked p) = Bits p"
  by (simp add: Masked_def)

lemma Contains_trans:
  "Bits p \<le> Bits q \<Longrightarrow> Contains p (PAddr q) \<Longrightarrow> Contains q ip \<Longrightarrow> Contains p ip"
  by (auto simp: Contains_iff)

lemma CIDRMask_inj:
  assumes "CIDRMask m = CIDRMask n" "m \<le> 32" "n \<le> 32"
  shows "m = n"
proof -
  have iff: "\<And>k. k < 32 \<Longrightarrow> 32 - m \<le> k \<longleftrightarrow> 32 - n \<le> k"
    using assms(1) by (metis bit_CIDRMask)
  have "\<not> m < n" "\<not> n < m"
    using iff [of "32 - n"] iff [of "32 - m"] assms(2,3) by auto
  then show ?thesis by simp
qed

lemma mask_Size_CIDRMask [simp]:
  assumes "n \<le> 32"
  shows "mask_Size (CIDRMask n) = n"
proof -
  have "find (\<lambda>k. CIDRMask k = CIDRMask n) [0..<33] = Some n"
    using assms by (intro find_unique) (auto dest: CIDRMask_inj)
  then show ?thesis by (simp add: mask_Size_def)
qed

lemma mask_Size_le: "mask_Size m \<le> 32"
proof (cases "find (\<lambda>n. CIDRMask n = m) [0..<33]")
  case None
  then show ?thesis by (simp only: mask_Size_def option.case)
next
  case (Some n)
  then have "n \<in> set [0..<33]" by (rule find_eq_Some_in_set [THEN conjunct1])
  then show ?thesis using Some by (simp only: mask_Size_def option.case) simp
qed

end
