(* ===== verification/NetText.thy ===== *)
theory NetText
  imports NetAddr
begin

text \<open>
  The text functions of Go's library that the configuration parser and the command line use, for
  ASCII text and IPv4: \<open>strings.Split\<close> at a character and \<open>strings.Join\<close>, decimal numbers
  (\<open>strconv.Atoi\<close>), \<open>netip.ParseAddr\<close>, \<open>ParsePrefix\<close>, \<open>ParseAddrPort\<close> and the \<open>String\<close> methods that
  print what they parse, and \<open>fmt.Fscanf\<close> for formats of literals, spaces and \<open>%s\<close>. Text with an
  IPv6 address, which the stack cannot carry, counts as an error.
\<close>

section \<open>Splitting and joining\<close>

fun go_split :: "char \<Rightarrow> string \<Rightarrow> string list" where
  "go_split c [] = [[]]"
| "go_split c (x # xs) =
     (if x = c then [] # go_split c xs
      else case go_split c xs of [] \<Rightarrow> [[x]] | t # ts \<Rightarrow> (x # t) # ts)"

fun go_join :: "char \<Rightarrow> string list \<Rightarrow> string" where
  "go_join c [] = []"
| "go_join c [t] = t"
| "go_join c (t # ts) = t @ c # go_join c ts"

lemma go_split_not_Nil [simp]: "go_split c s \<noteq> []"
  by (induction s) (auto split: list.splits)

lemma go_split_single: "c \<notin> set s \<Longrightarrow> go_split c s = [s]"
  by (induction s) auto

lemma go_split_cut: "c \<notin> set s \<Longrightarrow> go_split c (s @ c # t) = s # go_split c t"
  by (induction s) auto

lemma go_join_split: "go_join c (go_split c s) = s"
proof (induction s)
  case (Cons x xs)
  then show ?case by (cases "go_split c xs"; cases "tl (go_split c xs)") auto
qed simp

lemma go_split_join:
  "ts \<noteq> [] \<Longrightarrow> (\<And>t. t \<in> set ts \<Longrightarrow> c \<notin> set t) \<Longrightarrow> go_split c (go_join c ts) = ts"
  by (induction c ts rule: go_join.induct) (auto simp: go_split_single go_split_cut)

text \<open>Cutting at the last occurrence of a character.\<close>

definition last_cut :: "char \<Rightarrow> string \<Rightarrow> (string \<times> string) option" where
  "last_cut c s =
     (if c \<in> set s
      then Some (rev (tl (dropWhile (\<lambda>x. x \<noteq> c) (rev s))), rev (takeWhile (\<lambda>x. x \<noteq> c) (rev s)))
      else None)"

lemma last_cut_append: "c \<notin> set t \<Longrightarrow> last_cut c (s @ c # t) = Some (s, t)"
  by (simp add: last_cut_def takeWhile_append dropWhile_append)

section \<open>Decimal numbers\<close>

definition is_digit :: "char \<Rightarrow> bool" where
  "is_digit c \<longleftrightarrow> 48 \<le> (of_char c :: nat) \<and> (of_char c :: nat) \<le> 57"

definition numeric :: "string \<Rightarrow> bool" where
  "numeric s \<longleftrightarrow> s \<noteq> [] \<and> list_all is_digit s"

definition decimal :: "string \<Rightarrow> nat" where
  "decimal s = foldl (\<lambda>v c. v * 10 + (of_char c - 48)) 0 s"

text \<open>Without a leading zero, as addresses and prefix lengths are written.\<close>

definition plain_number :: "string \<Rightarrow> bool" where
  "plain_number s \<longleftrightarrow> numeric s \<and> (length s = 1 \<or> hd s \<noteq> CHR ''0'')"

fun show_nat :: "nat \<Rightarrow> string" where
  "show_nat n = (if n < 10 then [char_of (48 + n)] else show_nat (n div 10) @ [char_of (48 + n mod 10)])"

declare show_nat.simps [simp del]

text \<open>\<open>strconv.Atoi\<close>: an optional sign, digits, and the range of a 64-bit \<open>int\<close>.\<close>

definition Atoi :: "string \<Rightarrow> int res" where
  "Atoi s =
     (let neg = (case s of c # _ \<Rightarrow> c = CHR ''-'' | [] \<Rightarrow> False);
          signed = (case s of c # _ \<Rightarrow> c = CHR ''-'' \<or> c = CHR ''+'' | [] \<Rightarrow> False);
          ds = (if signed then tl s else s);
          n = (if neg then - int (decimal ds) else int (decimal ds))
      in if \<not> numeric ds then Inl (Error ''strconv.Atoi: invalid syntax'')
         else if n < - (2 ^ 63) \<or> 2 ^ 63 \<le> n then Inl (Error ''strconv.Atoi: value out of range'')
         else Inr n)"

lemma is_digit_char: "(n :: nat) < 10 \<Longrightarrow> is_digit (char_of (48 + n))"
  by (simp add: is_digit_def)

lemma digits_show_nat: "list_all is_digit (show_nat n)"
  by (induction n rule: show_nat.induct) (subst show_nat.simps, simp add: is_digit_char)

lemma show_nat_not_Nil [simp]: "show_nat n \<noteq> []"
  by (subst show_nat.simps) simp

lemma numeric_show_nat [simp]: "numeric (show_nat n)"
  by (simp add: numeric_def digits_show_nat)

lemma decimal_snoc: "decimal (s @ [c]) = decimal s * 10 + (of_char c - 48)"
  by (simp add: decimal_def)

lemma decimal_show_nat [simp]: "decimal (show_nat n) = n"
proof (induction n rule: show_nat.induct)
  case (1 n)
  show ?case
  proof (cases "n < 10")
    case True
    then show ?thesis by (subst show_nat.simps) (simp add: decimal_def)
  next
    case False
    then have "decimal (show_nat n) = decimal (show_nat (n div 10)) * 10 + n mod 10"
      by (subst show_nat.simps) (simp add: decimal_snoc)
    then show ?thesis using 1 False by simp
  qed
qed

lemma show_nat_head: "length (show_nat n) = 1 \<or> hd (show_nat n) \<noteq> CHR ''0''"
proof (induction n rule: show_nat.induct)
  case (1 n)
  show ?case
  proof (cases "n < 10")
    case True
    then show ?thesis by (subst show_nat.simps) simp
  next
    case False
    have "hd (show_nat (n div 10)) \<noteq> CHR ''0''"
    proof (cases "n div 10 < 10")
      case True
      then have "hd (show_nat (n div 10)) = char_of (48 + n div 10)" by (subst show_nat.simps) simp
      moreover have "char_of (48 + n div 10) \<noteq> CHR ''0''"
      proof
        assume "char_of (48 + n div 10) = CHR ''0''"
        then have "(of_char (char_of (48 + n div 10)) :: nat) = of_char (CHR ''0'')" by simp
        then show False using True False by simp
      qed
      ultimately show ?thesis by simp
    next
      case nd: False
      then have "length (show_nat (n div 10)) \<noteq> 1"
        by (subst show_nat.simps) simp
      then show ?thesis using 1 False by blast
    qed
    then have "hd (show_nat n) \<noteq> CHR ''0''" using False
      by (subst show_nat.simps) (simp add: hd_append)
    then show ?thesis ..
  qed
qed

lemma plain_show_nat [simp]: "plain_number (show_nat n)"
  using show_nat_head [of n] by (simp add: plain_number_def)

lemma not_digit: "\<not> is_digit c \<Longrightarrow> c \<notin> set (show_nat n)"
  using digits_show_nat [of n] by (auto simp: list_all_iff)

section \<open>Addresses\<close>

definition addr_of :: "nat \<Rightarrow> nat \<Rightarrow> nat \<Rightarrow> nat \<Rightarrow> Addr" where
  "addr_of a b c d = of_nat (((a * 256 + b) * 256 + c) * 256 + d)"

definition octet :: "string \<Rightarrow> nat option" where
  "octet s = (if plain_number s \<and> decimal s \<le> 255 then Some (decimal s) else None)"

definition ParseAddr :: "string \<Rightarrow> Addr res" where
  "ParseAddr s =
     (case map octet (go_split CHR ''.'' s) of
        [Some a, Some b, Some c, Some d] \<Rightarrow> Inr (addr_of a b c d)
      | _ \<Rightarrow> Inl (Error ''ParseAddr: unable to parse IP''))"

definition ParsePrefix :: "string \<Rightarrow> Prefix res" where
  "ParsePrefix s =
     (case last_cut CHR ''/'' s of
        None \<Rightarrow> Inl (Error ''netip.ParsePrefix: no slash'')
      | Some (a, bits) \<Rightarrow>
          (case ParseAddr a of
             Inl e \<Rightarrow> Inl e
           | Inr ip \<Rightarrow>
               if plain_number bits \<and> decimal bits \<le> 32 then Inr \<lparr>PAddr = ip, Bits = decimal bits\<rparr>
               else Inl (Error ''netip.ParsePrefix: bad bits after slash'')))"

definition ParseAddrPort :: "string \<Rightarrow> AddrPort res" where
  "ParseAddrPort s =
     (case last_cut CHR '':'' s of
        None \<Rightarrow> Inl (Error ''not an ip:port'')
      | Some (a, port) \<Rightarrow>
          if numeric port \<and> decimal port \<le> 65535
          then (case ParseAddr a of Inl e \<Rightarrow> Inl e | Inr ip \<Rightarrow> Inr (AddrPort ip (of_nat (decimal port))))
          else Inl (Error ''invalid port''))"

definition octets :: "Addr \<Rightarrow> nat list" where
  "octets w = [unat w div 2 ^ 24, unat w div 2 ^ 16 mod 256, unat w div 2 ^ 8 mod 256, unat w mod 256]"

definition show_addr :: "Addr \<Rightarrow> string" where
  "show_addr w = go_join CHR ''.'' (map show_nat (octets w))"

definition show_prefix :: "Prefix \<Rightarrow> string" where
  "show_prefix p = show_addr (PAddr p) @ CHR ''/'' # show_nat (Bits p)"

definition show_addrport :: "AddrPort \<Rightarrow> string" where
  "show_addrport a = show_addr (udp_addr a) @ CHR '':'' # show_nat (unat (udp_port a))"

lemma octets_bound: "n \<in> set (octets w) \<Longrightarrow> n \<le> 255"
proof -
  have "unat w < 2 ^ 32" using unsigned_less [of w] by simp
  then have "unat w div 2 ^ 24 < 256" by (simp add: less_mult_imp_div_less)
  then show "n \<in> set (octets w) \<Longrightarrow> n \<le> 255"
    by (auto simp: octets_def intro: less_Suc_eq_le [THEN iffD1])
qed

lemma addr_of_octets: "octets w = [a, b, c, d] \<Longrightarrow> addr_of a b c d = w"
proof -
  have "((n div 2 ^ 24 * 256 + n div 2 ^ 16 mod 256) * 256 + n div 2 ^ 8 mod 256) * 256 + n mod 256 = n"
    for n :: nat
  proof -
    have "n div 2 ^ 24 * 256 + n div 2 ^ 16 mod 256 = n div 2 ^ 16"
      using div_mult_mod_eq [of "n div 2 ^ 16" 256] by (simp add: div_mult2_eq [symmetric])
    moreover have "n div 2 ^ 16 * 256 + n div 2 ^ 8 mod 256 = n div 2 ^ 8"
      using div_mult_mod_eq [of "n div 2 ^ 8" 256] by (simp add: div_mult2_eq [symmetric])
    ultimately show ?thesis using div_mult_mod_eq [of n 256] by simp
  qed
  from this [of "unat w"] show "octets w = [a, b, c, d] \<Longrightarrow> addr_of a b c d = w"
    by (auto simp: octets_def addr_of_def)
qed

lemma ParseAddr_show [simp]: "ParseAddr (show_addr w) = Inr w"
proof -
  obtain a b c d where o: "octets w = [a, b, c, d]" by (simp add: octets_def)
  have le: "a \<le> 255" "b \<le> 255" "c \<le> 255" "d \<le> 255"
    using octets_bound [of _ w] by (simp_all add: o)
  have "CHR ''.'' \<notin> set (show_nat n)" for n by (rule not_digit) (simp add: is_digit_def)
  then have "go_split CHR ''.'' (show_addr w) = map show_nat (octets w)"
    unfolding show_addr_def by (intro go_split_join) (auto simp: o)
  then show ?thesis
    using le addr_of_octets [OF o] by (simp add: ParseAddr_def o octet_def)
qed

lemma ParsePrefix_show [simp]: "Bits p \<le> 32 \<Longrightarrow> ParsePrefix (show_prefix p) = Inr p"
proof -
  have "CHR ''/'' \<notin> set (show_nat (Bits p))" by (rule not_digit) (simp add: is_digit_def)
  from last_cut_append [OF this] show "Bits p \<le> 32 \<Longrightarrow> ParsePrefix (show_prefix p) = Inr p"
    by (simp add: ParsePrefix_def show_prefix_def)
qed

lemma ParseAddrPort_show [simp]: "ParseAddrPort (show_addrport a) = Inr a"
proof -
  have "CHR '':'' \<notin> set (show_nat (unat (udp_port a)))" by (rule not_digit) (simp add: is_digit_def)
  note cut = last_cut_append [OF this]
  have "unat (udp_port a) < 2 ^ 16" using unsigned_less [where 'a = nat, of "udp_port a"] by simp
  then have "unat (udp_port a) \<le> 65535" by simp
  then show ?thesis by (cases a) (use cut in \<open>simp add: ParseAddrPort_def show_addrport_def\<close>)
qed

section \<open>Scanning with a format\<close>

definition is_space :: "char \<Rightarrow> bool" where
  "is_space c \<longleftrightarrow> of_char c \<in> {9 :: nat, 10, 11, 12, 13, 32}"

text \<open>
  The input must have no line break, as the lines of a scanner. A literal must be met exactly, a
  space in the format takes one or more spaces (or none at the end of the input), \<open>%s\<close> skips
  spaces and takes the longest run of other characters, which must not be empty. What follows
  the format is not looked at.
\<close>

fun Fscanf :: "string \<Rightarrow> string \<Rightarrow> string list res" where
  "Fscanf [] inp = Inr []"
| "Fscanf (f # format) inp =
     (if f = CHR ''%'' \<and> format \<noteq> [] \<and> hd format = CHR ''s''
      then let word = dropWhile is_space inp
           in if word = [] then Inl (Error ''unexpected EOF'')
              else case Fscanf (tl format) (dropWhile (\<lambda>c. \<not> is_space c) word) of
                     Inl e \<Rightarrow> Inl e
                   | Inr words \<Rightarrow> Inr (takeWhile (\<lambda>c. \<not> is_space c) word # words)
      else if is_space f
      then (case inp of
              [] \<Rightarrow> Fscanf format []
            | c # _ \<Rightarrow> if is_space c then Fscanf format (dropWhile is_space inp)
                      else Inl (Error ''expected space in input to match format''))
      else (case inp of
              [] \<Rightarrow> Inl (Error ''unexpected EOF'')
            | c # inp' \<Rightarrow> if c = f then Fscanf format inp'
                         else Inl (Error ''input does not match format'')))"

lemma Fscanf_word_step:
  "Fscanf (CHR ''%'' # CHR ''s'' # format) inp =
     (let word = dropWhile is_space inp
      in if word = [] then Inl (Error ''unexpected EOF'')
         else case Fscanf format (dropWhile (\<lambda>c. \<not> is_space c) word) of
                Inl e \<Rightarrow> Inl e
              | Inr words \<Rightarrow> Inr (takeWhile (\<lambda>c. \<not> is_space c) word # words))"
  by (subst Fscanf.simps(2)) (simp add: Let_def del: Fscanf.simps)

text \<open>A word the scanner reads back as it is.\<close>

definition word_ok :: "string \<Rightarrow> bool" where
  "word_ok w \<longleftrightarrow> w \<noteq> [] \<and> list_all (\<lambda>c. \<not> is_space c) w"

lemma Fscanf_word:
  assumes "word_ok w" "rest = [] \<or> is_space (hd rest)"
  shows "Fscanf (CHR ''%'' # CHR ''s'' # format) (w @ rest) =
    (case Fscanf format rest of Inl e \<Rightarrow> Inl e | Inr words \<Rightarrow> Inr (w # words))"
proof -
  have "dropWhile is_space (w @ rest) = w @ rest"
    using assms(1) by (cases w) (simp_all add: word_ok_def)
  moreover have "takeWhile (\<lambda>c. \<not> is_space c) (w @ rest) = w"
    "dropWhile (\<lambda>c. \<not> is_space c) (w @ rest) = rest"
    using assms by (cases rest; force simp: word_ok_def list_all_iff takeWhile_append dropWhile_append)+
  ultimately show ?thesis using assms(1) by (simp add: word_ok_def split: sum.split)
qed

lemma word_ok_show_nat: "word_ok (show_nat n)"
proof -
  have "\<not> is_space c" if "c \<in> set (show_nat n)" for c
    using that digits_show_nat [of n] by (auto simp: list_all_iff is_digit_def is_space_def)
  then show ?thesis by (simp add: word_ok_def list_all_iff)
qed

lemma word_ok_append: "word_ok v \<Longrightarrow> \<not> is_space c \<Longrightarrow> word_ok w \<Longrightarrow> word_ok (v @ c # w)"
  by (simp add: word_ok_def)

lemma word_ok_shows [simp]: "word_ok (show_addr a)" "word_ok (show_prefix p)" "word_ok (show_addrport x)"
proof -
  show a: "word_ok (show_addr a)" for a
    by (simp add: show_addr_def octets_def word_ok_append word_ok_show_nat is_space_def)
  show "word_ok (show_prefix p)" "word_ok (show_addrport x)"
    by (simp_all add: show_prefix_def show_addrport_def word_ok_append word_ok_show_nat a is_space_def)
qed

declare Fscanf.simps(2) [simp del]

end
