(* ===== verification/LnxConfig.thy ===== *)
theory LnxConfig
  imports NetText
begin

text \<open>
  The parsed configuration file (\<open>pkg/lnxconfig/lnxconfig.go\<close>): its data types and the two
  checked updates the \<open>rip\<close> directives perform on it. LnxParser reads the file's text.
\<close>

datatype RoutingMode = RoutingTypeNone | RoutingTypeStatic | RoutingTypeRIP

record InterfaceConfig =
  IC_Name :: string
  IC_AssignedIP :: Addr
  IC_AssignedPrefix :: Prefix
  IC_UDPAddr :: AddrPort

record NeighborConfig =
  NC_DestAddr :: Addr
  NC_UDPAddr :: AddrPort
  NC_InterfaceName :: string

record IPConfig =
  Interfaces :: "InterfaceConfig list"
  Neighbors :: "NeighborConfig list"
  OriginatingPrefixes :: "Prefix list"
  RoutingMode :: RoutingMode
  RipNeighbors :: "Addr list"
  StaticRoutes :: "(Prefix \<times> Addr) list"

fun addOriginatingPrefix_loop :: "InterfaceConfig list \<Rightarrow> Prefix \<Rightarrow> IPConfig \<Rightarrow> IPConfig res" where
  "addOriginatingPrefix_loop [] prefix config = Inl (Error (''No matching prefix '' @ show_prefix prefix @ '' in config''))"
| "addOriginatingPrefix_loop (iface # ifaces) prefix config =
     (if IC_AssignedPrefix iface = prefix
      then Inr (config\<lparr>OriginatingPrefixes := OriginatingPrefixes config @ [prefix]\<rparr>)
      else addOriginatingPrefix_loop ifaces prefix config)"

definition addOriginatingPrefix :: "IPConfig \<Rightarrow> Prefix \<Rightarrow> IPConfig res" where
  "addOriginatingPrefix config prefix =
     addOriginatingPrefix_loop (Interfaces config) prefix config"

fun addRipNeighbor_loop :: "NeighborConfig list \<Rightarrow> Addr \<Rightarrow> IPConfig \<Rightarrow> IPConfig res" where
  "addRipNeighbor_loop [] neighbor config = Inl (Error (''RIP neighbor '' @ show_addr neighbor @ '' is not a neighbor IP''))"
| "addRipNeighbor_loop (iface # ifaces) neighbor config =
     (if NC_DestAddr iface = neighbor
      then Inr (config\<lparr>RipNeighbors := RipNeighbors config @ [neighbor]\<rparr>)
      else addRipNeighbor_loop ifaces neighbor config)"

definition addRipNeighbor :: "IPConfig \<Rightarrow> Addr \<Rightarrow> IPConfig res" where
  "addRipNeighbor config neighbor = addRipNeighbor_loop (Neighbors config) neighbor config"

text \<open>
  The contract of the two updates: every address a router sends RIP messages to is one of its
  configured neighbors, and every originated prefix is one of its interfaces' prefixes.
\<close>

definition config_ok :: "IPConfig \<Rightarrow> bool" where
  "config_ok c \<longleftrightarrow>
     (\<forall>a \<in> set (RipNeighbors c). \<exists>n \<in> set (Neighbors c). NC_DestAddr n = a) \<and>
     (\<forall>p \<in> set (OriginatingPrefixes c). \<exists>i \<in> set (Interfaces c). IC_AssignedPrefix i = p)"

lemma addOriginatingPrefix_loop_eq:
  "addOriginatingPrefix_loop ifs prefix config =
     (if \<exists>i \<in> set ifs. IC_AssignedPrefix i = prefix
      then Inr (config\<lparr>OriginatingPrefixes := OriginatingPrefixes config @ [prefix]\<rparr>)
      else Inl (Error (''No matching prefix '' @ show_prefix prefix @ '' in config'')))"
  by (induction ifs) auto

lemma addRipNeighbor_loop_eq:
  "addRipNeighbor_loop ns neighbor config =
     (if \<exists>n \<in> set ns. NC_DestAddr n = neighbor
      then Inr (config\<lparr>RipNeighbors := RipNeighbors config @ [neighbor]\<rparr>)
      else Inl (Error (''RIP neighbor '' @ show_addr neighbor @ '' is not a neighbor IP'')))"
  by (induction ns) auto

lemma addOriginatingPrefix_config_ok:
  "config_ok c \<Longrightarrow> addOriginatingPrefix c p = Inr c' \<Longrightarrow> config_ok c'"
  by (auto simp: addOriginatingPrefix_def addOriginatingPrefix_loop_eq config_ok_def
      split: if_splits)

lemma addRipNeighbor_config_ok:
  "config_ok c \<Longrightarrow> addRipNeighbor c a = Inr c' \<Longrightarrow> config_ok c'"
  by (auto simp: addRipNeighbor_def addRipNeighbor_loop_eq config_ok_def split: if_splits)

end
