(* ===== verification/Link.thy ===== *)
theory Link
  imports LnxConfig
begin

text \<open>
  The link layer (\<open>pkg/link/link.go\<close>): interfaces with their neighbor tables, built from the
  configuration, and the \<open>up\<close>/\<open>down\<close> switch. Opening a UDP socket is the argument
  \<open>listen\<close>; what a read gives is \<open>ReceivePacket\<close>.
\<close>

type_synonym InterfaceState = bool

definition INTERFACEUP :: InterfaceState where "INTERFACEUP = True"
definition INTERFACEDOWN :: InterfaceState where "INTERFACEDOWN = False"

datatype UDPConn = UDPConn (conn_laddr: AddrPort)

record IPInterface =
  AssignedIP :: Addr
  AssignedPrefix :: Prefix
  UDPPort :: AddrPort
  INeighbors :: "(Addr \<times> AddrPort) list"
  InterfaceName :: string
  IState :: InterfaceState
  Conn :: UDPConn

record LinkLayer =
  LInterfaces :: "IPInterface list"

definition UpdateInterfaceState_link :: "LinkLayer \<Rightarrow> string \<Rightarrow> InterfaceState \<Rightarrow> LinkLayer" where
  "UpdateInterfaceState_link l intfToChange newState =
     l\<lparr>LInterfaces := map (\<lambda>i. if InterfaceName i = intfToChange
                             then (if newState \<noteq> IState i then i\<lparr>IState := newState\<rparr> else i)
                             else i) (LInterfaces l)\<rparr>"

definition ToString :: "InterfaceState \<Rightarrow> string" where
  "ToString state = (if state then ''up'' else ''down'')"

definition InterfaceStateFromString :: "string \<Rightarrow> InterfaceState" where
  "InterfaceStateFromString s =
     (if s = ToString INTERFACEDOWN then INTERFACEDOWN else INTERFACEUP)"

text \<open>
  \<open>interfaceToNeighbors\<close>: the neighbor directives grouped by interface name, in file order.
\<close>

definition group_neighbor ::
  "(string \<times> NeighborConfig list) list \<Rightarrow> NeighborConfig \<Rightarrow> (string \<times> NeighborConfig list) list" where
  "group_neighbor m n =
     AList.update (NC_InterfaceName n)
       ((case map_of m (NC_InterfaceName n) of None \<Rightarrow> [] | Some ns \<Rightarrow> ns) @ [n]) m"

definition interfaceToNeighbors :: "NeighborConfig list \<Rightarrow> (string \<times> NeighborConfig list) list" where
  "interfaceToNeighbors ns = foldl group_neighbor [] ns"

definition neighbor_table :: "NeighborConfig list \<Rightarrow> (Addr \<times> AddrPort) list" where
  "neighbor_table ns = foldl (\<lambda>m n. AList.update (NC_DestAddr n) (NC_UDPAddr n) m) [] ns"

text \<open>
  \<open>InitInterfaceConn\<close> resolves the interface's UDP address (which never fails on an address that
  was already parsed) and listens on it; a failure ends the program through \<open>log.Fatalln\<close>.
\<close>

definition InitInterfaceConn :: "(AddrPort \<Rightarrow> UDPConn res) \<Rightarrow> AddrPort \<Rightarrow> UDPConn res" where
  "InitInterfaceConn listen port = listen port"

fun ParseLnxConfig_loop ::
  "(AddrPort \<Rightarrow> UDPConn res) \<Rightarrow> (string \<times> NeighborConfig list) list \<Rightarrow> InterfaceConfig list
     \<Rightarrow> IPInterface list \<Rightarrow> IPInterface list res" where
  "ParseLnxConfig_loop listen m [] acc = Inr acc"
| "ParseLnxConfig_loop listen m (iface # ifaces) acc =
     (case InitInterfaceConn listen (IC_UDPAddr iface) of
        Inl e \<Rightarrow> Inl e
      | Inr conn \<Rightarrow>
          ParseLnxConfig_loop listen m ifaces
            (acc @ [\<lparr>AssignedIP = IC_AssignedIP iface,
                     AssignedPrefix = IC_AssignedPrefix iface,
                     UDPPort = IC_UDPAddr iface,
                     INeighbors = neighbor_table
                       (case map_of m (IC_Name iface) of None \<Rightarrow> [] | Some ns \<Rightarrow> ns),
                     InterfaceName = IC_Name iface,
                     IState = INTERFACEUP,
                     Conn = conn\<rparr>]))"

definition ParseLnxConfigToIpInterfaces ::
  "(AddrPort \<Rightarrow> UDPConn res) \<Rightarrow> IPConfig \<Rightarrow> IPInterface list res" where
  "ParseLnxConfigToIpInterfaces listen config =
     ParseLnxConfig_loop listen (interfaceToNeighbors (Neighbors config)) (Interfaces config) []"

text \<open>
  One read of \<open>ReceivePacket\<close>: the datagram is cut or padded with zeros to the fresh buffer, and the
  whole buffer goes to the packet channel.
\<close>

definition MaxMessageSize :: nat where "MaxMessageSize = 1400"

definition ReceivePacket :: "u8 list \<Rightarrow> u8 list" where
  "ReceivePacket datagram =
     take MaxMessageSize datagram @ replicate (MaxMessageSize - length datagram) 0"

lemma length_ReceivePacket [simp]: "length (ReceivePacket datagram) = MaxMessageSize"
  by (simp add: ReceivePacket_def)

lemma ReceivePacket_short:
  "length datagram \<le> MaxMessageSize \<Longrightarrow>
     ReceivePacket datagram = datagram @ replicate (MaxMessageSize - length datagram) 0"
  by (simp add: ReceivePacket_def)

section \<open>The switch\<close>

lemma UpdateInterfaceState_link_nth:
  assumes "k < length (LInterfaces l)"
  shows "LInterfaces (UpdateInterfaceState_link l name st) ! k =
     (if InterfaceName (LInterfaces l ! k) = name
      then (LInterfaces l ! k)\<lparr>IState := st\<rparr> else LInterfaces l ! k)"
  using assms by (auto simp: UpdateInterfaceState_link_def)

lemma UpdateInterfaceState_link_length [simp]:
  "length (LInterfaces (UpdateInterfaceState_link l name st)) = length (LInterfaces l)"
  by (simp add: UpdateInterfaceState_link_def)

lemma InterfaceState_roundtrip: "InterfaceStateFromString (ToString st) = st"
  by (cases st)
    (simp_all add: InterfaceStateFromString_def ToString_def INTERFACEDOWN_def INTERFACEUP_def)

section \<open>Building the interfaces\<close>

lemma map_of_interfaceToNeighbors_acc:
  "map_of (foldl group_neighbor m ns) name =
     (case filter (\<lambda>n. NC_InterfaceName n = name) ns of
        [] \<Rightarrow> map_of m name
      | n # ns' \<Rightarrow> Some ((case map_of m name of None \<Rightarrow> [] | Some l \<Rightarrow> l) @ n # ns'))"
proof (induction ns arbitrary: m)
  case (Cons n ns)
  have upd: "map_of (group_neighbor m n) name =
     (if NC_InterfaceName n = name
      then Some ((case map_of m name of None \<Rightarrow> [] | Some l \<Rightarrow> l) @ [n]) else map_of m name)"
    by (auto simp: group_neighbor_def update_conv')
  show ?case
    by (simp add: Cons.IH upd split: list.split option.split)
qed simp

lemma neighbors_of_interface:
  "(case map_of (interfaceToNeighbors ns) name of None \<Rightarrow> [] | Some l \<Rightarrow> l) =
     filter (\<lambda>n. NC_InterfaceName n = name) ns"
  unfolding interfaceToNeighbors_def map_of_interfaceToNeighbors_acc
  by (simp split: list.split)

lemma map_of_neighbor_table:
  "map_of (neighbor_table ns) =
     map_of (rev (map (\<lambda>n. (NC_DestAddr n, NC_UDPAddr n)) ns))"
proof -
  have "map_of (foldl (\<lambda>m n. AList.update (NC_DestAddr n) (NC_UDPAddr n) m) m ns) =
     map_of m ++ map_of (rev (map (\<lambda>n. (NC_DestAddr n, NC_UDPAddr n)) ns))" for m
    by (induction ns arbitrary: m) (auto simp: update_conv' map_add_def fun_eq_iff split: option.split)
  from this [of "[]"] show ?thesis by (simp add: neighbor_table_def)
qed

lemma distinct_neighbor_table: "distinct (map fst (neighbor_table ns))"
proof -
  have "distinct (map fst m) \<Longrightarrow>
    distinct (map fst (foldl (\<lambda>m n. AList.update (NC_DestAddr n) (NC_UDPAddr n) m) m ns))" for m
    by (induction ns arbitrary: m) (auto simp: distinct_update)
  then show ?thesis by (simp add: neighbor_table_def)
qed

definition interface_of :: "IPConfig \<Rightarrow> InterfaceConfig \<Rightarrow> UDPConn \<Rightarrow> IPInterface" where
  "interface_of config iface conn =
     \<lparr>AssignedIP = IC_AssignedIP iface, AssignedPrefix = IC_AssignedPrefix iface,
      UDPPort = IC_UDPAddr iface,
      INeighbors = neighbor_table
        (filter (\<lambda>n. NC_InterfaceName n = IC_Name iface) (Neighbors config)),
      InterfaceName = IC_Name iface, IState = INTERFACEUP, Conn = conn\<rparr>"

lemma ParseLnxConfig_loop_ok:
  assumes "map (\<lambda>i. listen (IC_UDPAddr i)) ifs = map Inr conns"
  shows "ParseLnxConfig_loop listen (interfaceToNeighbors (Neighbors config)) ifs acc =
     Inr (acc @ map2 (interface_of config) ifs conns)"
  using assms
proof (induction ifs arbitrary: acc conns)
  case (Cons i ifs)
  from Cons.prems obtain c cs where "conns = c # cs" "listen (IC_UDPAddr i) = Inr c"
    "map (\<lambda>i. listen (IC_UDPAddr i)) ifs = map Inr cs"
    by (cases conns) auto
  then show ?case
    by (simp add: Cons.IH InitInterfaceConn_def neighbors_of_interface interface_of_def)
qed simp

lemma ParseLnxConfig_loop_fails:
  "\<exists>i \<in> set ifs. \<exists>e. listen (IC_UDPAddr i) = Inl e \<Longrightarrow>
     \<exists>e. ParseLnxConfig_loop listen m ifs acc = Inl e"
  by (induction ifs arbitrary: acc) (auto simp: InitInterfaceConn_def split: sum.split)

end
