(* ===== verification/Ipv4.thy ===== *)
theory Ipv4
  imports NetAddr
begin

text \<open>
  The IPv4 header as the stack sees it, and its checksum. Parsing and marshalling a header
  (\<open>github.com/brown-csci1680/iptcp-headers\<close>) and the Internet checksum
  (\<open>github.com/google/netstack/tcpip/header\<close>) are code of other repositories: they are the
  argument \<open>P\<close> of every definition that calls them, and \<open>net_pkgs_ok\<close> states the documented
  behaviour the stack relies on. \<open>ComputeChecksum\<close> and \<open>ValidateChecksum\<close> are the stack's own
  (\<open>pkg/network/network.go\<close>).
\<close>

unbundle bit_operations_syntax

record IPv4Header =
  Version :: int
  HLen :: int
  TOS :: int
  TotalLen :: int
  ID :: int
  IFlags :: int
  FragOff :: int
  TTL :: int
  Protocol :: int
  IChecksum :: int
  Src :: Addr
  Dst :: Addr
  Options :: "u8 list"

record net_pkgs =
  ParseHeader :: "u8 list \<Rightarrow> IPv4Header res"
  MarshalHeader :: "IPv4Header \<Rightarrow> u8 list res"
  HeaderChecksum :: "u8 list \<Rightarrow> u16 \<Rightarrow> u16"

definition ComputeChecksum :: "net_pkgs \<Rightarrow> u8 list \<Rightarrow> u16" where
  "ComputeChecksum P b = HeaderChecksum P b 0 XOR 0xffff"

definition ValidateChecksum :: "net_pkgs \<Rightarrow> u8 list \<Rightarrow> u16 \<Rightarrow> u16" where
  "ValidateChecksum P b fromHeader = HeaderChecksum P b fromHeader"

section \<open>The Internet checksum\<close>

text \<open>One's-complement addition of 16-bit words, as RFC 1071 defines it.\<close>

definition ones_add :: "u16 \<Rightarrow> u16 \<Rightarrow> u16" where
  "ones_add a b =
     (let s = uint a + uint b
      in if s < 65536 then word_of_int s else word_of_int (s - 65535))"

fun words16 :: "u8 list \<Rightarrow> u16 list" where
  "words16 (a # b # bs) = get_uint16 [a, b] # words16 bs"
| "words16 [a] = [get_uint16 [a, 0]]"
| "words16 [] = []"

definition rfc1071 :: "u8 list \<Rightarrow> u16 \<Rightarrow> u16" where
  "rfc1071 b init = foldl ones_add init (words16 b)"

text \<open>
  The sum as a number: \<open>n\<close> is represented by the only \<open>r\<close> in \<open>1..65535\<close> congruent to it modulo
  65535, except that the empty sum is 0.
\<close>

definition ones_norm :: "nat \<Rightarrow> nat" where
  "ones_norm n = (if n = 0 then 0 else (n - 1) mod 65535 + 1)"

definition sum16 :: "u8 list \<Rightarrow> nat" where
  "sum16 b = sum_list (map unat (words16 b))"

lemma ones_norm_le: "ones_norm n \<le> 65535"
  by (simp add: ones_norm_def Suc_le_eq less_Suc_eq_le)

lemma ones_norm_small [simp]: "n \<le> 65535 \<Longrightarrow> ones_norm n = n"
  by (auto simp: ones_norm_def)

lemma ones_norm_mod: "ones_norm n mod 65535 = n mod 65535"
  by (cases n) (simp_all add: ones_norm_def mod_simps)

lemma ones_norm_eqI:
  "m mod 65535 = n mod 65535 \<Longrightarrow> (m = 0 \<longleftrightarrow> n = 0) \<Longrightarrow> ones_norm m = ones_norm n"
  by (cases m; cases n) (auto simp: ones_norm_def mod_Suc split: if_splits)

lemma ones_norm_zero [simp]: "ones_norm n = 0 \<longleftrightarrow> n = 0"
  by (simp add: ones_norm_def)

lemma ones_norm_add: "ones_norm (ones_norm m + n) = ones_norm (m + n)"
proof (rule ones_norm_eqI)
  show "(ones_norm m + n) mod 65535 = (m + n) mod 65535"
    by (metis mod_add_left_eq ones_norm_mod)
qed simp

lemma unat_u16_lt: "unat (w :: u16) < 65536"
  using unsigned_less [of w] by simp

lemma uint_word_of_int_u16: "0 \<le> x \<Longrightarrow> x < 65536 \<Longrightarrow> uint (word_of_int x :: u16) = x"
  by (simp add: uint_word_of_int_eq take_bit_int_eq_self)

lemma unat_ones_add: "unat (ones_add a b) = ones_norm (unat a + unat b)"
proof -
  define m n where "m = unat a" and "n = unat b"
  have mn: "uint a = int m" "uint b = int n" "m < 65536" "n < 65536"
    using unat_u16_lt [of a] unat_u16_lt [of b] by (simp_all add: m_def n_def)
  have "uint (ones_add a b) = int (ones_norm (m + n))"
  proof (cases "m + n < 65536")
    case True
    then show ?thesis
      using uint_word_of_int_u16 [of "int m + int n"] by (simp add: ones_add_def mn)
  next
    case False
    then have "ones_norm (m + n) = m + n - 65535"
      using mn(3,4) by (auto simp: ones_norm_def mod_if)
    with False show ?thesis
      using uint_word_of_int_u16 [of "int m + int n - 65535"] mn(3,4)
      by (simp add: ones_add_def mn)
  qed
  then show ?thesis
    by (simp add: m_def n_def flip: of_nat_eq_iff [where 'a = int])
qed

lemma unat_foldl_ones_add:
  "unat (foldl ones_add i ws) = ones_norm (unat i + sum_list (map unat ws))"
proof (induction ws arbitrary: i)
  case Nil
  then show ?case using unat_u16_lt [of i] by simp
next
  case (Cons w ws)
  then show ?case by (simp add: unat_ones_add ones_norm_add add.assoc)
qed

lemma unat_rfc1071: "unat (rfc1071 b i) = ones_norm (unat i + sum16 b)"
  by (simp add: rfc1071_def unat_foldl_ones_add sum16_def)

lemma words16_append: "even (length a) \<Longrightarrow> words16 (a @ b) = words16 a @ words16 b"
  by (induction a rule: words16.induct) auto

lemma sum16_append: "even (length a) \<Longrightarrow> sum16 (a @ b) = sum16 a + sum16 b"
  by (simp add: sum16_def words16_append)

lemma sum16_put_uint16: "sum16 (put_uint16 w) = unat w"
proof -
  have "words16 (put_uint16 w) = [w]"
    using get_put_uint16_Nil [of w] by (simp add: put_uint16_def)
  then show ?thesis by (simp add: sum16_def)
qed

section \<open>What the stack relies on in the header packages\<close>

text \<open>A header without options whose fields fit their widths on the wire.\<close>

definition hdr_ok :: "IPv4Header \<Rightarrow> bool" where
  "hdr_ok h \<longleftrightarrow>
     Version h = 4 \<and> HLen h = 20 \<and> 0 \<le> TOS h \<and> TOS h < 256 \<and>
     0 \<le> TotalLen h \<and> TotalLen h < 65536 \<and> 0 \<le> ID h \<and> ID h < 65536 \<and>
     0 \<le> IFlags h \<and> IFlags h < 8 \<and> 0 \<le> FragOff h \<and> FragOff h < 8192 \<and>
     0 \<le> TTL h \<and> TTL h < 256 \<and> 0 \<le> Protocol h \<and> Protocol h < 256 \<and>
     0 \<le> IChecksum h \<and> IChecksum h < 65536 \<and> Options h = []"

text \<open>
  The documented behaviour: the checksum is RFC 1071's; a 20-byte header carries its checksum
  big-endian in bytes 10 and 11, and no other byte depends on it; parsing reads back the header
  at the front of the buffer.
\<close>

definition marshal_split :: "net_pkgs \<Rightarrow> IPv4Header \<Rightarrow> u8 list \<Rightarrow> u8 list \<Rightarrow> bool" where
  "marshal_split P h a b \<longleftrightarrow> length a = 10 \<and> length b = 8 \<and>
     (\<forall>c :: u16. MarshalHeader P (h\<lparr>IChecksum := uint c\<rparr>) = Inr (a @ put_uint16 c @ b))"

definition net_pkgs_ok :: "net_pkgs \<Rightarrow> bool" where
  "net_pkgs_ok P \<longleftrightarrow>
     (\<forall>b i. length b = 20 \<longrightarrow> HeaderChecksum P b i = rfc1071 b i) \<and>
     (\<forall>h. hdr_ok h \<longrightarrow> (\<exists>a b. marshal_split P h a b)) \<and>
     (\<forall>h bs rest. hdr_ok h \<longrightarrow> MarshalHeader P h = Inr bs \<longrightarrow> ParseHeader P (bs @ rest) = Inr h)"

text \<open>
  Both senders of the stack finish a header the same way: marshal it with a zero checksum,
  compute the checksum of those bytes, store it, marshal again
  (\<open>HandlePacket\<close> lines 267 to 279, \<open>SendPacketToDestIP\<close> lines 331 to 341).
\<close>

definition finish_header :: "net_pkgs \<Rightarrow> IPv4Header \<Rightarrow> (IPv4Header \<times> u8 list) res" where
  "finish_header P packetHeader =
     (case MarshalHeader P (packetHeader\<lparr>IChecksum := 0\<rparr>) of
        Inl e \<Rightarrow> Inl e
      | Inr headerBytes \<Rightarrow>
          (let h' = packetHeader\<lparr>IChecksum := uint (ComputeChecksum P headerBytes)\<rparr>
           in case MarshalHeader P h' of
                Inl e \<Rightarrow> Inl e
              | Inr headerBytes' \<Rightarrow> Inr (h', headerBytes')))"

lemma uint_u16_range: "0 \<le> uint (w :: u16) \<and> uint w < 65536"
  using uint_lt2p [of w] by simp

lemma hdr_ok_IChecksum [simp]:
  "hdr_ok h \<Longrightarrow> hdr_ok (h\<lparr>IChecksum := uint (c :: u16)\<rparr>)"
  using uint_u16_range [of c] by (simp add: hdr_ok_def)

lemma unat_inverse_checksum: "unat (w XOR 0xffff :: u16) = 65535 - unat w"
proof -
  have m: "(0xffff :: u16) = mask 16"
    by (simp add: mask_eq_exp_minus_1)
  have "w XOR 0xffff = NOT w"
    unfolding m by (rule bit_word_eqI) (simp add: bit_simps)
  then have "w XOR 0xffff = - 1 - w"
    by (simp add: not_eq_complement)
  moreover have "unat (- 1 - w) = unat (- 1 :: u16) - unat w"
    by (rule unat_sub) simp
  moreover have "unat (- 1 :: u16) = 65535"
    by (simp add: unsigned_minus_1_eq_mask mask_eq_exp_minus_1)
  ultimately show ?thesis by simp
qed

text \<open>
  The heart of the checksum: stored where the zero was, it makes the header's own sum a multiple
  of 65535, so validating with the stored value as the initial sum gives that value back,
  except when the stored value is 0.
\<close>

lemma ones_norm_checksum:
  assumes "c = 65535 - ones_norm s"
  shows "ones_norm (c + (s + c)) = (if c = 0 then 65535 else c)"
proof -
  have sc: "(s + c) mod 65535 = 0"
  proof -
    have "(s + c) mod 65535 = (ones_norm s + c) mod 65535"
      by (metis mod_add_left_eq ones_norm_mod)
    also have "ones_norm s + c = 65535"
      using assms ones_norm_le [of s] by simp
    finally show ?thesis by simp
  qed
  show ?thesis
  proof (cases "c = 0")
    case True
    with assms have "s \<noteq> 0" by (cases "s = 0") simp_all
    with True sc have "ones_norm s = ones_norm 65535"
      by (intro ones_norm_eqI) simp_all
    with True show ?thesis by simp
  next
    case False
    have "(c + (s + c)) mod 65535 = c mod 65535"
      using sc by (metis add_0_right mod_add_right_eq)
    with False have "ones_norm (c + (s + c)) = ones_norm c"
      by (intro ones_norm_eqI) simp_all
    with False assms show ?thesis by simp
  qed
qed

lemma net_pkgs_checksum:
  "net_pkgs_ok P \<Longrightarrow> length b = 20 \<Longrightarrow> HeaderChecksum P b i = rfc1071 b i"
  by (simp add: net_pkgs_ok_def)

lemma net_pkgs_parse:
  "net_pkgs_ok P \<Longrightarrow> hdr_ok h \<Longrightarrow> MarshalHeader P h = Inr bs \<Longrightarrow> ParseHeader P (bs @ rest) = Inr h"
  unfolding net_pkgs_ok_def by blast

lemma finish_header_cases:
  assumes P: "net_pkgs_ok P" and h: "hdr_ok h"
  obtains bs c where "finish_header P h = Inr (h\<lparr>IChecksum := uint c\<rparr>, bs)"
    "length bs = 20" "\<And>rest. ParseHeader P (bs @ rest) = Inr (h\<lparr>IChecksum := uint c\<rparr>)"
    "ValidateChecksum P bs c = c \<longleftrightarrow> c \<noteq> 0"
proof -
  obtain a b where "marshal_split P h a b"
    using P h unfolding net_pkgs_ok_def by blast
  then have len: "length a = 10" "length b = 8"
    and mu: "\<And>c :: u16. MarshalHeader P (h\<lparr>IChecksum := uint c\<rparr>) = Inr (a @ put_uint16 c @ b)"
    by (simp_all add: marshal_split_def)
  define c where "c = ComputeChecksum P (a @ put_uint16 0 @ b)"
  define s where "s = sum16 a + sum16 b"
  let ?b1 = "a @ put_uint16 c @ b"
  have sum: "sum16 (a @ put_uint16 w @ b) = s + unat w" for w
    by (simp add: s_def sum16_append sum16_put_uint16 len)
  have c: "unat c = 65535 - ones_norm s"
    by (simp add: c_def ComputeChecksum_def net_pkgs_checksum [OF P] len unat_inverse_checksum
        unat_rfc1071 sum)
  define v where "v = ValidateChecksum P ?b1 c"
  have v: "unat v = (if unat c = 0 then 65535 else unat c)"
    by (simp add: v_def ValidateChecksum_def net_pkgs_checksum [OF P] len unat_rfc1071 sum
        ones_norm_checksum [OF c])
  have "v = c \<longleftrightarrow> c \<noteq> 0"
  proof (cases "c = 0")
    case True
    with v have "unat v = 65535" by simp
    with True show ?thesis by auto
  next
    case False
    with v have "unat v = unat c" by (simp add: unat_eq_0)
    then have "v = c" by (simp only: word_unat_eq_iff)
    with False show ?thesis by simp
  qed
  then have valid: "ValidateChecksum P ?b1 c = c \<longleftrightarrow> c \<noteq> 0"
    by (simp only: v_def)
  have fin: "finish_header P h = Inr (h\<lparr>IChecksum := uint c\<rparr>, ?b1)"
  proof -
    have "MarshalHeader P (h\<lparr>IChecksum := 0\<rparr>) = Inr (a @ put_uint16 0 @ b)"
      using mu [of 0] by simp
    then show ?thesis
      by (simp add: finish_header_def mu flip: c_def)
  qed
  have parse: "ParseHeader P (?b1 @ rest) = Inr (h\<lparr>IChecksum := uint c\<rparr>)" for rest
    using net_pkgs_parse [OF P _ mu [of c]] h by simp
  show ?thesis
    using that [OF fin _ parse valid] len by simp
qed

section \<open>An instance: RFC 791 headers without options\<close>

text \<open>
  A concrete header package, used where a theorem about any package that satisfies
  \<open>net_pkgs_ok\<close> is applied to a concrete packet.
\<close>

definition wire_marshal :: "IPv4Header \<Rightarrow> u8 list res" where
  "wire_marshal h =
     (if HLen h \<noteq> 20 \<or> Options h \<noteq> [] then Inl (Error ''bad header length'')
      else Inr ([word_of_int (16 * Version h + 5), word_of_int (TOS h)] @
        put_uint16 (word_of_int (TotalLen h)) @ put_uint16 (word_of_int (ID h)) @
        put_uint16 (word_of_int (8192 * IFlags h + FragOff h)) @
        [word_of_int (TTL h), word_of_int (Protocol h)] @
        put_uint16 (word_of_int (IChecksum h)) @ put_uint32 (Src h) @ put_uint32 (Dst h)))"

definition wire_parse :: "u8 list \<Rightarrow> IPv4Header res" where
  "wire_parse bs =
     (if length bs < 20 then Inl (Error ''header too short'')
      else if uint (bs ! 0) mod 16 \<noteq> 5 then Inl (Error ''bad header length'')
      else Inr \<lparr>Version = uint (bs ! 0) div 16, HLen = 20, TOS = uint (bs ! 1),
             TotalLen = uint (get_uint16 (drop 2 bs)), ID = uint (get_uint16 (drop 4 bs)),
             IFlags = uint (get_uint16 (drop 6 bs)) div 8192,
             FragOff = uint (get_uint16 (drop 6 bs)) mod 8192,
             TTL = uint (bs ! 8), Protocol = uint (bs ! 9),
             IChecksum = uint (get_uint16 (drop 10 bs)),
             Src = get_uint32 (drop 12 bs), Dst = get_uint32 (drop 16 bs), Options = []\<rparr>)"

definition wire_pkgs :: net_pkgs where
  "wire_pkgs = \<lparr>ParseHeader = wire_parse, MarshalHeader = wire_marshal, HeaderChecksum = rfc1071\<rparr>"

lemma uint_word_of_int_u8: "0 \<le> x \<Longrightarrow> x < 256 \<Longrightarrow> uint (word_of_int x :: u8) = x"
  by (simp add: uint_word_of_int_eq take_bit_int_eq_self)

lemma wire_parse_marshal:
  assumes h: "hdr_ok h" and m: "wire_marshal h = Inr bs"
  shows "wire_parse (bs @ rest) = Inr h"
proof -
  let ?w = "word_of_int :: int \<Rightarrow> u16" and ?b = "word_of_int :: int \<Rightarrow> u8"
  have bs: "bs = ?b 69 # ?b (TOS h) # put_uint16 (?w (TotalLen h)) @ put_uint16 (?w (ID h)) @
      put_uint16 (?w (8192 * IFlags h + FragOff h)) @ ?b (TTL h) # ?b (Protocol h) #
      put_uint16 (?w (IChecksum h)) @ put_uint32 (Src h) @ put_uint32 (Dst h)"
    using h m by (simp add: wire_marshal_def hdr_ok_def)
  have frag: "0 \<le> 8192 * IFlags h + FragOff h" "8192 * IFlags h + FragOff h < 65536"
    "(8192 * IFlags h + FragOff h) div 8192 = IFlags h"
    "(8192 * IFlags h + FragOff h) mod 8192 = FragOff h"
    using h by (auto simp: hdr_ok_def)
  note frag' = uint_word_of_int_u16 [OF frag(1,2)]
  have nths: "(bs @ rest) ! 0 = ?b 69" "(bs @ rest) ! 1 = ?b (TOS h)"
    "(bs @ rest) ! 8 = ?b (TTL h)" "(bs @ rest) ! 9 = ?b (Protocol h)"
    by (simp_all add: bs put_uint16_def)
  have gets: "get_uint16 (drop 2 (bs @ rest)) = ?w (TotalLen h)"
    "get_uint16 (drop 4 (bs @ rest)) = ?w (ID h)"
    "get_uint16 (drop 6 (bs @ rest)) = ?w (8192 * IFlags h + FragOff h)"
    "get_uint16 (drop 10 (bs @ rest)) = ?w (IChecksum h)"
    "get_uint32 (drop 12 (bs @ rest)) = Src h"
    "get_uint32 (drop 16 (bs @ rest)) = Dst h"
    by (simp_all add: bs)
  have len: "\<not> length (bs @ rest) < 20" by (simp add: bs)
  have ver: "uint (?b 69) = 69" by simp
  show ?thesis
    unfolding wire_parse_def nths gets if_not_P [OF len] ver frag' frag
    using h by (cases h) (simp add: hdr_ok_def uint_word_of_int_u8 uint_word_of_int_u16)
qed

lemma wire_pkgs_ok: "net_pkgs_ok wire_pkgs"
proof -
  have "\<exists>a b. marshal_split wire_pkgs h a b" if h: "hdr_ok h" for h
  proof -
    define a :: "u8 list" where "a = [word_of_int (16 * Version h + 5), word_of_int (TOS h)] @
        put_uint16 (word_of_int (TotalLen h)) @ put_uint16 (word_of_int (ID h)) @
        put_uint16 (word_of_int (8192 * IFlags h + FragOff h)) @
        [word_of_int (TTL h), word_of_int (Protocol h)]"
    have "marshal_split wire_pkgs h a (put_uint32 (Src h) @ put_uint32 (Dst h))"
      using h by (simp add: marshal_split_def wire_pkgs_def wire_marshal_def hdr_ok_def a_def)
    then show ?thesis by blast
  qed
  then show ?thesis
    by (simp add: net_pkgs_ok_def wire_pkgs_def wire_parse_marshal)
qed

end
