(* ===== verification/Network.thy ===== *)
theory Network
  imports Link Ipv4
begin

text \<open>
  The network layer (\<open>pkg/network/network.go\<close>): the forwarding table, the lookups over it, the
  receive path \<open>HandlePacket\<close> and the send path \<open>SendPacketToDestIP\<close>. Every \<open>range\<close> loop over
  the table takes the order of its run as an argument. Writing to a UDP socket, handing bytes to
  the packet channel and calling a protocol handler are the values of \<open>net_out\<close>.
\<close>

section \<open>The forwarding table\<close>

datatype RouteType = LocalRoute | StaticRoute | RIPRoute

record FwdTableValue =
  Cost :: u32
  LastUpdatedTime :: int
  Interface :: "IPInterface option"
  NextHop :: "Addr option"
  RouteType :: RouteType

record FwdTableEntry =
  EAssignedIP :: Addr
  EAssignedPrefix :: Prefix

type_synonym FwdTable = "(FwdTableEntry \<times> FwdTableValue) list"

record 'h NetworkLayer =
  FwdTable :: FwdTable
  Handlers :: "(u8 \<times> 'h) list"
  RIPNeighbors :: "Addr list"

definition CreateFwdTableValue ::
  "u32 \<Rightarrow> int \<Rightarrow> IPInterface option \<Rightarrow> Addr option \<Rightarrow> RouteType \<Rightarrow> FwdTableValue" where
  "CreateFwdTableValue givenCost givenTime givenIntf givenNextHop givenRouteType =
     \<lparr>Cost = givenCost, LastUpdatedTime = givenTime, Interface = givenIntf,
      NextHop = givenNextHop, RouteType = givenRouteType\<rparr>"

definition CreateFwdTableEntry :: "Addr \<Rightarrow> Prefix \<Rightarrow> FwdTableEntry" where
  "CreateFwdTableEntry assIp assPrefix = \<lparr>EAssignedIP = assIp, EAssignedPrefix = assPrefix\<rparr>"

definition init_local :: "int \<Rightarrow> FwdTable \<Rightarrow> IPInterface \<Rightarrow> FwdTable" where
  "init_local now t ipInterface =
     AList.update (CreateFwdTableEntry (AssignedIP ipInterface) (AssignedPrefix ipInterface))
       (CreateFwdTableValue 0 now (Some ipInterface) None LocalRoute) t"

text \<open>
  The static-route loop stores \<open>&addr\<close>, the address of its loop variable. The module's language
  version is 1.21, where all iterations share that one variable, so once the loop is over every
  stored pointer reads the value of the last iteration: \<open>shared\<close>.
\<close>

definition init_static :: "int \<Rightarrow> Addr option \<Rightarrow> FwdTable \<Rightarrow> Prefix \<times> Addr \<Rightarrow> FwdTable" where
  "init_static now shared t r =
     AList.update (CreateFwdTableEntry (snd r) (fst r))
       (CreateFwdTableValue 0 now None shared StaticRoute) t"

definition InitNetworkLayer ::
  "int \<Rightarrow> ((Prefix \<times> Addr) list \<Rightarrow> (Prefix \<times> Addr) list) \<Rightarrow> IPInterface list
     \<Rightarrow> (Prefix \<times> Addr) list \<Rightarrow> 'h NetworkLayer" where
  "InitNetworkLayer now ord interfaces staticRoutes =
     (let rs = ord staticRoutes;
          shared = (if rs = [] then None else Some (snd (last rs)))
      in \<lparr>FwdTable = foldl (init_static now shared) (foldl (init_local now) [] interfaces) rs,
          Handlers = [], RIPNeighbors = []\<rparr>)"

definition RegisterHandlers :: "'h NetworkLayer \<Rightarrow> u8 \<Rightarrow> 'h \<Rightarrow> 'h NetworkLayer" where
  "RegisterHandlers n protocolNum hf = n\<lparr>Handlers := AList.update protocolNum hf (Handlers n)\<rparr>"

section \<open>Lookups\<close>

fun checkIfLocalIP_loop :: "FwdTable \<Rightarrow> Addr \<Rightarrow> IPInterface option \<times> bool" where
  "checkIfLocalIP_loop [] destIP = (None, False)"
| "checkIfLocalIP_loop ((e, v) # t) destIP =
     (if RouteType v = LocalRoute \<and> EAssignedIP e = destIP then (Interface v, True)
      else checkIfLocalIP_loop t destIP)"

definition checkIfLocalIP ::
  "(FwdTable \<Rightarrow> FwdTable) \<Rightarrow> 'h NetworkLayer \<Rightarrow> Addr \<Rightarrow> IPInterface option \<times> bool" where
  "checkIfLocalIP ord n destIP = checkIfLocalIP_loop (ord (FwdTable n)) destIP"

fun getInterfaceByPrefix_loop :: "FwdTable \<Rightarrow> Addr \<Rightarrow> IPInterface option res" where
  "getInterfaceByPrefix_loop [] destIP = Inr None"
| "getInterfaceByPrefix_loop ((e, v) # t) destIP =
     (if RouteType v = LocalRoute
      then (case Interface v of
              None \<Rightarrow> Inl (Panic NilDereference)
            | Some i \<Rightarrow>
                if IState i = INTERFACEUP \<and> Contains (EAssignedPrefix e) destIP
                then Inr (Some i) else getInterfaceByPrefix_loop t destIP)
      else getInterfaceByPrefix_loop t destIP)"

definition getInterfaceByPrefix ::
  "(FwdTable \<Rightarrow> FwdTable) \<Rightarrow> 'h NetworkLayer \<Rightarrow> Addr \<Rightarrow> IPInterface option res" where
  "getInterfaceByPrefix ord n destIP = getInterfaceByPrefix_loop (ord (FwdTable n)) destIP"

fun getNextHopbyDestIP_loop :: "FwdTable \<Rightarrow> Addr \<Rightarrow> Addr option" where
  "getNextHopbyDestIP_loop [] destIP = None"
| "getNextHopbyDestIP_loop ((e, v) # t) destIP =
     (if Contains (EAssignedPrefix e) destIP then NextHop v
      else getNextHopbyDestIP_loop t destIP)"

definition getNextHopbyDestIP ::
  "(FwdTable \<Rightarrow> FwdTable) \<Rightarrow> 'h NetworkLayer \<Rightarrow> Addr \<Rightarrow> Addr option" where
  "getNextHopbyDestIP ord n destIP = getNextHopbyDestIP_loop (ord (FwdTable n)) destIP"

fun getRemoteAddr_loop :: "(Addr \<times> AddrPort) list \<Rightarrow> Addr \<Rightarrow> AddrPort option" where
  "getRemoteAddr_loop [] destIP = None"
| "getRemoteAddr_loop ((destAddr, udpAddr) # m) destIP =
     (if destAddr = destIP then Some udpAddr else getRemoteAddr_loop m destIP)"

definition getRemoteAddrByNeighborIP :: "Addr \<Rightarrow> IPInterface \<Rightarrow> AddrPort option" where
  "getRemoteAddrByNeighborIP destIP ipInterface =
     getRemoteAddr_loop (INeighbors ipInterface) destIP"

definition GetEntryByAddress ::
  "(FwdTable \<Rightarrow> FwdTable) \<Rightarrow> 'h NetworkLayer \<Rightarrow> Addr \<Rightarrow> FwdTableEntry option" where
  "GetEntryByAddress ord n addr =
     find (\<lambda>e. EAssignedIP e = addr) (map fst (ord (FwdTable n)))"

definition GetEntryByPrefix ::
  "(FwdTable \<Rightarrow> FwdTable) \<Rightarrow> 'h NetworkLayer \<Rightarrow> Addr \<Rightarrow> FwdTableEntry option" where
  "GetEntryByPrefix ord n addr =
     find (\<lambda>e. Contains (EAssignedPrefix e) addr) (map fst (ord (FwdTable n)))"

section \<open>Receiving and sending\<close>

text \<open>
  What a call does to the outside: write a datagram on an interface, put bytes into the packet
  channel, call the handler registered for the protocol, or nothing.
\<close>

datatype 'h net_out =
    ToUDP IPInterface AddrPort "u8 list"
  | ToChannel "u8 list"
  | ToHandler 'h "u8 list" IPv4Header
  | Discarded

definition MaxHops :: int where "MaxHops = 16"

text \<open>
  The route of a packet that is not for this node: a local interface that is up and whose prefix
  contains the destination, or else the next hop of a matching entry and the interface that
  reaches the next hop. The two callers differ in the messages of the two errors.
\<close>

definition resolve_route ::
  "(nat \<Rightarrow> FwdTable \<Rightarrow> FwdTable) \<Rightarrow> 'h NetworkLayer \<Rightarrow> string \<Rightarrow> string \<Rightarrow> Addr
     \<Rightarrow> (IPInterface \<times> Addr) res" where
  "resolve_route rng n noHop noInterface destIP =
     (case getInterfaceByPrefix (rng 1) n destIP of
        Inl e \<Rightarrow> Inl e
      | Inr (Some i) \<Rightarrow> Inr (i, destIP)
      | Inr None \<Rightarrow>
          (case getNextHopbyDestIP (rng 2) n destIP of
             None \<Rightarrow> Inl (Error noHop)
           | Some nextHopIP \<Rightarrow>
               (case getInterfaceByPrefix (rng 3) n nextHopIP of
                  Inl e \<Rightarrow> Inl e
                | Inr None \<Rightarrow> Inl (Error noInterface)
                | Inr (Some i) \<Rightarrow> Inr (i, nextHopIP))))"

definition deliver_local ::
  "'h NetworkLayer \<Rightarrow> IPInterface option \<Rightarrow> IPv4Header \<Rightarrow> u8 list \<Rightarrow> 'h net_out res" where
  "deliver_local n myInterface packetHeader msgBytes =
     (case myInterface of
        None \<Rightarrow> Inl (Panic NilDereference)
      | Some i \<Rightarrow>
          if IState i = INTERFACEDOWN then Inr Discarded
          else (case map_of (Handlers n) (word_of_int (Protocol packetHeader)) of
                  None \<Rightarrow> Inl (Error ''invalid protocol number in IP header'')
                | Some hf \<Rightarrow> Inr (ToHandler hf msgBytes packetHeader)))"

definition forward_packet ::
  "net_pkgs \<Rightarrow> (nat \<Rightarrow> FwdTable \<Rightarrow> FwdTable) \<Rightarrow> 'h NetworkLayer \<Rightarrow> IPv4Header \<Rightarrow> u8 list
     \<Rightarrow> 'h net_out res" where
  "forward_packet P rng n packetHeader msgBytes =
     (case resolve_route rng n ''no next hop found'' ''could not find interface based on next hop''
             (Dst packetHeader) of
        Inl e \<Rightarrow> Inl e
      | Inr (localInterface, destIP) \<Rightarrow>
          (case getRemoteAddrByNeighborIP destIP localInterface of
             None \<Rightarrow> Inl (Error ''should never happen'')
           | Some remoteUDPAddr \<Rightarrow>
               (let h = packetHeader\<lparr>TTL := TTL packetHeader - 1\<rparr>
                in if TTL h \<le> 0 then Inr Discarded
                   else (case finish_header P h of
                           Inl e \<Rightarrow> Inl e
                         | Inr (_, headerBytes) \<Rightarrow>
                             Inr (ToUDP localInterface remoteUDPAddr (headerBytes @ msgBytes))))))"

definition HandlePacket ::
  "net_pkgs \<Rightarrow> (nat \<Rightarrow> FwdTable \<Rightarrow> FwdTable) \<Rightarrow> 'h NetworkLayer \<Rightarrow> u8 list \<Rightarrow> 'h net_out res" where
  "HandlePacket P rng n buffer =
     (case ParseHeader P buffer of
        Inl e \<Rightarrow> Inl e
      | Inr packetHeader \<Rightarrow>
          (case go_slice buffer 0 (HLen packetHeader) of
             Inl e \<Rightarrow> Inl e
           | Inr headerBytes \<Rightarrow>
               (let checksumFromHeader = word_of_int (IChecksum packetHeader)
                in if ValidateChecksum P headerBytes checksumFromHeader \<noteq> checksumFromHeader
                   then Inl (Error ''invalid checksum'')
                   else (case go_slice buffer (HLen packetHeader) (TotalLen packetHeader) of
                           Inl e \<Rightarrow> Inl e
                         | Inr msgBytes \<Rightarrow>
                             (case checkIfLocalIP (rng 0) n (Dst packetHeader) of
                                (myInterface, True) \<Rightarrow>
                                  deliver_local n myInterface packetHeader msgBytes
                              | (_, False) \<Rightarrow>
                                  forward_packet P rng n packetHeader msgBytes)))))"

text \<open>The interface and next hop of a packet to send, and whether it is for this node.\<close>

definition send_route ::
  "(nat \<Rightarrow> FwdTable \<Rightarrow> FwdTable) \<Rightarrow> 'h NetworkLayer \<Rightarrow> Addr \<Rightarrow> (bool \<times> IPInterface \<times> Addr) res" where
  "send_route rng n destIP =
     (case checkIfLocalIP (rng 0) n destIP of
        (Some i, True) \<Rightarrow> Inr (True, i, destIP)
      | (None, True) \<Rightarrow> Inl (Panic NilDereference)
      | (_, False) \<Rightarrow>
          (case resolve_route rng n ''no next hop found for dest ip''
                  ''Can't reach the destIP '' destIP of
             Inl e \<Rightarrow> Inl e
           | Inr (i, nextIP) \<Rightarrow> Inr (False, i, nextIP)))"

definition SendPacketToDestIP ::
  "net_pkgs \<Rightarrow> (nat \<Rightarrow> FwdTable \<Rightarrow> FwdTable) \<Rightarrow> 'h NetworkLayer \<Rightarrow> Addr \<Rightarrow> u8 \<Rightarrow> u8 list
     \<Rightarrow> 'h net_out res" where
  "SendPacketToDestIP P rng n destIP protocol msg =
     (case send_route rng n destIP of
        Inl e \<Rightarrow> Inl e
      | Inr (isLocalHost, nextHopInterface, nextIP) \<Rightarrow>
          (case finish_header P
                  \<lparr>Version = 4, HLen = 20, TOS = 0, TotalLen = 20 + int (length msg), ID = 0,
                   IFlags = 0, FragOff = 0, TTL = MaxHops, Protocol = uint protocol,
                   IChecksum = 0, Src = AssignedIP nextHopInterface, Dst = destIP,
                   Options = []\<rparr> of
             Inl e \<Rightarrow> Inl e
           | Inr (_, headerBytes) \<Rightarrow>
               if isLocalHost then Inr (ToChannel (headerBytes @ msg))
               else (case getRemoteAddrByNeighborIP nextIP nextHopInterface of
                       None \<Rightarrow> Inl (Error ''should never happen, didn't find neighbor'')
                     | Some remoteAddr \<Rightarrow>
                         Inr (ToUDP nextHopInterface remoteAddr (headerBytes @ msg)))))"

section \<open>The up/down switch\<close>

definition set_interface_state :: "string \<Rightarrow> InterfaceState \<Rightarrow> FwdTableValue \<Rightarrow> FwdTableValue" where
  "set_interface_state intfToChange newState v =
     (if RouteType v = LocalRoute
      then (case Interface v of
              None \<Rightarrow> v
            | Some i \<Rightarrow>
                if InterfaceName i = intfToChange
                then (if newState \<noteq> IState i then v\<lparr>Interface := Some (i\<lparr>IState := newState\<rparr>)\<rparr>
                      else v)
                else v)
      else v)"

definition UpdateInterfaceState_net ::
  "'h NetworkLayer \<Rightarrow> string \<Rightarrow> InterfaceState \<Rightarrow> 'h NetworkLayer res" where
  "UpdateInterfaceState_net n intfToChange newState =
     (if \<exists>(e, v) \<in> set (FwdTable n). RouteType v = LocalRoute \<and> Interface v = None
      then Inl (Panic NilDereference)
      else Inr (n\<lparr>FwdTable :=
                  map (\<lambda>(e, v). (e, set_interface_state intfToChange newState v)) (FwdTable n)\<rparr>))"

section \<open>Well-formed tables\<close>

text \<open>
  What every operation keeps and every lookup needs: keys are distinct, a local route has an
  interface, any other route has a next hop.
\<close>

definition entry_wf :: "FwdTableEntry \<times> FwdTableValue \<Rightarrow> bool" where
  "entry_wf x \<longleftrightarrow>
     (RouteType (snd x) = LocalRoute \<longrightarrow> Interface (snd x) \<noteq> None) \<and>
     (RouteType (snd x) \<noteq> LocalRoute \<longrightarrow> NextHop (snd x) \<noteq> None)"

definition fwd_wf :: "FwdTable \<Rightarrow> bool" where
  "fwd_wf t \<longleftrightarrow> distinct (map fst t) \<and> (\<forall>x \<in> set t. entry_wf x)"

lemma fwd_wf_Nil [simp]: "fwd_wf []"
  by (simp add: fwd_wf_def)

lemma fwd_wf_entry: "fwd_wf t \<Longrightarrow> x \<in> set t \<Longrightarrow> entry_wf x"
  by (simp add: fwd_wf_def)

lemma fwd_wf_perm:
  assumes "mset t' = mset t" and "fwd_wf t"
  shows "fwd_wf t'"
proof -
  have "mset (map fst t') = mset (map fst t)" using assms(1) by simp
  from mset_eq_imp_distinct_iff [OF this] have "distinct (map fst t')"
    using assms(2) by (simp add: fwd_wf_def)
  with assms show ?thesis using mset_eq_setD [OF assms(1)] by (simp add: fwd_wf_def)
qed

lemma fwd_wf_range [range_simps]: "range_ok rng \<Longrightarrow> fwd_wf t \<Longrightarrow> fwd_wf (rng i t)"
  by (rule fwd_wf_perm [OF range_ok_mset])

lemma set_AList_update:
  "distinct (map fst t) \<Longrightarrow>
     set (AList.update k v t) = insert (k, v) {x \<in> set t. fst x \<noteq> k}"
proof (induction t)
  case (Cons x t)
  then show ?case by (cases x) auto
qed simp

lemma fwd_wf_update: "fwd_wf t \<Longrightarrow> entry_wf (k, v) \<Longrightarrow> fwd_wf (AList.update k v t)"
  by (auto simp: fwd_wf_def distinct_update set_AList_update)

lemma fwd_wf_delete: "fwd_wf t \<Longrightarrow> fwd_wf (AList.delete k t)"
  using distinct_delete [of t k] by (auto simp: fwd_wf_def) (simp add: AList.delete_eq)

section \<open>The loops as searches\<close>

definition local_match :: "Addr \<Rightarrow> FwdTableEntry \<times> FwdTableValue \<Rightarrow> bool" where
  "local_match ip x \<longleftrightarrow> RouteType (snd x) = LocalRoute \<and> EAssignedIP (fst x) = ip"

definition covers :: "Addr \<Rightarrow> FwdTableEntry \<times> FwdTableValue \<Rightarrow> bool" where
  "covers ip x \<longleftrightarrow> Contains (EAssignedPrefix (fst x)) ip"

definition up_match :: "Addr \<Rightarrow> FwdTableEntry \<times> FwdTableValue \<Rightarrow> bool" where
  "up_match ip x \<longleftrightarrow> RouteType (snd x) = LocalRoute \<and>
     (case Interface (snd x) of None \<Rightarrow> False | Some i \<Rightarrow> IState i = INTERFACEUP) \<and> covers ip x"

lemmas match_defs = local_match_def covers_def up_match_def

lemma checkIfLocalIP_find:
  "checkIfLocalIP_loop t ip =
     (case find (local_match ip) t of None \<Rightarrow> (None, False) | Some x \<Rightarrow> (Interface (snd x), True))"
  by (induction t ip rule: checkIfLocalIP_loop.induct) (auto simp: local_match_def)

lemma getInterfaceByPrefix_find:
  "\<forall>x \<in> set t. entry_wf x \<Longrightarrow>
   getInterfaceByPrefix_loop t ip =
     Inr (case find (up_match ip) t of None \<Rightarrow> None | Some x \<Rightarrow> Interface (snd x))"
  by (induction t ip rule: getInterfaceByPrefix_loop.induct)
    (auto simp: match_defs entry_wf_def split: option.split)

lemma getNextHopbyDestIP_find:
  "getNextHopbyDestIP_loop t ip =
     (case find (covers ip) t of None \<Rightarrow> None | Some x \<Rightarrow> NextHop (snd x))"
  by (induction t ip rule: getNextHopbyDestIP_loop.induct) (auto simp: covers_def)

lemma getRemoteAddr_map_of: "getRemoteAddr_loop m ip = map_of m ip"
  by (induction m ip rule: getRemoteAddr_loop.induct) auto

lemma GetEntryByPrefix_find:
  "GetEntryByPrefix ord n ip = map_option fst (find (covers ip) (ord (FwdTable n)))"
proof -
  have "find (\<lambda>e. Contains (EAssignedPrefix e) ip) (map fst t) = map_option fst (find (covers ip) t)"
    for t :: FwdTable
    by (induction t) (auto simp: covers_def)
  then show ?thesis by (simp add: GetEntryByPrefix_def)
qed

text \<open>A local interface is reached only through an entry of the table that is up.\<close>

lemma getInterfaceByPrefix_Some:
  assumes "range_ok rng" "fwd_wf (FwdTable n)" "getInterfaceByPrefix (rng k) n ip = Inr (Some i)"
  shows "IState i = INTERFACEUP \<and>
    (\<exists>(e, v) \<in> set (FwdTable n). RouteType v = LocalRoute \<and> Interface v = Some i \<and>
       Contains (EAssignedPrefix e) ip)"
proof -
  have "getInterfaceByPrefix (rng k) n ip =
    Inr (case find (up_match ip) (rng k (FwdTable n)) of None \<Rightarrow> None | Some x \<Rightarrow> Interface (snd x))"
    unfolding getInterfaceByPrefix_def
    using assms(1,2) by (intro getInterfaceByPrefix_find) (auto simp: fwd_wf_def range_simps)
  with assms(3) obtain x where x: "find (up_match ip) (rng k (FwdTable n)) = Some x"
    "Interface (snd x) = Some i" by (auto split: option.splits)
  then have "x \<in> set (FwdTable n)" "up_match ip x"
    using find_eq_Some_in_set [OF x(1)] assms(1) by (auto simp: range_simps)
  with x(2) show ?thesis by (auto simp: match_defs split_beta)
qed

lemma resolve_route_up:
  assumes "range_ok rng" "fwd_wf (FwdTable n)" "resolve_route rng n m1 m2 ip = Inr (i, hop)"
  shows "IState i = INTERFACEUP \<and>
    (\<exists>(e, v) \<in> set (FwdTable n). RouteType v = LocalRoute \<and> Interface v = Some i \<and>
       Contains (EAssignedPrefix e) hop)"
  using assms(3) getInterfaceByPrefix_Some [OF assms(1,2)]
  by (fastforce simp: resolve_route_def split: sum.splits option.splits)

lemma getInterfaceByPrefix_no_error:
  assumes "range_ok rng" "fwd_wf (FwdTable n)"
  shows "getInterfaceByPrefix (rng k) n ip \<noteq> Inl e"
  using assms unfolding getInterfaceByPrefix_def
  by (subst getInterfaceByPrefix_find) (auto simp: fwd_wf_def range_simps)

section \<open>What the constructor builds\<close>

lemma fwd_wf_init_local1: "fwd_wf t \<Longrightarrow> fwd_wf (init_local now t i)"
  by (simp add: init_local_def CreateFwdTableValue_def entry_wf_def fwd_wf_update)

lemma fwd_wf_init_static1: "fwd_wf t \<Longrightarrow> fwd_wf (init_static now (Some a) t r)"
  by (simp add: init_static_def CreateFwdTableValue_def entry_wf_def fwd_wf_update)

lemma fwd_wf_init_local: "fwd_wf t \<Longrightarrow> fwd_wf (foldl (init_local now) t ifs)"
  by (induction ifs arbitrary: t) (simp_all add: fwd_wf_init_local1)

lemma fwd_wf_init_static: "fwd_wf t \<Longrightarrow> fwd_wf (foldl (init_static now (Some a)) t rs)"
  by (induction rs arbitrary: t) (simp_all add: fwd_wf_init_static1)

lemma fwd_wf_InitNetworkLayer: "fwd_wf (FwdTable (InitNetworkLayer now ord ifs srs))"
  by (simp add: InitNetworkLayer_def Let_def fwd_wf_init_local fwd_wf_init_static)

lemma set_interface_state_simps [simp]:
  "RouteType (set_interface_state name st v) = RouteType v"
  "NextHop (set_interface_state name st v) = NextHop v"
  "Cost (set_interface_state name st v) = Cost v"
  "LastUpdatedTime (set_interface_state name st v) = LastUpdatedTime v"
  by (auto simp: set_interface_state_def split: option.split)

lemma Interface_set_interface_state:
  "Interface (set_interface_state name st v) =
     (if RouteType v = LocalRoute
      then map_option (\<lambda>i. if InterfaceName i = name then i\<lparr>IState := st\<rparr> else i) (Interface v)
      else Interface v)"
  by (auto simp: set_interface_state_def split: option.split)

lemma UpdateInterfaceState_net_wf:
  assumes "fwd_wf (FwdTable n)"
  shows "UpdateInterfaceState_net n name st =
    Inr (n\<lparr>FwdTable := map (\<lambda>(e, v). (e, set_interface_state name st v)) (FwdTable n)\<rparr>)"
  using assms by (auto simp: UpdateInterfaceState_net_def fwd_wf_def entry_wf_def split: prod.splits)

lemma fwd_wf_set_interface_state:
  assumes "fwd_wf t"
  shows "fwd_wf (map (\<lambda>(e, v). (e, set_interface_state name st v)) t)"
proof -
  have "map fst (map (\<lambda>(e, v). (e, set_interface_state name st v)) t) = map fst t"
    by (induction t) auto
  moreover have "entry_wf (e, set_interface_state name st v) = entry_wf (e, v)" for e v
    by (auto simp: entry_wf_def Interface_set_interface_state)
  ultimately show ?thesis
    using assms by (auto simp only: fwd_wf_def) auto
qed

end
