(* ===== verification/Sample.thy ===== *)
theory Sample
  imports Network
begin

text \<open>
  A small network the witnesses run on: hosts \<open>h1\<close> (10.0.0.1) and \<open>h2\<close> (10.1.0.2) with the
  router \<open>r1\<close> (10.0.0.2 and 10.1.0.1) between them, as in the repository's
  \<open>linear-r1h2\<close> topology, each built by the stack's own constructor.
\<close>

definition sample_ip :: "u32 \<Rightarrow> u32 \<Rightarrow> Addr" where
  "sample_ip net host = 0x0A000000 + push_bit 16 net + host"

definition sample_prefix :: "u32 \<Rightarrow> Prefix" where
  "sample_prefix net = \<lparr>PAddr = sample_ip net 0, Bits = 24\<rparr>"

definition sample_if :: "string \<Rightarrow> u32 \<Rightarrow> u32 \<Rightarrow> u16 \<Rightarrow> (Addr \<times> AddrPort) list \<Rightarrow> IPInterface" where
  "sample_if name net host port neighbors =
     \<lparr>AssignedIP = sample_ip net host, AssignedPrefix = sample_prefix net,
      UDPPort = AddrPort 0x7F000001 port, INeighbors = neighbors, InterfaceName = name,
      IState = INTERFACEUP, Conn = UDPConn (AddrPort 0x7F000001 port)\<rparr>"

definition h1_if0 :: IPInterface where
  "h1_if0 = sample_if ''if0'' 0 1 5000 [(sample_ip 0 2, AddrPort 0x7F000001 5001)]"

definition r1_if0 :: IPInterface where
  "r1_if0 = sample_if ''if0'' 0 2 5001 [(sample_ip 0 1, AddrPort 0x7F000001 5000)]"

definition r1_if1 :: IPInterface where
  "r1_if1 = sample_if ''if1'' 1 1 5002 [(sample_ip 1 2, AddrPort 0x7F000001 5003)]"

definition h2_if0 :: IPInterface where
  "h2_if0 = sample_if ''if0'' 1 2 5003 [(sample_ip 1 1, AddrPort 0x7F000001 5002)]"

text \<open>Protocol 0 is the test protocol; its handler is the unit value here.\<close>

definition sample_node :: "IPInterface list \<Rightarrow> (Prefix \<times> Addr) list \<Rightarrow> unit NetworkLayer" where
  "sample_node ifs srs = RegisterHandlers (InitNetworkLayer 0 (\<lambda>m. m) ifs srs) 0 ()"

definition h1 :: "unit NetworkLayer" where
  "h1 = sample_node [h1_if0] [(\<lparr>PAddr = 0, Bits = 0\<rparr>, sample_ip 0 2)]"

definition r1 :: "unit NetworkLayer" where
  "r1 = sample_node [r1_if0, r1_if1] []"

definition h2 :: "unit NetworkLayer" where
  "h2 = sample_node [h2_if0] [(\<lparr>PAddr = 0, Bits = 0\<rparr>, sample_ip 1 1)]"

end
