(* ===== verification/Forwarding.thy ===== *)
theory Forwarding
  imports Sample
begin

text \<open>
  What the receive and send paths of the network layer guarantee together: a packet that was
  sent is delivered, a forwarded packet keeps its payload and loses one hop, no packet travels
  further than its time to live, interfaces that are down carry nothing, and when the choice of
  a route does not depend on the order in which the table is visited.
\<close>

named_theorems path_simps
  \<comment> \<open>equations that run a handler once its branches are known\<close>

section \<open>Taking the paths apart\<close>

lemma forward_packet_ToUDP:
  assumes "forward_packet P rng n ph msg = Inr (ToUDP i a bytes)"
  obtains hop h' hb where
    "resolve_route rng n ''no next hop found'' ''could not find interface based on next hop''
       (Dst ph) = Inr (i, hop)"
    "getRemoteAddrByNeighborIP hop i = Some a" "1 < TTL ph"
    "finish_header P (ph\<lparr>TTL := TTL ph - 1\<rparr>) = Inr (h', hb)" "bytes = hb @ msg"
  using assms
  by (auto simp: forward_packet_def Let_def split: sum.splits prod.splits option.splits if_splits)

lemma forward_packet_not_local:
  "forward_packet P rng n ph msg \<noteq> Inr (ToHandler hf bs h)"
  "forward_packet P rng n ph msg \<noteq> Inr (ToChannel bs)"
  by (auto simp: forward_packet_def Let_def split: sum.splits prod.splits option.splits if_splits)

lemma deliver_local_cases:
  "deliver_local n i ph msg = Inr out \<Longrightarrow> out = Discarded \<or> (\<exists>hf. out = ToHandler hf msg ph)"
  by (auto simp: deliver_local_def split: option.splits if_splits)

definition accepted :: "net_pkgs \<Rightarrow> u8 list \<Rightarrow> IPv4Header \<Rightarrow> u8 list \<Rightarrow> bool" where
  "accepted P buffer ph msg \<longleftrightarrow>
     ParseHeader P buffer = Inr ph \<and>
     (\<exists>hb. go_slice buffer 0 (HLen ph) = Inr hb \<and>
        ValidateChecksum P hb (word_of_int (IChecksum ph)) = word_of_int (IChecksum ph)) \<and>
     go_slice buffer (HLen ph) (TotalLen ph) = Inr msg"

lemma HandlePacket_accepted [path_simps]:
  "accepted P buffer ph msg \<Longrightarrow>
     HandlePacket P rng n buffer =
       (case checkIfLocalIP (rng 0) n (Dst ph) of
          (i, True) \<Rightarrow> deliver_local n i ph msg
        | (i, False) \<Rightarrow> forward_packet P rng n ph msg)"
  by (auto simp: HandlePacket_def accepted_def Let_def)

lemma HandlePacket_Inr:
  assumes "HandlePacket P rng n buffer = Inr out"
  obtains ph msg where "accepted P buffer ph msg"
  using assms
  by (auto simp: HandlePacket_def accepted_def Let_def split: sum.splits if_splits)

lemma HandlePacket_ToUDP:
  assumes "HandlePacket P rng n buffer = Inr (ToUDP i a bytes)"
  obtains ph msg where "accepted P buffer ph msg"
    "forward_packet P rng n ph msg = Inr (ToUDP i a bytes)"
proof -
  obtain ph msg where acc: "accepted P buffer ph msg"
    using assms by (rule HandlePacket_Inr)
  have "forward_packet P rng n ph msg = Inr (ToUDP i a bytes)"
    using assms deliver_local_cases [of n _ ph msg]
    by (fastforce simp: HandlePacket_accepted [OF acc] split: prod.splits bool.splits)
  with acc show ?thesis by (rule that)
qed

text \<open>
  Bytes that start with a finished header are accepted exactly when the checksum stored in it is
  not 0.
\<close>

lemma finished_header_accepted:
  assumes P: "net_pkgs_ok P" and h: "hdr_ok h" and len: "TotalLen h = 20 + int (length msg)"
    and fin: "finish_header P h = Inr (h', hb)"
  shows "\<exists>c :: u16. h' = h\<lparr>IChecksum := uint c\<rparr> \<and> length hb = 20 \<and>
    ParseHeader P (hb @ rest) = Inr h' \<and>
    (accepted P (hb @ msg @ pad) h' msg \<longleftrightarrow> c \<noteq> 0) \<and>
    (c = 0 \<longrightarrow> (\<forall>rng (n :: 'h NetworkLayer).
       HandlePacket P rng n (hb @ msg @ pad) = Inl (Error ''invalid checksum'')))"
proof -
  obtain bs c where fh: "finish_header P h = Inr (h\<lparr>IChecksum := uint c\<rparr>, bs)"
    and l: "length bs = 20"
    and pr: "\<And>rest. ParseHeader P (bs @ rest) = Inr (h\<lparr>IChecksum := uint c\<rparr>)"
    and v: "ValidateChecksum P bs c = c \<longleftrightarrow> c \<noteq> 0"
    using finish_header_cases [OF P h] by metis
  from fh fin have eq: "h' = h\<lparr>IChecksum := uint c\<rparr>" "hb = bs" by simp_all
  have s1: "go_slice (bs @ msg @ pad) 0 20 = Inr bs"
    using go_slice_prefix [of bs "msg @ pad"] l by simp
  have s2: "go_slice (bs @ msg @ pad) 20 (20 + int (length msg)) = Inr msg"
    using go_slice_middle [of bs msg pad] l by simp
  have hl: "HLen h = 20" using h by (simp add: hdr_ok_def)
  show ?thesis
  proof (cases "c = 0")
    case True
    with v have "ValidateChecksum P bs 0 \<noteq> 0" by simp
    with True show ?thesis
      by (intro exI [of _ c])
        (simp add: eq l pr s1 s2 hl len accepted_def HandlePacket_def Let_def)
  next
    case False
    with v show ?thesis
      by (intro exI [of _ c]) (simp add: eq l pr s1 s2 hl len accepted_def)
  qed
qed

lemma finished_header_padding:
  assumes P: "net_pkgs_ok P" and h: "hdr_ok h" and len: "TotalLen h = 20 + int (length msg)"
    and fin: "finish_header P h = Inr (h', hb)"
  shows "HandlePacket P rng n (hb @ msg @ pad) = HandlePacket P rng n (hb @ msg)"
proof -
  obtain c :: u16 where c: "h' = h\<lparr>IChecksum := uint c\<rparr>" "length hb = 20"
    "accepted P (hb @ msg @ pad) h' msg \<longleftrightarrow> c \<noteq> 0"
    "c = 0 \<longrightarrow> HandlePacket P rng n (hb @ msg @ pad) = Inl (Error ''invalid checksum'')"
    using finished_header_accepted [OF P h len fin, of pad pad] by blast
  obtain c' :: u16 where c': "h' = h\<lparr>IChecksum := uint c'\<rparr>"
    "accepted P (hb @ msg @ []) h' msg \<longleftrightarrow> c' \<noteq> 0"
    "c' = 0 \<longrightarrow> HandlePacket P rng n (hb @ msg @ []) = Inl (Error ''invalid checksum'')"
    using finished_header_accepted [OF P h len fin, of pad "[]"] by blast
  have "uint c = uint c'" using c(1) c'(1) by (metis IPv4Header.select_convs(10) IPv4Header.surjective IPv4Header.update_convs(10))
  then have "c' = c" by (simp add: word_uint_eq_iff)
  with c c' show ?thesis by (cases "c = 0") (simp_all add: HandlePacket_accepted)
qed

section \<open>Sending\<close>

fun sent_bytes :: "'h net_out \<Rightarrow> u8 list option" where
  "sent_bytes (ToUDP i a bytes) = Some bytes"
| "sent_bytes (ToChannel bytes) = Some bytes"
| "sent_bytes _ = None"

definition sent_header :: "Addr \<Rightarrow> Addr \<Rightarrow> u8 \<Rightarrow> u8 list \<Rightarrow> IPv4Header" where
  "sent_header src destIP protocol msg =
     \<lparr>Version = 4, HLen = 20, TOS = 0, TotalLen = 20 + int (length msg), ID = 0, IFlags = 0,
      FragOff = 0, TTL = MaxHops, Protocol = uint protocol, IChecksum = 0, Src = src,
      Dst = destIP, Options = []\<rparr>"

lemma uint_u8_range: "0 \<le> uint (w :: u8) \<and> uint w < 256"
  using uint_lt2p [of w] by simp

lemma hdr_ok_sent_header: "length msg < 65516 \<Longrightarrow> hdr_ok (sent_header src destIP protocol msg)"
  using uint_u8_range [of protocol] by (simp add: hdr_ok_def sent_header_def MaxHops_def)

lemma SendPacketToDestIP_Inr:
  assumes "SendPacketToDestIP P rng n destIP protocol msg = Inr out"
  shows "\<exists>b i hop h' hb. send_route rng n destIP = Inr (b, i, hop) \<and>
    finish_header P (sent_header (AssignedIP i) destIP protocol msg) = Inr (h', hb) \<and>
    sent_bytes out = Some (hb @ msg)"
proof -
  obtain b i hop where sr: "send_route rng n destIP = Inr (b, i, hop)"
    using assms by (cases "send_route rng n destIP") (auto simp: SendPacketToDestIP_def)
  obtain h' hb where fin:
    "finish_header P (sent_header (AssignedIP i) destIP protocol msg) = Inr (h', hb)"
    using assms by (cases "finish_header P (sent_header (AssignedIP i) destIP protocol msg)")
      (auto simp: SendPacketToDestIP_def sr sent_header_def)
  have "sent_bytes out = Some (hb @ msg)"
    using assms fin
    by (auto simp: SendPacketToDestIP_def sr sent_header_def split: if_splits option.splits)
  with sr fin show ?thesis by blast
qed

text \<open>A node takes a packet for itself when an entry for its own address is up.\<close>

definition is_destination :: "'h NetworkLayer \<Rightarrow> Addr \<Rightarrow> bool" where
  "is_destination n ip \<longleftrightarrow>
     (\<exists>x \<in> set (FwdTable n). local_match ip x) \<and>
     (\<forall>x \<in> set (FwdTable n). local_match ip x \<longrightarrow>
        (case Interface (snd x) of None \<Rightarrow> False | Some i \<Rightarrow> IState i = INTERFACEUP))"

lemma checkIfLocalIP_destination:
  assumes "range_ok rng" "is_destination n ip"
  obtains i where "checkIfLocalIP (rng k) n ip = (Some i, True)" "IState i = INTERFACEUP"
proof -
  let ?t = "rng k (FwdTable n)"
  have "find (local_match ip) ?t \<noteq> None"
    using assms by (auto simp: find_None_iff is_destination_def range_simps)
  then obtain x where x: "find (local_match ip) ?t = Some x" by blast
  then have "x \<in> set (FwdTable n)" "local_match ip x"
    using find_eq_Some_in_set [OF x] assms(1) by (simp_all add: range_simps)
  with assms(2) obtain i where "Interface (snd x) = Some i" "IState i = INTERFACEUP"
    by (auto simp: is_destination_def split: option.splits)
  with x show ?thesis
    by (intro that [of i]) (simp_all add: checkIfLocalIP_def checkIfLocalIP_find)
qed

lemma deliver_destination:
  assumes "range_ok rng" "is_destination n (Dst ph)" "accepted P buffer ph msg"
    and "map_of (Handlers n) (word_of_int (Protocol ph)) = Some hf"
  shows "HandlePacket P rng n buffer = Inr (ToHandler hf msg ph)"
proof -
  obtain i where "checkIfLocalIP (rng 0) n (Dst ph) = (Some i, True)" "IState i = INTERFACEUP"
    using assms(1,2) by (rule checkIfLocalIP_destination)
  with assms(3,4) show ?thesis
    by (simp add: path_simps deliver_local_def INTERFACEUP_def INTERFACEDOWN_def)
qed

section \<open>Runs of the sample network\<close>

definition sample_packet :: "u8 list" where
  "sample_packet = [69, 0, 0, 22, 0, 0, 0, 0, 16, 0, 150, 229, 10, 0, 0, 1, 10, 1, 0, 2, 72, 105]"

definition sample_forwarded :: "u8 list" where
  "sample_forwarded = [69, 0, 0, 22, 0, 0, 0, 0, 15, 0, 151, 229, 10, 0, 0, 1, 10, 1, 0, 2, 72, 105]"

definition sample_header :: IPv4Header where
  "sample_header = (sent_header (sample_ip 0 1) (sample_ip 1 2) 0 [72, 105])\<lparr>IChecksum := 38629\<rparr>"

lemma h1_sends:
  "SendPacketToDestIP wire_pkgs (\<lambda>i m. m) h1 (sample_ip 1 2) 0 [72, 105] =
     Inr (ToUDP h1_if0 (AddrPort 0x7F000001 5001) sample_packet)"
  by code_simp

lemma sample_parse: "ParseHeader wire_pkgs sample_packet = Inr sample_header"
  by code_simp

lemma sample_header_ok: "hdr_ok sample_header"
  by code_simp

lemma r1_forwards:
  "HandlePacket wire_pkgs (\<lambda>i m. rev m) r1 sample_packet =
     Inr (ToUDP r1_if1 (AddrPort 0x7F000001 5003) sample_forwarded)"
  by code_simp

lemma h2_is_destination: "is_destination h2 (sample_ip 1 2)"
  by code_simp

section \<open>Delivery\<close>

text \<open>A packet as a node of this stack writes it: a finished header, then the data.\<close>

definition on_wire :: "net_pkgs \<Rightarrow> IPv4Header \<Rightarrow> u8 list \<Rightarrow> u8 list \<Rightarrow> bool" where
  "on_wire P h msg bytes \<longleftrightarrow> hdr_ok h \<and> TotalLen h = 20 + int (length msg) \<and>
     (\<exists>h' hb. finish_header P h = Inr (h', hb) \<and> bytes = hb @ msg)"

lemma sent_on_wire:
  assumes "length msg < 65516" and "SendPacketToDestIP P rng n destIP protocol msg = Inr out"
    and "sent_bytes out = Some bytes"
  shows "\<exists>b i hop. send_route rng n destIP = Inr (b, i, hop) \<and>
    on_wire P (sent_header (AssignedIP i) destIP protocol msg) msg bytes"
proof -
  obtain b i hop h' hb where sr: "send_route rng n destIP = Inr (b, i, hop)"
    and fin: "finish_header P (sent_header (AssignedIP i) destIP protocol msg) = Inr (h', hb)"
    and "sent_bytes out = Some (hb @ msg)"
    using SendPacketToDestIP_Inr [OF assms(2)] by (elim exE conjE) (rule that)
  moreover have "TotalLen (sent_header (AssignedIP i) destIP protocol msg) = 20 + int (length msg)"
    by (simp add: sent_header_def)
  ultimately show ?thesis
    using assms(1,3) hdr_ok_sent_header by (auto simp: on_wire_def)
qed

lemma on_wire_parsed:
  assumes "net_pkgs_ok P" "on_wire P h msg bytes"
  shows "\<exists>c :: u16. length bytes = 20 + length msg \<and>
    (\<forall>pad. ParseHeader P (bytes @ pad) = Inr (h\<lparr>IChecksum := uint c\<rparr>)) \<and>
    (\<forall>pad. accepted P (bytes @ pad) (h\<lparr>IChecksum := uint c\<rparr>) msg \<longleftrightarrow> c \<noteq> 0) \<and>
    (c = 0 \<longrightarrow> (\<forall>rng (n :: 'h NetworkLayer) pad.
       HandlePacket P rng n (bytes @ pad) = Inl (Error ''invalid checksum'')))"
proof -
  obtain h' hb where w: "hdr_ok h" "TotalLen h = 20 + int (length msg)"
      "finish_header P h = Inr (h', hb)" "bytes = hb @ msg"
    using assms(2) by (auto simp: on_wire_def)
  obtain c :: u16 where c: "h' = h\<lparr>IChecksum := uint c\<rparr>" "length hb = 20"
    using finished_header_accepted [OF assms(1) w(1-3)] by blast
  have pad: "ParseHeader P (bytes @ pad) = Inr h' \<and> (accepted P (bytes @ pad) h' msg \<longleftrightarrow> c \<noteq> 0) \<and>
    (c = 0 \<longrightarrow> (\<forall>rng (n :: 'h NetworkLayer). HandlePacket P rng n (bytes @ pad) =
       Inl (Error ''invalid checksum'')))" for pad
  proof -
    obtain c' :: u16 where c': "h' = h\<lparr>IChecksum := uint c'\<rparr>" "ParseHeader P (hb @ msg @ pad) = Inr h'"
      "accepted P (hb @ msg @ pad) h' msg \<longleftrightarrow> c' \<noteq> 0"
      "c' = 0 \<longrightarrow> (\<forall>rng (n :: 'h NetworkLayer). HandlePacket P rng n (hb @ msg @ pad) =
         Inl (Error ''invalid checksum''))"
      using finished_header_accepted [OF assms(1) w(1-3)] by blast
    have "uint c' = uint c" using c(1) c'(1) arg_cong [where f = IChecksum] by fastforce
    then have "c' = c" by (simp add: word_uint_eq_iff)
    with c' show ?thesis by (simp add: w(4))
  qed
  show ?thesis
    by (intro exI [of _ c]) (use pad c in \<open>simp add: w(4)\<close>)
qed

lemma on_wire_received:
  assumes "net_pkgs_ok P" "range_ok rng" "on_wire P h msg bytes"
    and "is_destination b (Dst h)" "map_of (Handlers b) (word_of_int (Protocol h)) = Some hf"
  shows "\<exists>c :: u16. length bytes = 20 + length msg \<and>
    ParseHeader P bytes = Inr (h\<lparr>IChecksum := uint c\<rparr>) \<and>
    ParseHeader P (bytes @ pad) = Inr (h\<lparr>IChecksum := uint c\<rparr>) \<and>
    HandlePacket P rng b (bytes @ pad) =
      (if c = 0 then Inl (Error ''invalid checksum'')
       else Inr (ToHandler hf msg (h\<lparr>IChecksum := uint c\<rparr>)))"
proof -
  obtain c :: u16 where c: "length bytes = 20 + length msg"
      "\<forall>pad. ParseHeader P (bytes @ pad) = Inr (h\<lparr>IChecksum := uint c\<rparr>)"
      "\<forall>pad. accepted P (bytes @ pad) (h\<lparr>IChecksum := uint c\<rparr>) msg \<longleftrightarrow> c \<noteq> 0"
      "c = 0 \<longrightarrow> (\<forall>rng (n :: 'a NetworkLayer) pad.
         HandlePacket P rng n (bytes @ pad) = Inl (Error ''invalid checksum''))"
    using on_wire_parsed [where ?'h = 'a, OF assms(1,3)] by blast
  have "HandlePacket P rng b (bytes @ pad) = Inr (ToHandler hf msg (h\<lparr>IChecksum := uint c\<rparr>))" if "c \<noteq> 0"
    using that c(3) assms(2,4,5) by (intro deliver_destination) simp_all
  moreover have "ParseHeader P bytes = Inr (h\<lparr>IChecksum := uint c\<rparr>)" using c(2) [rule_format, of "[]"] by simp
  ultimately show ?thesis using c(1,2,4) by (cases "c = 0") (auto intro!: exI [of _ c])
qed

lemma sent_bytes_length:
  assumes "net_pkgs_ok P" and "length msg < 65516"
    and "SendPacketToDestIP P rng n destIP protocol msg = Inr out" and "sent_bytes out = Some bytes"
  shows "length bytes = 20 + length msg"
proof -
  obtain b i hop h' hb where "send_route rng n destIP = Inr (b, i, hop)"
    and fin: "finish_header P (sent_header (AssignedIP i) destIP protocol msg) = Inr (h', hb)"
    and "sent_bytes out = Some (hb @ msg)"
    using SendPacketToDestIP_Inr [OF assms(3)] by (elim exE conjE) (rule that)
  moreover have "hdr_ok (sent_header (AssignedIP i) destIP protocol msg)"
    using assms(2) by (simp add: hdr_ok_sent_header)
  ultimately show ?thesis
    using finish_header_cases [OF assms(1)] assms(4) by (metis Inr_inject length_append option.inject prod.inject)
qed

section \<open>Forwarding\<close>

lemma accepted_hdr_ok:
  "accepted P buffer ph msg \<Longrightarrow> hdr_ok ph \<Longrightarrow>
     go_slice buffer 20 (TotalLen ph) = Inr msg \<and> TotalLen ph = 20 + int (length msg)"
  by (auto simp: accepted_def hdr_ok_def dest: go_slice_Inr_length)

lemma forward_step:
  assumes P: "net_pkgs_ok P" and ph: "ParseHeader P buffer = Inr ph" "hdr_ok ph"
    and out: "HandlePacket P rng n buffer = Inr (ToUDP i a bytes)"
  shows "1 < TTL ph \<and> hdr_ok (ph\<lparr>TTL := TTL ph - 1\<rparr>) \<and>
    go_slice buffer 20 (TotalLen ph) = Inr (drop 20 bytes) \<and>
    int (length bytes) = TotalLen ph \<and>
    (\<exists>c :: u16. ParseHeader P (bytes @ pad) = Inr (ph\<lparr>TTL := TTL ph - 1, IChecksum := uint c\<rparr>))"
proof -
  obtain msg where acc: "accepted P buffer ph msg"
    and fwd: "forward_packet P rng n ph msg = Inr (ToUDP i a bytes)"
    using HandlePacket_ToUDP [OF out] ph(1) by (metis accepted_def sum.inject(2))
  obtain h' hb where ttl: "1 < TTL ph"
    and fin: "finish_header P (ph\<lparr>TTL := TTL ph - 1\<rparr>) = Inr (h', hb)" and bytes: "bytes = hb @ msg"
    using fwd by (rule forward_packet_ToUDP)
  have ok: "hdr_ok (ph\<lparr>TTL := TTL ph - 1\<rparr>)"
    using ph(2) ttl by (simp add: hdr_ok_def)
  note len = accepted_hdr_ok [OF acc ph(2), THEN conjunct1] accepted_hdr_ok [OF acc ph(2), THEN conjunct2]
  obtain c :: u16 where "h' = ph\<lparr>TTL := TTL ph - 1, IChecksum := uint c\<rparr>" "length hb = 20"
    "ParseHeader P (hb @ msg @ pad) = Inr h'"
    using finished_header_accepted [OF P ok _ fin, of msg "msg @ pad" pad] len by auto
  with ttl ok len bytes show ?thesis by auto
qed

text \<open>C23: A packet that a node forwards had a time to live above 1; the next node parses the same
  header with the time to live lowered by one and a fresh checksum, and the datagram carries
  exactly the bytes the header announced, the payload unchanged.\<close>

theorem forward_keeps_packet:
  assumes "net_pkgs_ok P" and "ParseHeader P buffer = Inr ph" and "hdr_ok ph"
    and "HandlePacket P rng n buffer = Inr (ToUDP i a bytes)"
  shows "1 < TTL ph \<and> int (length bytes) = TotalLen ph \<and>
    go_slice buffer 20 (TotalLen ph) = Inr (drop 20 bytes) \<and>
    (\<exists>c :: u16. ParseHeader P (bytes @ pad) = Inr (ph\<lparr>TTL := TTL ph - 1, IChecksum := uint c\<rparr>))"
  using forward_step [OF assms] by blast

theorem forward_keeps_packet_witness:
  "\<exists>c :: u16. ParseHeader wire_pkgs (sample_forwarded @ [7]) =
     Inr (sample_header\<lparr>TTL := TTL sample_header - 1, IChecksum := uint c\<rparr>)"
  using forward_keeps_packet [OF wire_pkgs_ok sample_parse sample_header_ok r1_forwards,
      where pad = "[7]"] by blast

text \<open>
  A packet relayed by one node after another: each handles what the one before wrote, in a
  buffer with that node's own padding.
\<close>

fun relay :: "net_pkgs \<Rightarrow> ((nat \<Rightarrow> FwdTable \<Rightarrow> FwdTable) \<times> 'h NetworkLayer \<times> u8 list) list
    \<Rightarrow> u8 list \<Rightarrow> u8 list option" where
  "relay P [] buffer = Some buffer"
| "relay P ((rng, n, pad) # nodes) buffer =
     (case HandlePacket P rng n buffer of
        Inr (ToUDP i a bytes) \<Rightarrow> relay P nodes (bytes @ pad)
      | _ \<Rightarrow> None)"

lemma relay_Cons_Some:
  assumes "relay P ((rng, n, pad) # nodes) buffer = Some buffer'"
  obtains i a bytes where "HandlePacket P rng n buffer = Inr (ToUDP i a bytes)"
    "relay P nodes (bytes @ pad) = Some buffer'"
  using assms by (auto split: sum.splits net_out.splits)

lemma relay_ttl:
  assumes "net_pkgs_ok P"
  shows "ParseHeader P buffer = Inr ph \<Longrightarrow> hdr_ok ph \<Longrightarrow> relay P nodes buffer = Some buffer' \<Longrightarrow>
    nodes \<noteq> [] \<Longrightarrow>
    \<exists>c :: u16. ParseHeader P buffer' =
        Inr (ph\<lparr>TTL := TTL ph - int (length nodes), IChecksum := uint c\<rparr>) \<and>
      int (length nodes) < TTL ph \<and>
      go_slice buffer' 20 (TotalLen ph) = go_slice buffer 20 (TotalLen ph)"
proof (induction nodes arbitrary: buffer ph)
  case (Cons node nodes)
  obtain rng n pad where node: "node = (rng, n, pad)" by (cases node) auto
  obtain i a bytes where out: "HandlePacket P rng n buffer = Inr (ToUDP i a bytes)"
    and rest: "relay P nodes (bytes @ pad) = Some buffer'"
    using Cons.prems(3) unfolding node by (rule relay_Cons_Some)
  obtain c :: u16 where s: "1 < TTL ph" "hdr_ok (ph\<lparr>TTL := TTL ph - 1\<rparr>)"
    "go_slice buffer 20 (TotalLen ph) = Inr (drop 20 bytes)" "int (length bytes) = TotalLen ph"
    "ParseHeader P (bytes @ pad) = Inr (ph\<lparr>TTL := TTL ph - 1, IChecksum := uint c\<rparr>)"
    using forward_step [OF assms Cons.prems(1,2) out, of pad] by blast
  have ok: "hdr_ok (ph\<lparr>TTL := TTL ph - 1, IChecksum := uint c\<rparr>)"
    using hdr_ok_IChecksum [OF s(2)] by simp
  have same: "go_slice (bytes @ pad) 20 (TotalLen ph) = go_slice buffer 20 (TotalLen ph)"
    unfolding s(3) using s(4) go_slice_Inr_length [OF s(3)]
    by (auto simp: go_slice_def)
  show ?case
  proof (cases "nodes = []")
    case True
    with rest s same node show ?thesis by auto
  next
    case False
    then show ?thesis
      using Cons.IH [OF s(5) ok rest] same by (auto simp: node algebra_simps)
  qed
qed simp

text \<open>C15: No routing loop lasts: if \<open>k > 0\<close> nodes, with any tables and in any order, forward a
  packet one after another, then \<open>k\<close> is less than the time to live it arrived with (so at most
  15 times for a packet of this stack), and the payload bytes that come out are the ones that
  went in.\<close>

theorem relay_bounded_by_ttl:
  assumes "net_pkgs_ok P" and "ParseHeader P buffer = Inr ph" and "hdr_ok ph"
    and "relay P nodes buffer = Some buffer'" and "nodes \<noteq> []"
  shows "int (length nodes) < TTL ph \<and>
    go_slice buffer' 20 (TotalLen ph) = go_slice buffer 20 (TotalLen ph)"
  using relay_ttl [OF assms] by blast

theorem relay_bounded_by_ttl_witness:
  "int (length [(\<lambda>i m. rev m, r1, [] :: u8 list)]) < TTL sample_header"
proof -
  have run: "relay wire_pkgs [(\<lambda>i m. rev m, r1, [])] sample_packet = Some sample_forwarded"
    by (simp add: r1_forwards)
  show ?thesis
    using relay_bounded_by_ttl [OF wire_pkgs_ok sample_parse sample_header_ok run] by simp
qed

lemma on_wire_forwarded:
  assumes P: "net_pkgs_ok P" and w: "on_wire P h msg bytes"
    and out: "HandlePacket P rng n (bytes @ pad) = Inr (ToUDP i a bytes')"
  shows "1 < TTL h \<and> (\<exists>c :: u16. on_wire P (h\<lparr>TTL := TTL h - 1, IChecksum := uint c\<rparr>) msg bytes')"
proof -
  obtain ph m where acc: "accepted P (bytes @ pad) ph m"
    and fwd: "forward_packet P rng n ph m = Inr (ToUDP i a bytes')"
    using out by (rule HandlePacket_ToUDP)
  obtain c :: u16 where c: "ParseHeader P (bytes @ pad) = Inr (h\<lparr>IChecksum := uint c\<rparr>)"
      "accepted P (bytes @ pad) (h\<lparr>IChecksum := uint c\<rparr>) msg \<longleftrightarrow> c \<noteq> 0"
      "c = 0 \<longrightarrow> HandlePacket P rng n (bytes @ pad) = Inl (Error ''invalid checksum'')"
    using on_wire_parsed [where ?'h = 'a, OF P w] by blast
  have ph: "ph = h\<lparr>IChecksum := uint c\<rparr>" using acc c(1) by (simp add: accepted_def)
  have m: "m = msg" using acc c(2,3) out by (auto simp: accepted_def ph)
  have ok: "hdr_ok h" "TotalLen h = 20 + int (length msg)" using w by (simp_all add: on_wire_def)
  obtain h' hb where f: "1 < TTL ph" "finish_header P (ph\<lparr>TTL := TTL ph - 1\<rparr>) = Inr (h', hb)"
    "bytes' = hb @ m"
    using fwd by (rule forward_packet_ToUDP)
  then have ttl: "1 < TTL h" by (simp add: ph)
  moreover have "ph\<lparr>TTL := TTL ph - 1\<rparr> = h\<lparr>TTL := TTL h - 1, IChecksum := uint c\<rparr>" by (simp add: ph)
  moreover have "hdr_ok (h\<lparr>TTL := TTL h - 1\<rparr>)" using ok(1) ttl by (simp add: hdr_ok_def)
  then have "hdr_ok (h\<lparr>TTL := TTL h - 1, IChecksum := uint c\<rparr>)" by (rule hdr_ok_IChecksum)
  ultimately show ?thesis using ok(2) f by (auto simp: on_wire_def m)
qed

lemma on_wire_relayed:
  assumes "net_pkgs_ok P"
  shows "on_wire P h msg bytes \<Longrightarrow> relay P nodes (bytes @ pad) = Some buffer \<Longrightarrow>
    \<exists>c bytes' pad'. buffer = bytes' @ pad' \<and>
      on_wire P (h\<lparr>TTL := TTL h - int (length nodes), IChecksum := c\<rparr>) msg bytes'"
proof (induction nodes arbitrary: h bytes pad)
  case Nil
  then show ?case by (intro exI [of _ "IChecksum h"] exI [of _ bytes] exI [of _ pad]) simp
next
  case (Cons node nodes)
  obtain rng n pad1 where node: "node = (rng, n, pad1)" by (cases node) auto
  obtain i a bytes1 where out: "HandlePacket P rng n (bytes @ pad) = Inr (ToUDP i a bytes1)"
    and rest: "relay P nodes (bytes1 @ pad1) = Some buffer"
    using Cons.prems(2) unfolding node by (rule relay_Cons_Some)
  obtain c :: u16 where "on_wire P (h\<lparr>TTL := TTL h - 1, IChecksum := uint c\<rparr>) msg bytes1"
    using on_wire_forwarded [OF assms Cons.prems(1) out] by blast
  from Cons.IH [OF this rest] show ?case by (auto simp: algebra_simps)
qed

text \<open>C6: A packet that \<open>SendPacketToDestIP\<close> puts on the wire arrives. Whatever nodes forward it one
  after another, with whatever padding in their receive buffers, a node that owns the destination
  address on an interface that is up calls the handler registered for the protocol with exactly
  the message that was sent and a header that names the sender's destination, as source the address of
  the interface the sender's route goes out of, and a time to live of 16 less the number of
  nodes that forwarded it; every other field is as the sender set it. The one exception is a header whose checksum field is 0: the receiver's
  validation rejects it.\<close>

theorem sent_packet_delivered:
  assumes "net_pkgs_ok P" and "range_ok rngB" and "length msg < 65516"
    and "SendPacketToDestIP P rngA a destIP protocol msg = Inr out"
    and "sent_bytes out = Some bytes" and "relay P nodes (bytes @ pad) = Some buffer"
    and "is_destination b destIP" and "map_of (Handlers b) protocol = Some hf"
  shows "\<exists>hdr isLocal i hop. send_route rngA a destIP = Inr (isLocal, i, hop) \<and>
    ParseHeader P buffer = Inr hdr \<and> Src hdr = AssignedIP i \<and> Dst hdr = destIP \<and>
    TTL hdr = 16 - int (length nodes) \<and> Protocol hdr = uint protocol \<and>
    hdr = (sent_header (AssignedIP i) destIP protocol msg)\<lparr>TTL := TTL hdr, IChecksum := IChecksum hdr\<rparr> \<and>
    HandlePacket P rngB b buffer =
      (if IChecksum hdr = 0 then Inl (Error ''invalid checksum'')
       else Inr (ToHandler hf msg hdr))"
proof -
  obtain isLocal hop and i :: IPInterface where route: "send_route rngA a destIP = Inr (isLocal, i, hop)"
    and w: "on_wire P (sent_header (AssignedIP i) destIP protocol msg) msg bytes"
    using sent_on_wire [OF assms(3-5)] by (elim exE conjE) (rule that)
  let ?h = "\<lambda>c. (sent_header (AssignedIP i) destIP protocol msg)
    \<lparr>TTL := 16 - int (length nodes), IChecksum := c\<rparr>"
  obtain c bytes' pad' where b': "buffer = bytes' @ pad'" "on_wire P (?h c) msg bytes'"
    using on_wire_relayed [OF assms(1) w assms(6)] by (auto simp: sent_header_def MaxHops_def)
  have h: "Dst (?h c) = destIP" "word_of_int (Protocol (?h c)) = protocol" for c
    by (simp_all add: sent_header_def)
  from on_wire_received [OF assms(1,2) b'(2), unfolded h, OF assms(7,8), of pad']
  obtain c1 :: u16 where r: "ParseHeader P buffer = Inr ((?h c)\<lparr>IChecksum := uint c1\<rparr>)"
    "HandlePacket P rngB b buffer = (if c1 = 0 then Inl (Error ''invalid checksum'')
       else Inr (ToHandler hf msg ((?h c)\<lparr>IChecksum := uint c1\<rparr>)))"
    by (auto simp: b'(1))
  show ?thesis
    by (intro exI [of _ "(?h c)\<lparr>IChecksum := uint c1\<rparr>"] exI [of _ isLocal] exI [of _ i] exI [of _ hop])
      (use route r in \<open>simp add: sent_header_def uint_0_iff\<close>)
qed

text \<open>Across the router of the sample network.\<close>

theorem sent_packet_delivered_witness:
  "\<exists>hdr. HandlePacket wire_pkgs (\<lambda>i m. rev m) h2 (sample_forwarded @ [0, 0, 0]) =
     Inr (ToHandler () [72, 105] hdr) \<and> Src hdr = sample_ip 0 1 \<and> Dst hdr = sample_ip 1 2 \<and> TTL hdr = 15"
proof -
  have "map_of (Handlers h2) 0 = Some ()" by code_simp
  moreover have "relay wire_pkgs [(\<lambda>i m. rev m, r1, [0, 0, 0])] (sample_packet @ []) =
      Some (sample_forwarded @ [0, 0, 0])" by (simp add: r1_forwards)
  moreover have "send_route (\<lambda>i m. m) h1 (sample_ip 1 2) = Inr (False, h1_if0, sample_ip 0 2)"
    "AssignedIP h1_if0 = sample_ip 0 1" by code_simp+
  ultimately obtain hdr where hdr: "ParseHeader wire_pkgs (sample_forwarded @ [0, 0, 0]) = Inr hdr"
    "Src hdr = sample_ip 0 1" "Dst hdr = sample_ip 1 2" "TTL hdr = 15"
    "HandlePacket wire_pkgs (\<lambda>i m. rev m) h2 (sample_forwarded @ [0, 0, 0]) =
      (if IChecksum hdr = 0 then Inl (Error ''invalid checksum'')
       else Inr (ToHandler () [72, 105] hdr))"
    using sent_packet_delivered [where nodes = "[(\<lambda>i m. rev m, r1, [0, 0, 0])]" and pad = "[]",
        OF wire_pkgs_ok range_ok_rev _ h1_sends _ _ h2_is_destination] by fastforce
  have "case ParseHeader wire_pkgs (sample_forwarded @ [0, 0, 0]) of Inl e \<Rightarrow> False
      | Inr h \<Rightarrow> IChecksum h \<noteq> 0" by code_simp
  then show ?thesis using hdr by auto
qed

text \<open>A packet that has no hop left is dropped silently: when a node accepts it, does not own
  its destination, and has a route and a neighbor for it, a time to live of at most 1 makes
  \<open>HandlePacket\<close> return without writing anything.\<close>

theorem expired_packet_discarded:
  assumes "accepted P buffer ph msg" and "checkIfLocalIP (rng 0) n (Dst ph) = (None, False)"
    and "resolve_route rng n ''no next hop found'' ''could not find interface based on next hop''
           (Dst ph) = Inr (i, hop)"
    and "getRemoteAddrByNeighborIP hop i = Some a" and "TTL ph \<le> 1"
  shows "HandlePacket P rng n buffer = Inr Discarded"
  using assms by (simp add: path_simps forward_packet_def)

definition expired_packet :: "u8 list" where
  "expired_packet = [69, 0, 0, 20, 0, 0, 0, 0, 1, 0, 165, 231, 10, 0, 0, 1, 10, 1, 0, 2]"

theorem expired_packet_discarded_witness:
  "HandlePacket wire_pkgs (\<lambda>i m. m) r1 expired_packet = Inr Discarded"
proof -
  define ph where "ph = (sent_header (sample_ip 0 1) (sample_ip 1 2) 0 [])\<lparr>TTL := 1, IChecksum := 42471\<rparr>"
  have "ParseHeader wire_pkgs expired_packet = Inr ph" unfolding ph_def by code_simp
  moreover have "HLen ph = 20" "TotalLen ph = 20" "IChecksum ph = 42471" "TTL ph = 1"
    "Dst ph = sample_ip 1 2" by (simp_all add: ph_def sent_header_def)
  moreover have "go_slice expired_packet 0 20 = Inr expired_packet"
    "go_slice expired_packet 20 20 = Inr []" by code_simp+
  moreover have "ValidateChecksum wire_pkgs expired_packet (word_of_int 42471) = word_of_int 42471"
    by code_simp
  ultimately have acc: "accepted wire_pkgs expired_packet ph []"
    by (simp add: accepted_def)
  have loc: "checkIfLocalIP (\<lambda>m. m) r1 (sample_ip 1 2) = (None, False)"
    and res: "resolve_route (\<lambda>i m. m) r1 ''no next hop found''
      ''could not find interface based on next hop'' (sample_ip 1 2) = Inr (r1_if1, sample_ip 1 2)"
    and nb: "getRemoteAddrByNeighborIP (sample_ip 1 2) r1_if1 = Some (AddrPort 0x7F000001 5003)"
    by code_simp+
  show ?thesis
    by (rule expired_packet_discarded [OF acc]) (use loc res nb in \<open>simp_all add: ph_def sent_header_def\<close>)
qed

section \<open>Checksums that validate, and the one that does not\<close>

definition zero_if :: "u32 \<Rightarrow> u16 \<Rightarrow> (Addr \<times> AddrPort) list \<Rightarrow> IPInterface" where
  "zero_if host port neighbors =
     (sample_if ''if0'' 0 host port neighbors)
       \<lparr>AssignedPrefix := \<lparr>PAddr = sample_ip 0 0, Bits = 16\<rparr>\<rparr>"

definition zero_sender :: "unit NetworkLayer" where
  "zero_sender = sample_node [zero_if 1 5000 [(sample_ip 0 0x96EA, AddrPort 0x7F000001 5009)]] []"

definition zero_receiver :: "unit NetworkLayer" where
  "zero_receiver = sample_node [zero_if 0x96EA 5009 [(sample_ip 0 1, AddrPort 0x7F000001 5000)]] []"

definition zero_packet :: "u8 list" where
  "zero_packet = [69, 0, 0, 20, 0, 0, 0, 0, 16, 0, 0, 0, 10, 0, 0, 1, 10, 0, 150, 234]"

text \<open>The checksum of a header can come out as 0, and then the packet is lost although it
  arrives as sent: on one subnet, host 10.0.0.1 sends an empty test message to 10.0.150.234, the
  header it writes has checksum 0 (the RFC 1071 checksum of that header), and the host that owns
  the address rejects the very bytes as \<open>invalid checksum\<close>.\<close>

theorem zero_checksum_rejected:
  "SendPacketToDestIP wire_pkgs (\<lambda>i m. m) zero_sender (sample_ip 0 0x96EA) 0 [] =
     Inr (ToUDP (zero_if 1 5000 [(sample_ip 0 0x96EA, AddrPort 0x7F000001 5009)])
            (AddrPort 0x7F000001 5009) zero_packet) \<and>
   is_destination zero_receiver (sample_ip 0 0x96EA) \<and>
   HandlePacket wire_pkgs (\<lambda>i m. m) zero_receiver zero_packet = Inl (Error ''invalid checksum'')"
  by (intro conjI; code_simp)

section \<open>Interfaces that are down\<close>

lemma output_resolved:
  assumes "HandlePacket P rng n buffer = Inr (ToUDP i a bytes) \<or>
         SendPacketToDestIP P rng n destIP protocol msg = Inr (ToUDP i a bytes)"
  shows "\<exists>m1 m2 ip hop. resolve_route rng n m1 m2 ip = Inr (i, hop) \<and>
    getRemoteAddrByNeighborIP hop i = Some a"
  using assms
proof
  assume "HandlePacket P rng n buffer = Inr (ToUDP i a bytes)"
  then obtain ph msg' where "forward_packet P rng n ph msg' = Inr (ToUDP i a bytes)"
    by (rule HandlePacket_ToUDP)
  then show ?thesis by (rule forward_packet_ToUDP) blast
next
  assume s: "SendPacketToDestIP P rng n destIP protocol msg = Inr (ToUDP i a bytes)"
  then show ?thesis
    by (auto simp: SendPacketToDestIP_def send_route_def
        split: sum.splits prod.splits option.splits bool.splits if_splits)
qed

text \<open>C33: Whatever the table and the order of its loops, a datagram leaves only through an
  interface that is up, that a local route of the table names and whose prefix contains the next
  hop, and it goes to the address that interface's neighbor table gives for the next hop; this
  holds for received packets and for packets the node sends itself.\<close>

theorem datagrams_leave_on_up_interfaces:
  assumes "range_ok rng" and "fwd_wf (FwdTable n)"
    and "HandlePacket P rng n buffer = Inr (ToUDP i a bytes) \<or>
         SendPacketToDestIP P rng n destIP protocol msg = Inr (ToUDP i a bytes)"
  shows "IState i = INTERFACEUP \<and>
    (\<exists>hop. map_of (INeighbors i) hop = Some a \<and>
      (\<exists>(e, v) \<in> set (FwdTable n). RouteType v = LocalRoute \<and> Interface v = Some i \<and>
         Contains (EAssignedPrefix e) hop))"
proof -
  obtain m1 m2 ip hop where "resolve_route rng n m1 m2 ip = Inr (i, hop)"
    "getRemoteAddrByNeighborIP hop i = Some a"
    using output_resolved [OF assms(3)] by (elim exE conjE) (rule that)
  with resolve_route_up [OF assms(1,2)] show ?thesis
    by (auto simp: getRemoteAddrByNeighborIP_def getRemoteAddr_map_of)
qed

theorem datagrams_leave_on_up_interfaces_witness:
  "IState r1_if1 = INTERFACEUP \<and>
    (\<exists>hop. map_of (INeighbors r1_if1) hop = Some (AddrPort 0x7F000001 5003) \<and>
      (\<exists>(e, v) \<in> set (FwdTable r1). RouteType v = LocalRoute \<and> Interface v = Some r1_if1 \<and>
         Contains (EAssignedPrefix e) hop))"
  by (rule datagrams_leave_on_up_interfaces [OF range_ok_rev _ disjI1 [OF r1_forwards]])
    (simp add: r1_def sample_node_def RegisterHandlers_def fwd_wf_InitNetworkLayer)

section \<open>The size of the receive buffer\<close>

lemma finished_header_long:
  assumes P: "net_pkgs_ok P" and h: "hdr_ok h" and len: "TotalLen h = 20 + int (length msg)"
    and fin: "finish_header P h = Inr (h', hb)" and long: "length tail + 20 < 20 + length msg"
  shows "HandlePacket P rng n (hb @ tail) =
    (if IChecksum h' = 0 then Inl (Error ''invalid checksum'') else Inl (Panic SliceBounds))"
proof -
  obtain bs c where fh: "finish_header P h = Inr (h\<lparr>IChecksum := uint c\<rparr>, bs)"
    and l: "length bs = 20"
    and pr: "\<And>rest. ParseHeader P (bs @ rest) = Inr (h\<lparr>IChecksum := uint c\<rparr>)"
    and v: "ValidateChecksum P bs c = c \<longleftrightarrow> c \<noteq> 0"
    using finish_header_cases [OF P h] by metis
  from fh fin have eq: "h' = h\<lparr>IChecksum := uint c\<rparr>" "hb = bs" by simp_all
  have s1: "go_slice (bs @ tail) 0 20 = Inr bs" using go_slice_prefix [of bs tail] l by simp
  have s2: "go_slice (bs @ tail) 20 (20 + int (length msg)) = Inl (Panic SliceBounds)"
    using l long by (simp add: go_slice_def)
  have hl: "HLen h = 20" using h by (simp add: hdr_ok_def)
  show ?thesis
  proof (cases "c = 0")
    case True
    with v have "ValidateChecksum P bs 0 \<noteq> 0" by simp
    with True show ?thesis by (simp add: eq l pr s1 hl HandlePacket_def Let_def)
  next
    case False
    with v show ?thesis by (simp add: eq l pr s1 s2 hl len HandlePacket_def Let_def uint_0_iff)
  qed
qed

text \<open>C31: A datagram is read into a buffer of 1400 bytes. One that carries at most 1380 bytes of data is
  handled as the sender made it; a longer one, which no sender refuses, has its tail cut off, and
  slicing the buffer at the length in its header panics: the node that receives it goes down,
  before it looks at the destination. Only a longer one whose header checksum is 0 is refused instead.\<close>

theorem receive_buffer_limit:
  assumes "net_pkgs_ok P" and "length msg < 65516"
    and "SendPacketToDestIP P rngA a destIP protocol msg = Inr (ToUDP i addr bytes)"
  shows "HandlePacket P rngB b (ReceivePacket bytes) =
    (if length msg \<le> 1380 then HandlePacket P rngB b bytes
     else if \<exists>hdr. ParseHeader P bytes = Inr hdr \<and> IChecksum hdr = 0
     then Inl (Error ''invalid checksum'') else Inl (Panic SliceBounds))"
proof -
  obtain b' i' hop h' hb where "send_route rngA a destIP = Inr (b', i', hop)"
    and fin: "finish_header P (sent_header (AssignedIP i') destIP protocol msg) = Inr (h', hb)"
    and "sent_bytes (ToUDP i addr bytes :: 'a net_out) = Some (hb @ msg)"
    using SendPacketToDestIP_Inr [OF assms(3)] by (elim exE conjE) (rule that)
  then have bytes: "bytes = hb @ msg" by simp
  let ?h = "sent_header (AssignedIP i') destIP protocol msg"
  have ok: "hdr_ok ?h" "TotalLen ?h = 20 + int (length msg)"
    using assms(2) by (simp_all add: hdr_ok_sent_header) (simp add: sent_header_def)
  obtain c :: u16 where c: "h' = ?h\<lparr>IChecksum := uint c\<rparr>" "length hb = 20"
    "\<And>rest. ParseHeader P (hb @ rest) = Inr h'"
    using finish_header_cases [OF assms(1) ok(1)] fin by (metis Inr_inject prod.inject)
  show ?thesis
  proof (cases "length msg \<le> 1380")
    case True
    then have "ReceivePacket bytes = hb @ msg @ replicate (1380 - length msg) 0"
      using c(2) by (simp add: ReceivePacket_def MaxMessageSize_def bytes)
    then show ?thesis
      using finished_header_padding [OF assms(1) ok fin] True by (simp add: bytes)
  next
    case False
    then have "ReceivePacket bytes = hb @ take 1380 msg"
      using c(2) by (simp add: ReceivePacket_def MaxMessageSize_def bytes)
    then have "HandlePacket P rngB b (ReceivePacket bytes) =
        (if IChecksum h' = 0 then Inl (Error ''invalid checksum'') else Inl (Panic SliceBounds))"
      using finished_header_long [where tail = "take 1380 msg" and rng = rngB and n = b, OF assms(1) ok fin] False
      by simp
    then show ?thesis using False c(3) by (simp add: bytes)
  qed
qed

definition long_message :: "u8 list" where
  "long_message = replicate 1381 0"

definition long_packet :: "u8 list" where
  "long_packet = [69, 0, 5, 121, 0, 0, 0, 0, 16, 0, 145, 130, 10, 0, 0, 1, 10, 1, 0, 2] @ long_message"

lemma h1_sends_long:
  "SendPacketToDestIP wire_pkgs (\<lambda>i m. m) h1 (sample_ip 1 2) 0 long_message =
     Inr (ToUDP h1_if0 (AddrPort 0x7F000001 5001) long_packet)"
  by code_simp

lemma long_packet_parsed:
  "\<exists>hdr. ParseHeader wire_pkgs long_packet = Inr hdr \<and> IChecksum hdr = 37250"
  by (simp add: long_packet_def wire_pkgs_def wire_parse_def Let_def)

theorem receive_buffer_limit_witness:
  "HandlePacket wire_pkgs (\<lambda>i m. rev m) r1 (ReceivePacket long_packet) = Inl (Panic SliceBounds)"
proof -
  have "length long_message < 65516" "\<not> length long_message \<le> 1380"
    by (simp_all add: long_message_def)
  with receive_buffer_limit [OF wire_pkgs_ok _ h1_sends_long, of "\<lambda>i m. rev m" r1] long_packet_parsed
  show ?thesis by auto
qed

end
