(* ===== verification/Routes.thy ===== *)
theory Routes
  imports Forwarding
begin

text \<open>
  The forwarding table as a routing decision: when the choice of a route does not depend on the
  order in which Go visits the table, when it does, and what the constructor puts into the table.
\<close>

section \<open>Order of the range loops\<close>

definition at_most_one :: "('a \<Rightarrow> bool) \<Rightarrow> 'a list \<Rightarrow> bool" where
  "at_most_one Q xs \<longleftrightarrow> (\<forall>x \<in> set xs. \<forall>y \<in> set xs. Q x \<longrightarrow> Q y \<longrightarrow> x = y)"

lemma find_at_most_one:
  assumes "range_ok rng" "range_ok rng'" "at_most_one Q t"
  shows "find Q (rng k t) = find Q (rng' k t)"
  using assms by (intro find_order_irrelevant) (auto simp: range_simps at_most_one_def)

text \<open>
  The table decides where a packet for \<open>ip\<close> goes: at most one entry makes it local, at most one
  interface that is up reaches it directly, and if none does, at most one entry covers it and
  at most one interface reaches that entry's next hop.
\<close>

definition route_determined :: "FwdTable \<Rightarrow> Addr \<Rightarrow> bool" where
  "route_determined t ip \<longleftrightarrow>
     at_most_one (local_match ip) t \<and> at_most_one (up_match ip) t \<and>
     ((\<exists>x \<in> set t. up_match ip x) \<or>
      (at_most_one (covers ip) t \<and>
       (\<forall>x \<in> set t. covers ip x \<longrightarrow>
          (case NextHop (snd x) of None \<Rightarrow> True | Some hop \<Rightarrow> at_most_one (up_match hop) t))))"

lemma getInterfaceByPrefix_order:
  assumes "range_ok rng" "range_ok rng'" "fwd_wf (FwdTable n)"
    "at_most_one (up_match ip) (FwdTable n)"
  shows "getInterfaceByPrefix (rng k) n ip = getInterfaceByPrefix (rng' k) n ip"
proof -
  have "\<forall>x \<in> set (rng k (FwdTable n)). entry_wf x" "\<forall>x \<in> set (rng' k (FwdTable n)). entry_wf x"
    using assms(1-3) by (auto simp: range_simps fwd_wf_def)
  then show ?thesis
    using find_at_most_one [OF assms(1,2,4), of k]
    by (simp add: getInterfaceByPrefix_def getInterfaceByPrefix_find)
qed

lemma getInterfaceByPrefix_exists:
  assumes "range_ok rng" "fwd_wf (FwdTable n)" "\<exists>x \<in> set (FwdTable n). up_match ip x"
  obtains i where "getInterfaceByPrefix (rng k) n ip = Inr (Some i)"
proof -
  let ?t = "rng k (FwdTable n)"
  have wf: "\<forall>x \<in> set ?t. entry_wf x"
    using assms(1,2) by (auto simp: range_simps fwd_wf_def)
  have "find (up_match ip) ?t \<noteq> None"
    using assms(1,3) by (auto simp: find_None_iff range_simps)
  then obtain x where x: "find (up_match ip) ?t = Some x" by blast
  then have "up_match ip x" using find_eq_Some_in_set [OF x] by simp
  then obtain i where "Interface (snd x) = Some i" by (auto simp: up_match_def split: option.splits)
  with x wf show ?thesis
    by (intro that [of i]) (simp add: getInterfaceByPrefix_def getInterfaceByPrefix_find)
qed

lemma getNextHopbyDestIP_order:
  assumes "range_ok rng" "range_ok rng'" "at_most_one (covers ip) (FwdTable n)"
  shows "getNextHopbyDestIP (rng k) n ip = getNextHopbyDestIP (rng' k) n ip"
  using find_at_most_one [OF assms]
  by (simp add: getNextHopbyDestIP_def getNextHopbyDestIP_find)

lemma getNextHopbyDestIP_Some:
  assumes "range_ok rng" "getNextHopbyDestIP (rng k) n ip = Some hop"
  obtains x where "x \<in> set (FwdTable n)" "covers ip x" "NextHop (snd x) = Some hop"
proof -
  obtain x where "find (covers ip) (rng k (FwdTable n)) = Some x" "NextHop (snd x) = Some hop"
    using assms(2) by (auto simp: getNextHopbyDestIP_def getNextHopbyDestIP_find split: option.splits)
  then show ?thesis
    using that find_eq_Some_in_set assms(1) by (metis range_ok_set)
qed

lemma resolve_route_order:
  assumes r: "range_ok rng" "range_ok rng'" and wf: "fwd_wf (FwdTable n)"
    and det: "route_determined (FwdTable n) ip"
  shows "resolve_route rng n m1 m2 ip = resolve_route rng' n m1 m2 ip"
proof -
  have up: "getInterfaceByPrefix (rng 1) n ip = getInterfaceByPrefix (rng' 1) n ip"
    using det by (intro getInterfaceByPrefix_order [OF r wf]) (simp add: route_determined_def)
  show ?thesis
  proof (cases "\<exists>x \<in> set (FwdTable n). up_match ip x")
    case True
    then obtain i where "getInterfaceByPrefix (rng 1) n ip = Inr (Some i)"
      using getInterfaceByPrefix_exists [OF r(1) wf] by blast
    with up show ?thesis by (simp add: resolve_route_def)
  next
    case False
    with det have c: "at_most_one (covers ip) (FwdTable n)"
      and hop: "\<And>x hop. x \<in> set (FwdTable n) \<Longrightarrow> covers ip x \<Longrightarrow> NextHop (snd x) = Some hop \<Longrightarrow>
        at_most_one (up_match hop) (FwdTable n)"
      unfolding route_determined_def by (blast, fastforce split: option.splits)
    have nh: "getNextHopbyDestIP (rng 2) n ip = getNextHopbyDestIP (rng' 2) n ip"
      by (rule getNextHopbyDestIP_order [OF r c])
    have "getInterfaceByPrefix (rng 3) n h = getInterfaceByPrefix (rng' 3) n h"
      if "getNextHopbyDestIP (rng 2) n ip = Some h" for h
      using getNextHopbyDestIP_Some [OF r(1) that] hop getInterfaceByPrefix_order [OF r wf] by metis
    with up nh show ?thesis
      by (auto simp: resolve_route_def split: sum.split option.split)
  qed
qed

lemma checkIfLocalIP_order:
  assumes "range_ok rng" "range_ok rng'" "at_most_one (local_match ip) (FwdTable n)"
  shows "checkIfLocalIP (rng k) n ip = checkIfLocalIP (rng' k) n ip"
  using find_at_most_one [OF assms] by (simp add: checkIfLocalIP_def checkIfLocalIP_find)

text \<open>C27: When the table determines the route of an address, Go's random order of map iteration
  has no influence: for any two orders, \<open>SendPacketToDestIP\<close> does the same for a packet to that
  address, and \<open>HandlePacket\<close> does the same with a received packet for it.\<close>

theorem determined_routes_ignore_order:
  assumes "range_ok rng" and "range_ok rng'" and "fwd_wf (FwdTable n)"
    and "route_determined (FwdTable n) ip"
  shows "SendPacketToDestIP P rng n ip protocol msg = SendPacketToDestIP P rng' n ip protocol msg \<and>
    (\<forall>ph. ParseHeader P buffer = Inr ph \<longrightarrow> Dst ph = ip \<longrightarrow>
       HandlePacket P rng n buffer = HandlePacket P rng' n buffer)"
proof -
  have loc: "checkIfLocalIP (rng 0) n ip = checkIfLocalIP (rng' 0) n ip"
    using assms by (intro checkIfLocalIP_order) (auto simp: route_determined_def)
  note res = resolve_route_order [OF assms]
  have "send_route rng n ip = send_route rng' n ip"
    by (simp only: send_route_def loc res)
  moreover have "HandlePacket P rng n buffer = HandlePacket P rng' n buffer"
    if "ParseHeader P buffer = Inr ph" "Dst ph = ip" for ph
  proof -
    have "forward_packet P rng n ph m = forward_packet P rng' n ph m" for m
      by (simp only: forward_packet_def that(2) res)
    then show ?thesis
      by (simp only: HandlePacket_def that loc sum.case)
  qed
  ultimately show ?thesis by (simp add: SendPacketToDestIP_def)
qed

theorem determined_routes_ignore_order_witness:
  "SendPacketToDestIP wire_pkgs (\<lambda>i m. m) h1 (sample_ip 1 2) 0 [9] =
   SendPacketToDestIP wire_pkgs (\<lambda>i m. rev m) h1 (sample_ip 1 2) 0 [9]"
proof -
  have "fwd_wf (FwdTable h1)"
    by (simp add: h1_def sample_node_def RegisterHandlers_def fwd_wf_InitNetworkLayer)
  moreover have "route_determined (FwdTable h1) (sample_ip 1 2)" by code_simp
  ultimately show ?thesis
    using determined_routes_ignore_order [OF range_ok_id range_ok_rev] by blast
qed

section \<open>When the order decides\<close>

text \<open>The visits of a range loop that show \<open>x\<close> first, and everything else in the order of the table.\<close>

definition visit_first :: "'a \<Rightarrow> 'a list \<Rightarrow> 'a list" where
  "visit_first x t = (if x \<in> set t then x # remove1 x t else t)"

lemma visit_first_mset [simp]: "mset (visit_first x t) = mset t"
  by (simp add: visit_first_def)

lemma find_visit_first: "x \<in> set t \<Longrightarrow> Q x \<Longrightarrow> find Q (visit_first x t) = Some x"
  by (simp add: visit_first_def)

lemma find_not: "\<forall>x \<in> set t. \<not> Q x \<Longrightarrow> find Q t = None"
  by (auto simp: find_None_iff)

text \<open>An address that is neither local nor reached directly is looked up twice, the second time for the hop.\<close>

lemma send_route_indirect:
  assumes "range_ok rng" "fwd_wf (FwdTable n)" "\<forall>x \<in> set (FwdTable n). \<not> local_match ip x \<and> \<not> up_match ip x"
  shows "send_route rng n ip = Inr (isLocal, i, hop) \<longleftrightarrow> \<not> isLocal \<and>
    (\<exists>x. find (covers ip) (rng 2 (FwdTable n)) = Some x \<and> NextHop (snd x) = Some hop) \<and>
    (\<exists>y. find (up_match hop) (rng 3 (FwdTable n)) = Some y \<and> Interface (snd y) = Some i)"
proof -
  have wf: "\<forall>x \<in> set (rng k (FwdTable n)). entry_wf x" for k
    using assms(1,2) by (simp add: range_ok_set fwd_wf_def)
  have "checkIfLocalIP (rng 0) n ip = (None, False)"
    using assms(1,3) by (simp add: checkIfLocalIP_def checkIfLocalIP_find find_not range_ok_set)
  moreover have "getInterfaceByPrefix (rng 1) n ip = Inr None"
    using assms(1,3) by (simp add: getInterfaceByPrefix_def getInterfaceByPrefix_find [OF wf] find_not range_ok_set)
  ultimately show ?thesis
    by (auto simp: send_route_def resolve_route_def getInterfaceByPrefix_def getInterfaceByPrefix_find [OF wf]
        getNextHopbyDestIP_def getNextHopbyDestIP_find split: option.splits)
qed

text \<open>C39: The lookup is not a longest-prefix match and not a function of the table: the order in which the
  run time visits the map decides. For an address that is not local and that no interface which is up
  reaches directly, the routes a packet can be sent on are exactly those of any entry that covers
  the address, of whatever prefix length and cost: some order of the visits takes the route of that entry
  over any up interface whose network holds its next hop, and no order takes any other.\<close>

theorem any_covering_route_may_be_taken:
  assumes "fwd_wf (FwdTable n)" and "\<forall>x \<in> set (FwdTable n). \<not> local_match ip x \<and> \<not> up_match ip x"
  shows "(\<exists>rng. range_ok rng \<and> send_route rng n ip = Inr (isLocal, i, hop)) \<longleftrightarrow>
    \<not> isLocal \<and> (\<exists>x \<in> set (FwdTable n). \<exists>y \<in> set (FwdTable n).
       covers ip x \<and> NextHop (snd x) = Some hop \<and> up_match hop y \<and> Interface (snd y) = Some i)"
    (is "?some_order \<longleftrightarrow> ?some_route")
proof
  assume ?some_order
  then obtain rng x y where "range_ok rng" "\<not> isLocal" "find (covers ip) (rng 2 (FwdTable n)) = Some x"
    "NextHop (snd x) = Some hop" "find (up_match hop) (rng 3 (FwdTable n)) = Some y" "Interface (snd y) = Some i"
    using send_route_indirect [OF _ assms] by blast
  then show ?some_route
    using find_eq_Some_in_set [of "covers ip"] find_eq_Some_in_set [of "up_match hop"] range_ok_set by metis
next
  assume ?some_route
  then obtain x y where x: "\<not> isLocal" "x \<in> set (FwdTable n)" "covers ip x" "NextHop (snd x) = Some hop"
    and y: "y \<in> set (FwdTable n)" "up_match hop y" "Interface (snd y) = Some i" by blast
  let ?rng = "\<lambda>k :: nat. visit_first (if k = 2 then x else y)"
  have ok: "range_ok ?rng" by (simp add: range_ok_def)
  have "send_route ?rng n ip = Inr (isLocal, i, hop)"
    using x y find_visit_first [where Q = "covers ip", OF x(2,3)] find_visit_first [where Q = "up_match hop", OF y(1,2)]
    by (simp add: send_route_indirect [OF ok assms])
  with ok show ?some_order by blast
qed

text \<open>
  A router with two learned routes to 10.9.9.9, a /16 one through one of its interfaces and a more
  specific, cheaper /24 one through the other: it may use either.
\<close>

definition two_routes :: "unit NetworkLayer" where
  "two_routes = r1\<lparr>FwdTable := FwdTable r1 @
     [(CreateFwdTableEntry (sample_ip 9 0) \<lparr>PAddr = sample_ip 9 0, Bits = 16\<rparr>,
       CreateFwdTableValue 5 0 None (Some (sample_ip 0 1)) RIPRoute),
      (CreateFwdTableEntry (sample_ip 9 0x900) \<lparr>PAddr = sample_ip 9 0x900, Bits = 24\<rparr>,
       CreateFwdTableValue 2 0 None (Some (sample_ip 1 2)) RIPRoute)]\<rparr>"

theorem any_covering_route_may_be_taken_witness:
  "(\<exists>rng. range_ok rng \<and> send_route rng two_routes (sample_ip 9 0x909) = Inr (False, r1_if0, sample_ip 0 1)) \<and>
   (\<exists>rng. range_ok rng \<and> send_route rng two_routes (sample_ip 9 0x909) = Inr (False, r1_if1, sample_ip 1 2))"
proof -
  have table: "fwd_wf (FwdTable two_routes)"
    "\<forall>x \<in> set (FwdTable two_routes). \<not> local_match (sample_ip 9 0x909) x \<and> \<not> up_match (sample_ip 9 0x909) x"
    by code_simp+
  have "\<exists>x \<in> set (FwdTable two_routes). \<exists>y \<in> set (FwdTable two_routes). covers (sample_ip 9 0x909) x \<and>
      NextHop (snd x) = Some (sample_ip 0 1) \<and> up_match (sample_ip 0 1) y \<and> Interface (snd y) = Some r1_if0"
    "\<exists>x \<in> set (FwdTable two_routes). \<exists>y \<in> set (FwdTable two_routes). covers (sample_ip 9 0x909) x \<and>
      NextHop (snd x) = Some (sample_ip 1 2) \<and> up_match (sample_ip 1 2) y \<and> Interface (snd y) = Some r1_if1"
    by code_simp+
  then show ?thesis using any_covering_route_may_be_taken [OF table, of False] by blast
qed

section \<open>What the constructor builds\<close>

lemma set_update_cases: "x \<in> set (AList.update k v t) \<Longrightarrow> x = (k, v) \<or> x \<in> set t"
  by (induction t) (auto split: if_splits)

lemma init_local_routes:
  "x \<in> set (foldl (init_local now) t ifs) \<Longrightarrow>
     x \<in> set t \<or> RouteType (snd x) = LocalRoute"
proof (induction ifs arbitrary: t)
  case (Cons i ifs)
  then have "x \<in> set (init_local now t i) \<or> RouteType (snd x) = LocalRoute" by simp
  then show ?case
    by (auto simp: init_local_def CreateFwdTableValue_def dest!: set_update_cases)
qed simp

lemma init_static_routes:
  "x \<in> set (foldl (init_static now shared) t rs) \<Longrightarrow>
     x \<in> set t \<or> RouteType (snd x) = StaticRoute \<and> NextHop (snd x) = shared"
proof (induction rs arbitrary: t)
  case (Cons r rs)
  then have "x \<in> set (init_static now shared t r) \<or>
    RouteType (snd x) = StaticRoute \<and> NextHop (snd x) = shared" by simp
  then show ?case
    by (auto simp: init_static_def CreateFwdTableValue_def dest!: set_update_cases)
qed simp

lemma map_of_init_local_other:
  "k \<notin> (\<lambda>i. CreateFwdTableEntry (AssignedIP i) (AssignedPrefix i)) ` set ifs \<Longrightarrow>
     map_of (foldl (init_local now) t ifs) k = map_of t k"
  by (induction ifs arbitrary: t) (simp_all add: init_local_def update_conv')

lemma map_of_init_local:
  assumes "distinct (map (\<lambda>i. CreateFwdTableEntry (AssignedIP i) (AssignedPrefix i)) ifs)"
    and "i \<in> set ifs"
  shows "map_of (foldl (init_local now) t ifs) (CreateFwdTableEntry (AssignedIP i) (AssignedPrefix i)) =
    Some (CreateFwdTableValue 0 now (Some i) None LocalRoute)"
  using assms
proof (induction ifs arbitrary: t)
  case (Cons j ifs)
  then show ?case
    by (cases "i = j") (auto simp: map_of_init_local_other, simp add: init_local_def update_conv')
qed simp

lemma map_of_init_static_other:
  "k \<notin> (\<lambda>r. CreateFwdTableEntry (snd r) (fst r)) ` set rs \<Longrightarrow>
     map_of (foldl (init_static now shared) t rs) k = map_of t k"
  by (induction rs arbitrary: t) (simp_all add: init_static_def update_conv')

text \<open>C35: The constructor builds a well-formed table in which every interface (of interfaces with
  different address or prefix, none of them also a static route's key) has its local route:
  cost 0, the interface itself, no gateway. Every entry is a local or a static route: the table
  learns its other routes from RIP.\<close>

theorem InitNetworkLayer_table:
  assumes "distinct (map (\<lambda>i. CreateFwdTableEntry (AssignedIP i) (AssignedPrefix i)) ifs)"
    and "i \<in> set ifs"
    and "CreateFwdTableEntry (AssignedIP i) (AssignedPrefix i) \<notin>
           (\<lambda>r. CreateFwdTableEntry (snd r) (fst r)) ` set (ord srs)"
  shows "fwd_wf (FwdTable (InitNetworkLayer now ord ifs srs)) \<and>
    map_of (FwdTable (InitNetworkLayer now ord ifs srs))
      (CreateFwdTableEntry (AssignedIP i) (AssignedPrefix i)) =
      Some \<lparr>Cost = 0, LastUpdatedTime = now, Interface = Some i, NextHop = None,
            RouteType = LocalRoute\<rparr> \<and>
    (\<forall>x \<in> set (FwdTable (InitNetworkLayer now ord ifs srs)).
       RouteType (snd x) = LocalRoute \<or> RouteType (snd x) = StaticRoute)"
proof (intro conjI ballI)
  show "fwd_wf (FwdTable (InitNetworkLayer now ord ifs srs))"
    by (rule fwd_wf_InitNetworkLayer)
  show "map_of (FwdTable (InitNetworkLayer now ord ifs srs))
      (CreateFwdTableEntry (AssignedIP i) (AssignedPrefix i)) =
      Some \<lparr>Cost = 0, LastUpdatedTime = now, Interface = Some i, NextHop = None,
            RouteType = LocalRoute\<rparr>"
    using map_of_init_local [OF assms(1,2), of now "[]"]
    by (simp add: InitNetworkLayer_def Let_def map_of_init_static_other [OF assms(3)]
        CreateFwdTableValue_def)
next
  fix x assume "x \<in> set (FwdTable (InitNetworkLayer now ord ifs srs))"
  then show "RouteType (snd x) = LocalRoute \<or> RouteType (snd x) = StaticRoute"
    by (auto simp: InitNetworkLayer_def Let_def dest!: init_static_routes init_local_routes)
qed

theorem InitNetworkLayer_table_witness:
  "map_of (FwdTable (InitNetworkLayer 7 rev [r1_if0, r1_if1] [(sample_prefix 5, sample_ip 0 1)]))
     (CreateFwdTableEntry (AssignedIP r1_if1) (AssignedPrefix r1_if1)) =
     Some \<lparr>Cost = 0, LastUpdatedTime = 7, Interface = Some r1_if1, NextHop = None,
           RouteType = LocalRoute\<rparr>"
proof -
  have "distinct (map (\<lambda>i. CreateFwdTableEntry (AssignedIP i) (AssignedPrefix i)) [r1_if0, r1_if1])"
    "r1_if1 \<in> set [r1_if0, r1_if1]"
    "CreateFwdTableEntry (AssignedIP r1_if1) (AssignedPrefix r1_if1) \<notin>
       (\<lambda>r. CreateFwdTableEntry (snd r) (fst r)) ` set (rev [(sample_prefix 5, sample_ip 0 1)])"
    by code_simp+
  from InitNetworkLayer_table [where ord = rev, OF this, of 7] show ?thesis by blast
qed

text \<open>All static routes end up with one gateway: whichever gateway the configuration gives
  them, every static route of the constructed table points at the gateway of the route the loop
  happened to visit last, because the loop stores the address of its variable.\<close>

theorem static_routes_share_last_gateway:
  assumes "(e, v) \<in> set (FwdTable (InitNetworkLayer now ord ifs srs))"
    and "RouteType v = StaticRoute"
  shows "NextHop v = Some (snd (last (ord srs)))"
proof -
  have notlocal: "(e, v) \<notin> set (foldl (init_local now) [] ifs)"
    using assms(2) init_local_routes [of "(e, v)" now "[]" ifs] by auto
  then have "ord srs \<noteq> []"
    using assms(1) by (auto simp: InitNetworkLayer_def Let_def)
  then have "(e, v) \<in> set (foldl (init_static now (Some (snd (last (ord srs)))))
      (foldl (init_local now) [] ifs) (ord srs))"
    using assms(1) by (simp add: InitNetworkLayer_def Let_def)
  from init_static_routes [OF this] notlocal show ?thesis by simp
qed

definition two_gateways :: "(Prefix \<times> Addr) list" where
  "two_gateways = [(sample_prefix 5, sample_ip 0 1), (sample_prefix 6, sample_ip 1 2)]"

theorem static_routes_share_last_gateway_witness:
  "NextHop (CreateFwdTableValue 0 0 None (Some (sample_ip 1 2)) StaticRoute) = Some (sample_ip 1 2) \<and>
   (CreateFwdTableEntry (sample_ip 0 1) (sample_prefix 5),
    CreateFwdTableValue 0 0 None (Some (sample_ip 1 2)) StaticRoute)
     \<in> set (FwdTable (InitNetworkLayer 0 (\<lambda>m. m) [r1_if0, r1_if1] two_gateways :: unit NetworkLayer))"
proof -
  have mem: "(CreateFwdTableEntry (sample_ip 0 1) (sample_prefix 5),
      CreateFwdTableValue 0 0 None (Some (sample_ip 1 2)) StaticRoute)
     \<in> set (FwdTable (InitNetworkLayer 0 (\<lambda>m. m) [r1_if0, r1_if1] two_gateways :: unit NetworkLayer))"
    by code_simp
  have ty: "RouteType (CreateFwdTableValue 0 0 None (Some (sample_ip 1 2)) StaticRoute) = StaticRoute"
    and "snd (last two_gateways) = sample_ip 1 2"
    by (simp_all add: CreateFwdTableValue_def two_gateways_def)
  with static_routes_share_last_gateway [OF mem ty] mem show ?thesis by simp
qed

end
