(* ===== verification/Protocol.thy ===== *)
theory Protocol
  imports Routes
begin

text \<open>
  The IP stack (\<open>pkg/protocol/protocol.go\<close>) and the \<open>up\<close>/\<open>down\<close> commands of
  \<open>pkg/cli/cli.go\<close> that act on both of its layers. The network layer keeps copies of the link
  layer's interfaces, so the two must be switched together: \<open>layers_agree\<close> is the invariant.
\<close>

section \<open>The stack\<close>

record 'h IPStack =
  Name :: string
  NetLayer :: "'h NetworkLayer"
  LnkLayer :: LinkLayer

definition Initialize ::
  "(AddrPort \<Rightarrow> UDPConn res) \<Rightarrow> int \<Rightarrow> ((Prefix \<times> Addr) list \<Rightarrow> (Prefix \<times> Addr) list)
     \<Rightarrow> IPConfig \<Rightarrow> 'h IPStack res" where
  "Initialize listen now ord configInfo =
     (case ParseLnxConfigToIpInterfaces listen configInfo of
        Inl e \<Rightarrow> Inl e
      | Inr ipInterfaces \<Rightarrow>
          (let linkLayer = \<lparr>LInterfaces = ipInterfaces\<rparr>;
               networkLayer = InitNetworkLayer now ord ipInterfaces (StaticRoutes configInfo)
           in Inr \<lparr>Name = '''', NetLayer = networkLayer, LnkLayer = linkLayer\<rparr>))"

definition SendIP ::
  "net_pkgs \<Rightarrow> (nat \<Rightarrow> FwdTable \<Rightarrow> FwdTable) \<Rightarrow> 'h IPStack \<Rightarrow> Addr \<Rightarrow> u8 \<Rightarrow> u8 list
     \<Rightarrow> 'h net_out res" where
  "SendIP P rng ipStack dst protocolNum data =
     SendPacketToDestIP P rng (NetLayer ipStack) dst protocolNum data"

definition RegisterRecvHandler :: "'h IPStack \<Rightarrow> u8 \<Rightarrow> 'h \<Rightarrow> 'h IPStack" where
  "RegisterRecvHandler ipStack protocolNum callbackFunc =
     ipStack\<lparr>NetLayer := RegisterHandlers (NetLayer ipStack) protocolNum callbackFunc\<rparr>"

section \<open>The up and down commands\<close>

text \<open>The two calls both commands make, network layer first; a panic ends the program.\<close>

definition switch_interface :: "'h IPStack \<Rightarrow> string \<Rightarrow> InterfaceState \<Rightarrow> 'h IPStack res" where
  "switch_interface ipStack ifname st =
     (case UpdateInterfaceState_net (NetLayer ipStack) ifname st of
        Inl e \<Rightarrow> Inl e
      | Inr n \<Rightarrow> Inr (ipStack\<lparr>NetLayer := n,
                  LnkLayer := UpdateInterfaceState_link (LnkLayer ipStack) ifname st\<rparr>))"

definition HandleDownCommand :: "string list \<Rightarrow> 'h IPStack \<Rightarrow> 'h IPStack res" where
  "HandleDownCommand words ipStack =
     (if length words \<le> 1 then Inl (Panic IndexOutOfRange)
      else switch_interface ipStack (words ! 1) INTERFACEDOWN)"

definition HandleUpCommand :: "string list \<Rightarrow> 'h IPStack \<Rightarrow> 'h IPStack res" where
  "HandleUpCommand words ipStack =
     (if length words \<le> 1 then Inl (Panic IndexOutOfRange)
      else switch_interface ipStack (words ! 1) INTERFACEUP)"

section \<open>Agreement of the layers\<close>

text \<open>
  Every local route is stored under its interface's own address and prefix, and that interface,
  its state included, is one of the link layer's.
\<close>

definition layers_agree :: "'h IPStack \<Rightarrow> bool" where
  "layers_agree s \<longleftrightarrow> fwd_wf (FwdTable (NetLayer s)) \<and>
     (\<forall>(e, v) \<in> set (FwdTable (NetLayer s)). RouteType v = LocalRoute \<longrightarrow>
        (\<exists>i \<in> set (LInterfaces (LnkLayer s)). Interface v = Some i \<and>
           e = CreateFwdTableEntry (AssignedIP i) (AssignedPrefix i)))"

definition set_state :: "string \<Rightarrow> InterfaceState \<Rightarrow> IPInterface \<Rightarrow> IPInterface" where
  "set_state name st i = (if InterfaceName i = name then i\<lparr>IState := st\<rparr> else i)"

lemma set_state_simps [simp]:
  "AssignedIP (set_state name st i) = AssignedIP i"
  "AssignedPrefix (set_state name st i) = AssignedPrefix i"
  "InterfaceName (set_state name st i) = InterfaceName i"
  "IState (set_state name st i) = (if InterfaceName i = name then st else IState i)"
  by (simp_all add: set_state_def)

lemma LInterfaces_update:
  "LInterfaces (UpdateInterfaceState_link l name st) = map (set_state name st) (LInterfaces l)"
  by (auto simp: UpdateInterfaceState_link_def set_state_def)

lemma Interface_update:
  "Interface (set_interface_state name st v) =
     (if RouteType v = LocalRoute then map_option (set_state name st) (Interface v)
      else Interface v)"
  by (simp add: Interface_set_interface_state set_state_def [abs_def])

lemma UpdateInterfaceState_link_twice:
  "UpdateInterfaceState_link (UpdateInterfaceState_link l name st) name' st' =
     l\<lparr>LInterfaces := map (set_state name' st' \<circ> set_state name st) (LInterfaces l)\<rparr>"
  by (rule LinkLayer.equality) (simp_all add: LInterfaces_update)

definition switched :: "string \<Rightarrow> InterfaceState \<Rightarrow> 'h IPStack \<Rightarrow> 'h IPStack" where
  "switched name st s =
     s\<lparr>NetLayer := (NetLayer s)\<lparr>FwdTable :=
          map (\<lambda>(e, v). (e, set_interface_state name st v)) (FwdTable (NetLayer s))\<rparr>,
       LnkLayer := UpdateInterfaceState_link (LnkLayer s) name st\<rparr>"

lemma switch_interface_wf:
  "fwd_wf (FwdTable (NetLayer s)) \<Longrightarrow> switch_interface s name st = Inr (switched name st s)"
  by (simp add: switch_interface_def UpdateInterfaceState_net_wf switched_def)

lemma layers_agree_switched:
  assumes "layers_agree s"
  shows "layers_agree (switched name st s)"
proof -
  have "\<exists>i \<in> set (map (set_state name st) (LInterfaces (LnkLayer s))).
      Interface (set_interface_state name st v) = Some i \<and>
      e = CreateFwdTableEntry (AssignedIP i) (AssignedPrefix i)"
    if ev: "(e, v) \<in> set (FwdTable (NetLayer s))" "RouteType v = LocalRoute" for e v
  proof -
    obtain i where "i \<in> set (LInterfaces (LnkLayer s))" "Interface v = Some i"
      "e = CreateFwdTableEntry (AssignedIP i) (AssignedPrefix i)"
      using assms ev unfolding layers_agree_def by fastforce
    then show ?thesis
      using ev(2) by (intro bexI [of _ "set_state name st i"]) (simp_all add: Interface_update)
  qed
  moreover have "fwd_wf (FwdTable (NetLayer s))" using assms by (simp add: layers_agree_def)
  ultimately show ?thesis
    by (fastforce simp: layers_agree_def switched_def LInterfaces_update fwd_wf_set_interface_state)
qed

lemma init_local_agree:
  "x \<in> set (foldl (init_local now) t ifs) \<Longrightarrow>
     x \<in> set t \<or> (\<exists>i \<in> set ifs. x = (CreateFwdTableEntry (AssignedIP i) (AssignedPrefix i),
       CreateFwdTableValue 0 now (Some i) None LocalRoute))"
proof (induction ifs arbitrary: t)
  case (Cons i ifs)
  then have "x \<in> set (init_local now t i) \<or> (\<exists>j \<in> set ifs.
    x = (CreateFwdTableEntry (AssignedIP j) (AssignedPrefix j),
       CreateFwdTableValue 0 now (Some j) None LocalRoute))" by simp
  then show ?case by (auto simp: init_local_def dest!: set_update_cases)
qed simp

lemma Initialize_agree:
  assumes "Initialize listen now ord c = Inr s"
  shows "layers_agree s"
proof -
  obtain ifs where s: "s = \<lparr>Name = '''', NetLayer = InitNetworkLayer now ord ifs (StaticRoutes c),
      LnkLayer = \<lparr>LInterfaces = ifs\<rparr>\<rparr>"
    using assms by (auto simp: Initialize_def split: sum.splits)
  have "\<exists>i \<in> set ifs. Interface v = Some i \<and>
      e = CreateFwdTableEntry (AssignedIP i) (AssignedPrefix i)"
    if "(e, v) \<in> set (FwdTable (InitNetworkLayer now ord ifs (StaticRoutes c)))"
      and "RouteType v = LocalRoute" for e v
    using that init_static_routes [of "(e, v)" now _ "foldl (init_local now) [] ifs" "ord (StaticRoutes c)"]
      init_local_agree [of "(e, v)" now "[]" ifs]
    by (auto simp: InitNetworkLayer_def Let_def CreateFwdTableValue_def)
  then show ?thesis
    by (auto simp: layers_agree_def s fwd_wf_InitNetworkLayer)
qed

text \<open>A switch command as a step of the stack: a name and the state it asks for.\<close>

definition switch_step :: "'h IPStack \<Rightarrow> string \<times> InterfaceState \<Rightarrow> 'h IPStack" where
  "switch_step s c = (case switch_interface s (fst c) (snd c) of Inl e \<Rightarrow> s | Inr s' \<Rightarrow> s')"

lemma switch_step_eq: "layers_agree s \<Longrightarrow> switch_step s c = switched (fst c) (snd c) s"
  by (simp add: switch_step_def switch_interface_wf layers_agree_def)

interpretation switches: op_machine switch_step layers_agree "\<lambda>_. True"
  by unfold_locales (simp add: switch_step_eq layers_agree_switched)

section \<open>What the commands promise\<close>

text \<open>From the moment a stack is built, any sequence of up and down commands keeps its two
  layers in agreement: the table stays well-formed and each local route's interface, up or down,
  is the link layer's interface of that address and prefix.\<close>

theorem switching_keeps_layers_in_agreement:
  assumes "Initialize listen now ord c = Inr s"
  shows "layers_agree (foldl switch_step s cmds)"
  by (rule switches.run_inv [OF Initialize_agree [OF assms]]) simp

definition r1_config :: IPConfig where
  "r1_config =
     \<lparr>Interfaces =
        [\<lparr>IC_Name = ''if0'', IC_AssignedIP = sample_ip 0 2, IC_AssignedPrefix = sample_prefix 0,
          IC_UDPAddr = AddrPort 0x7F000001 5001\<rparr>,
         \<lparr>IC_Name = ''if1'', IC_AssignedIP = sample_ip 1 1, IC_AssignedPrefix = sample_prefix 1,
          IC_UDPAddr = AddrPort 0x7F000001 5002\<rparr>],
      Neighbors =
        [\<lparr>NC_DestAddr = sample_ip 0 1, NC_UDPAddr = AddrPort 0x7F000001 5000,
          NC_InterfaceName = ''if0''\<rparr>,
         \<lparr>NC_DestAddr = sample_ip 1 2, NC_UDPAddr = AddrPort 0x7F000001 5003,
          NC_InterfaceName = ''if1''\<rparr>],
      OriginatingPrefixes = [], RoutingMode = RoutingTypeRIP, RipNeighbors = [],
      StaticRoutes = []\<rparr>"

definition r1_stack :: "unit IPStack" where
  "r1_stack = \<lparr>Name = '''', NetLayer = InitNetworkLayer 0 (\<lambda>m. m) [r1_if0, r1_if1] [],
     LnkLayer = \<lparr>LInterfaces = [r1_if0, r1_if1]\<rparr>\<rparr>"

lemma Initialize_r1:
  "Initialize (\<lambda>a. Inr (UDPConn a)) 0 (\<lambda>m. m) r1_config = Inr r1_stack"
  by code_simp

theorem switching_keeps_layers_in_agreement_witness:
  "layers_agree (foldl switch_step r1_stack
     [(''if0'', INTERFACEDOWN), (''if1'', INTERFACEDOWN), (''if0'', INTERFACEUP)])"
  by (rule switching_keeps_layers_in_agreement [OF Initialize_r1])

text \<open>C30: After \<open>down ifname\<close> nothing leaves on that interface, whatever the node sends and
  whatever order its lookups visit the table in: a packet that is sent or forwarded goes out on
  an interface of another name.\<close>

theorem down_interface_silent:
  assumes "fwd_wf (FwdTable (NetLayer s))" and "range_ok rng"
    and "HandleDownCommand words s = Inr s'"
    and "HandlePacket P rng (NetLayer s') buffer = Inr (ToUDP i addr bytes) \<or>
         SendIP P rng s' dst proto msg = Inr (ToUDP i addr bytes)"
  shows "InterfaceName i \<noteq> words ! 1"
proof -
  have s': "s' = switched (words ! 1) INTERFACEDOWN s"
    using assms(1,3) by (auto simp: HandleDownCommand_def switch_interface_wf split: if_splits)
  have wf: "fwd_wf (FwdTable (NetLayer s'))"
    using assms(1) by (simp add: s' switched_def fwd_wf_set_interface_state)
  obtain m1 m2 ip hop where "resolve_route rng (NetLayer s') m1 m2 ip = Inr (i, hop)"
    using output_resolved [OF assms(4) [unfolded SendIP_def]] by (elim exE conjE) (rule that)
  then obtain e v where "IState i = INTERFACEUP" and ev: "(e, v) \<in> set (FwdTable (NetLayer s'))"
      "RouteType v = LocalRoute" "Interface v = Some i"
    using resolve_route_up [OF assms(2) wf] by fastforce
  then show ?thesis
    by (auto simp: s' switched_def Interface_update INTERFACEUP_def INTERFACEDOWN_def
        split: if_splits)
qed

definition r1_if0_down :: "unit IPStack" where
  "r1_if0_down = switched ''if0'' INTERFACEDOWN r1_stack"

definition ping :: "u8 list" where "ping = [112, 105, 110, 103]"

lemma r1_sends_ping:
  "SendIP wire_pkgs (\<lambda>i m. m) r1_if0_down (sample_ip 1 2) 0 ping =
     Inr (ToUDP r1_if1 (AddrPort 0x7F000001 5003)
       ([69, 0, 0, 24, 0, 0, 0, 0, 16, 0, 150, 226, 10, 1, 0, 1, 10, 1, 0, 2] @ ping))"
  by code_simp

theorem down_interface_silent_witness:
  "\<exists>bytes. SendIP wire_pkgs (\<lambda>i m. m) r1_if0_down (sample_ip 1 2) 0 ping =
       Inr (ToUDP r1_if1 (AddrPort 0x7F000001 5003) bytes) \<and> InterfaceName r1_if1 \<noteq> ''if0''"
proof -
  have wf: "fwd_wf (FwdTable (NetLayer r1_stack))"
    by (simp add: r1_stack_def fwd_wf_InitNetworkLayer)
  have down: "HandleDownCommand [''down'', ''if0''] r1_stack = Inr r1_if0_down"
    using wf by (simp add: HandleDownCommand_def switch_interface_wf r1_if0_down_def)
  have send: "\<exists>bytes. SendIP wire_pkgs (\<lambda>i m. m) r1_if0_down (sample_ip 1 2) 0 ping =
       Inr (ToUDP r1_if1 (AddrPort 0x7F000001 5003) bytes)"
    by (rule exI, rule r1_sends_ping)
  then show ?thesis
    using down_interface_silent [OF wf range_ok_id down] by fastforce
qed

text \<open>\<open>down\<close> followed by \<open>up\<close> of an interface restores the stack exactly, when the
  interface was up before.\<close>

theorem down_up_restores:
  assumes "layers_agree s"
    and "\<forall>i \<in> set (LInterfaces (LnkLayer s)). InterfaceName i = name \<longrightarrow> IState i = INTERFACEUP"
  shows "\<exists>s'. HandleDownCommand [cmd, name] s = Inr s' \<and> HandleUpCommand [cmd', name] s' = Inr s"
proof -
  let ?s = "switched name INTERFACEDOWN s"
  have undo: "set_state name INTERFACEUP (set_state name INTERFACEDOWN i) = i"
    if "i \<in> set (LInterfaces (LnkLayer s))" for i
    using assms(2) that by (simp add: set_state_def)
  have wf: "fwd_wf (FwdTable (NetLayer s))" "fwd_wf (FwdTable (NetLayer ?s))"
    using assms(1) layers_agree_switched [OF assms(1)] by (simp_all add: layers_agree_def)
  have "set_interface_state name INTERFACEUP (set_interface_state name INTERFACEDOWN v) = v"
    if ev: "(e, v) \<in> set (FwdTable (NetLayer s))" for e v
  proof (cases "RouteType v = LocalRoute")
    case True
    then obtain i where "i \<in> set (LInterfaces (LnkLayer s))" "Interface v = Some i"
      using assms(1) ev unfolding layers_agree_def by fastforce
    then show ?thesis
      using undo [of i] by (intro FwdTableValue.equality) (simp_all add: Interface_update)
  qed (simp add: set_interface_state_def)
  then have "map (\<lambda>x. (fst x, set_interface_state name INTERFACEUP
      (set_interface_state name INTERFACEDOWN (snd x)))) (FwdTable (NetLayer s)) =
      FwdTable (NetLayer s)"
    by (intro map_idI) auto
  moreover have "map (set_state name INTERFACEUP \<circ> set_state name INTERFACEDOWN)
      (LInterfaces (LnkLayer s)) = LInterfaces (LnkLayer s)"
    using undo by (intro map_idI) simp
  ultimately have "switched name INTERFACEUP ?s = s"
    by (simp add: switched_def UpdateInterfaceState_link_twice comp_def split_beta)
  then show ?thesis
    using wf by (simp add: HandleDownCommand_def HandleUpCommand_def switch_interface_wf)
qed

theorem down_up_restores_witness:
  "\<exists>s'. HandleDownCommand [''down'', ''if1''] r1_stack = Inr s' \<and>
     HandleUpCommand [''up'', ''if1''] s' = Inr r1_stack"
proof (rule down_up_restores)
  show "layers_agree r1_stack" by (rule Initialize_agree [OF Initialize_r1])
  show "\<forall>i \<in> set (LInterfaces (LnkLayer r1_stack)).
      InterfaceName i = ''if1'' \<longrightarrow> IState i = INTERFACEUP" by code_simp
qed

end
