(* ===== verification/RipPacket.thy ===== *)
theory RipPacket
  imports Protocol
begin

text \<open>
  The RIP message format of \<open>pkg/rip/rip.go\<close>: \<open>RIPEntry\<close>, \<open>RIPPacket\<close>, \<open>Marshal\<close> and
  \<open>UnmarshalRIPPacket\<close>. The four-byte arrays of an entry are 32-bit words, most significant
  byte first.
\<close>

section \<open>Messages\<close>

definition RequestCommand :: u16 where "RequestCommand = 1"
definition ResponseCommand :: u16 where "ResponseCommand = 2"
definition INFINITY :: u32 where "INFINITY = 16"
definition RIPEntrySize :: int where "RIPEntrySize = 12"
definition RIPPacketHeaderSize :: int where "RIPPacketHeaderSize = 4"
definition MaxNumEntries :: int where "MaxNumEntries = 64"

lemmas rip_constants = RequestCommand_def ResponseCommand_def RIPEntrySize_def
  RIPPacketHeaderSize_def MaxNumEntries_def

record RIPEntry =
  RCost :: u32
  RAddress :: u32
  RMask :: u32

record RIPPacket =
  Command :: u16
  NumEntries :: u16
  Entries :: "RIPEntry list"

section \<open>Marshalling\<close>

text \<open>\<open>binary.Write\<close> of a fixed-size value to a \<open>bytes.Buffer\<close> does not fail.\<close>

definition Marshal_entry :: "RIPEntry \<Rightarrow> u8 list" where
  "Marshal_entry entry =
     put_uint32 (RCost entry) @ put_uint32 (RAddress entry) @ put_uint32 (RMask entry)"

definition Marshal :: "RIPPacket \<Rightarrow> u8 list" where
  "Marshal packet =
     put_uint16 (Command packet) @ put_uint16 (NumEntries packet) @
     concat (map Marshal_entry (Entries packet))"

definition Unmarshal_entry :: "u8 list \<Rightarrow> RIPEntry" where
  "Unmarshal_entry ripEntrySlice =
     \<lparr>RCost = get_uint32 (take 4 ripEntrySlice),
      RAddress = get_uint32 (take 4 (drop 4 ripEntrySlice)),
      RMask = get_uint32 (drop 8 ripEntrySlice)\<rparr>"

fun Unmarshal_loop :: "u8 list \<Rightarrow> nat list \<Rightarrow> RIPEntry list \<Rightarrow> RIPEntry list res" where
  "Unmarshal_loop data [] entries = Inr entries"
| "Unmarshal_loop data (i # is) entries =
     (let ripEntryOffset = RIPPacketHeaderSize + int i * RIPEntrySize
      in case go_slice data ripEntryOffset (ripEntryOffset + RIPEntrySize) of
           Inl e \<Rightarrow> Inl e
         | Inr ripEntrySlice \<Rightarrow>
             Unmarshal_loop data is (entries @ [Unmarshal_entry ripEntrySlice]))"

definition UnmarshalRIPPacket :: "u8 list \<Rightarrow> RIPPacket res" where
  "UnmarshalRIPPacket data =
     (if int (length data) < RIPPacketHeaderSize
      then Inl (Error ''packet size less than header size was'')
      else if (int (length data) - RIPPacketHeaderSize) mod RIPEntrySize \<noteq> 0
      then Inl (Error ''packet size not a valid size'')
      else
        let command = get_uint16 (take 2 data)
        in if command \<noteq> RequestCommand \<and> command \<noteq> ResponseCommand
           then Inl (Error ''packet is not a request or response command'')
           else
             let numEntries = uint (get_uint16 (take 2 (drop 2 data)))
             in if command = RequestCommand \<and> numEntries \<noteq> 0 \<or> numEntries > MaxNumEntries
                then Inl (Error ''invalid packet size'')
                else
                  let packetNumEntries = (int (length data) - RIPPacketHeaderSize) div RIPEntrySize
                  in if packetNumEntries \<noteq> numEntries
                     then Inl (Error ''packet num entries does not match packet size'')
                     else (case Unmarshal_loop data [0..<nat numEntries] [] of
                             Inl e \<Rightarrow> Inl e
                           | Inr entries \<Rightarrow>
                               Inr \<lparr>Command = command, NumEntries = 0, Entries = entries\<rparr>))"

section \<open>Reading back\<close>

lemma length_Marshal_entry [simp, wire_simps]: "length (Marshal_entry e) = 12"
  by (simp add: Marshal_entry_def)

lemma Unmarshal_Marshal_entry [wire_simps]: "Unmarshal_entry (Marshal_entry e) = e"
  by (simp add: Unmarshal_entry_def Marshal_entry_def)

lemma Marshal_Unmarshal_entry [wire_simps]:
  assumes "length bs = 12"
  shows "Marshal_entry (Unmarshal_entry bs) = bs"
proof -
  have "take 4 (drop 4 bs) @ drop 8 bs = drop 4 bs"
    by (metis add.commute append_take_drop_id drop_drop numeral_Bit0)
  then have "take 4 bs @ take 4 (drop 4 bs) @ drop 8 bs = bs"
    by (metis append_take_drop_id)
  then show ?thesis
    using assms by (simp add: Unmarshal_entry_def Marshal_entry_def put_get_uint32)
qed

lemma length_entries [wire_simps]: "length (concat (map Marshal_entry es)) = 12 * length es"
  by (induction es) simp_all

lemma nth_entry_bytes:
  "i < length es \<Longrightarrow> take 12 (drop (12 * i) (concat (map Marshal_entry es))) = Marshal_entry (es ! i)"
proof (induction es arbitrary: i)
  case (Cons e es)
  then show ?case by (cases i) simp_all
qed simp

lemma chunks:
  "length bs = 12 * n \<Longrightarrow> concat (map (\<lambda>i. take 12 (drop (12 * i) bs)) [0..<n]) = bs"
proof (induction n arbitrary: bs)
  case (Suc n)
  have "[0..<Suc n] = 0 # map Suc [0..<n]" by (simp only: upt_conv_Cons map_Suc_upt zero_less_Suc)
  moreover have "concat (map (\<lambda>i. take 12 (drop (12 * i) (drop 12 bs))) [0..<n]) = drop 12 bs"
    using Suc by (intro Suc.IH) simp
  ultimately show ?case by (simp add: comp_def add.commute)
qed simp

lemma Unmarshal_loop_eq:
  assumes "length data = 4 + 12 * n" and "\<forall>i \<in> set is. i < n"
  shows "Unmarshal_loop data is acc =
     Inr (acc @ map (\<lambda>i. Unmarshal_entry (take 12 (drop (12 * i) (drop 4 data)))) is)"
  using assms(2)
proof (induction "is" arbitrary: acc)
  case (Cons i js)
  then have "4 + 12 * i + 12 \<le> length data" using assms(1) by simp
  then have "go_slice data (4 + int i * 12) (4 + int i * 12 + 12) =
      Inr (take 12 (drop (12 * i) (drop 4 data)))"
    by (simp add: go_slice_def nat_add_distrib nat_mult_distrib ac_simps)
  with Cons show ?case by (simp add: rip_constants)
qed simp

section \<open>The format as a codec\<close>

text \<open>
  Senders fill \<open>NumEntries\<close> with the number of entries (\<open>sized\<close>). The receiver's packet value
  has \<open>NumEntries\<close> zero: \<open>UnmarshalRIPPacket\<close> reads the field into a local variable only.
\<close>

definition sized :: "RIPPacket \<Rightarrow> RIPPacket" where
  "sized p = p\<lparr>NumEntries := of_nat (length (Entries p))\<rparr>"

definition rip_valid :: "RIPPacket \<Rightarrow> bool" where
  "rip_valid p \<longleftrightarrow> NumEntries p = 0 \<and>
     (Command p = RequestCommand \<and> Entries p = [] \<or>
      Command p = ResponseCommand \<and> length (Entries p) \<le> 64)"

lemma Marshal_fields [wire_simps]:
  "length (Marshal p) = 4 + 12 * length (Entries p)"
  "get_uint16 (take 2 (Marshal p)) = Command p"
  "get_uint16 (take 2 (drop 2 (Marshal p))) = NumEntries p"
  "drop 4 (Marshal p) = concat (map Marshal_entry (Entries p))"
  by (simp_all add: Marshal_def length_entries)

lemma Unmarshal_Marshal:
  assumes "rip_valid p"
  shows "UnmarshalRIPPacket (Marshal (sized p)) = Inr p"
proof -
  let ?n = "length (Entries p)"
  have n: "?n \<le> 64" using assms by (auto simp: rip_valid_def)
  have u: "uint (of_nat ?n :: u16) = int ?n"
    using n by (simp add: uint_word_of_int_eq unsigned_of_nat take_bit_nat_eq_self)
  have "Unmarshal_loop (Marshal (sized p)) [0..<?n] [] = Inr (map ((!) (Entries p)) [0..<?n])"
    by (subst Unmarshal_loop_eq [where n = ?n])
      (simp_all add: wire_simps sized_def nth_entry_bytes cong: map_cong)
  then have "Unmarshal_loop (Marshal (sized p)) [0..<?n] [] = Inr (Entries p)"
    by (simp add: map_nth)
  moreover have "get_uint16 (take 2 (Marshal (sized p))) = Command p"
    "uint (get_uint16 (take 2 (drop 2 (Marshal (sized p))))) = int ?n"
    "int (length (Marshal (sized p))) = 4 + 12 * int ?n"
    using u by (simp_all add: Marshal_fields sized_def)
  moreover have "p = \<lparr>Command = Command p, NumEntries = 0, Entries = Entries p\<rparr>"
    using assms by (simp add: rip_valid_def)
  ultimately show ?thesis
    using assms n unfolding UnmarshalRIPPacket_def Let_def
    by (auto simp: rip_valid_def rip_constants)
qed

text \<open>The checks in front of the loop: an error, or a size that fits the declared count.\<close>

lemma Unmarshal_cases:
  "(\<exists>msg. UnmarshalRIPPacket data = Inl (Error msg)) \<or>
   (\<exists>n. length data = 4 + 12 * n \<and> n \<le> 64 \<and> of_nat n = get_uint16 (take 2 (drop 2 data)) \<and>
      (get_uint16 (take 2 data) = RequestCommand \<and> n = 0 \<or>
       get_uint16 (take 2 data) = ResponseCommand) \<and>
      UnmarshalRIPPacket data = Inr \<lparr>Command = get_uint16 (take 2 data), NumEntries = 0,
        Entries = map (\<lambda>i. Unmarshal_entry (take 12 (drop (12 * i) (drop 4 data)))) [0..<n]\<rparr>)"
proof (cases "\<exists>msg. UnmarshalRIPPacket data = Inl (Error msg)")
  case False
  define cmd m where "cmd = get_uint16 (take 2 data)"
    and "m = uint (get_uint16 (take 2 (drop 2 data)))"
  note def = UnmarshalRIPPacket_def Let_def cmd_def [symmetric] m_def [symmetric]
  have size1: "\<not> int (length data) < RIPPacketHeaderSize"
    using False by (rule contrapos_nn) (simp add: def)
  have size2: "(int (length data) - RIPPacketHeaderSize) mod RIPEntrySize = 0"
    using False by (rule contrapos_np) (simp add: def size1)
  have cmd1: "\<not> (cmd \<noteq> RequestCommand \<and> cmd \<noteq> ResponseCommand)"
    using False by - (rule notI, simp add: def size1 size2)
  have cmd2: "\<not> (cmd = RequestCommand \<and> m \<noteq> 0 \<or> MaxNumEntries < m)"
    using False cmd1 by - (rule notI, simp add: def size1 size2)
  have size3: "(int (length data) - RIPPacketHeaderSize) div RIPEntrySize = m"
    using False cmd1 cmd2 by - (rule ccontr, simp add: def size1 size2)
  have eq: "UnmarshalRIPPacket data = (case Unmarshal_loop data [0..<nat m] [] of
       Inl e \<Rightarrow> Inl e | Inr es \<Rightarrow> Inr \<lparr>Command = cmd, NumEntries = 0, Entries = es\<rparr>)"
    by (simp only: def size1 size2 size3 cmd1 cmd2 simp_thms if_False if_True)
  have "0 \<le> m" by (simp add: m_def)
  then obtain n where n: "m = int n" using nonneg_int_cases by blast
  have "int (length data) - 4 = 12 * int n"
    using mult_div_mod_eq [of 12 "int (length data) - 4"] size2 size3
    by (simp only: n rip_constants add_0_right)
  then have len: "length data = 4 + 12 * n" by linarith
  have "n \<le> 64" using cmd2 by (simp add: n rip_constants)
  moreover note len
  moreover have "of_nat n = get_uint16 (take 2 (drop 2 data))"
    using n by (metis m_def of_int_of_nat_eq word_of_int_uint)
  moreover have "cmd = RequestCommand \<and> n = 0 \<or> cmd = ResponseCommand"
    using cmd1 cmd2 by (auto simp: n)
  moreover have "UnmarshalRIPPacket data = Inr \<lparr>Command = cmd, NumEntries = 0,
      Entries = map (\<lambda>i. Unmarshal_entry (take 12 (drop (12 * i) (drop 4 data)))) [0..<n]\<rparr>"
    using eq Unmarshal_loop_eq [OF len, of "[0..<n]" "[]"] by (simp add: n)
  ultimately show ?thesis unfolding cmd_def by blast
qed blast

lemma Marshal_Unmarshal:
  assumes "UnmarshalRIPPacket data = Inr p"
  shows "rip_valid p \<and> Marshal (sized p) = data"
proof -
  obtain n where length: "length data = 4 + 12 * n" and "n \<le> 64"
    and of_n: "of_nat n = get_uint16 (take 2 (drop 2 data))"
    and cmd: "get_uint16 (take 2 data) = RequestCommand \<and> n = 0 \<or>
      get_uint16 (take 2 data) = ResponseCommand"
    and p: "Command p = get_uint16 (take 2 data)" "NumEntries p = 0"
    and es: "Entries p = map (\<lambda>i. Unmarshal_entry (take 12 (drop (12 * i) (drop 4 data)))) [0..<n]"
    using Unmarshal_cases [of data] unfolding assms by auto
  have "map Marshal_entry (Entries p) = map (\<lambda>i. take 12 (drop (12 * i) (drop 4 data))) [0..<n]"
    by (simp add: es length Marshal_Unmarshal_entry)
  then have body: "concat (map Marshal_entry (Entries p)) = drop 4 data"
    using chunks [of "drop 4 data" n] length by simp
  have "put_uint16 (of_nat n) = take 2 (drop 2 data)"
    using length by (simp add: of_n put_get_uint16)
  moreover have "take 2 data @ take 2 (drop 2 data) @ drop 4 data = data"
    by (metis append_take_drop_id drop_drop numeral_Bit0)
  moreover have "Entries p = [] \<longleftrightarrow> n = 0" "length (Entries p) = n" by (simp_all add: es)
  ultimately show ?thesis
    using cmd p length body \<open>n \<le> 64\<close> by (auto simp: rip_valid_def Marshal_def sized_def put_get_uint16)
qed

interpretation rip: packet_codec "\<lambda>p. Marshal (sized p)" UnmarshalRIPPacket rip_valid
  by unfold_locales (simp add: Unmarshal_Marshal, rule Marshal_Unmarshal)

definition sample_response :: RIPPacket where
  "sample_response = \<lparr>Command = ResponseCommand, NumEntries = 0,
     Entries = [\<lparr>RCost = 0, RAddress = sample_ip 0 0, RMask = CIDRMask 24\<rparr>,
                \<lparr>RCost = 16, RAddress = sample_ip 1 0, RMask = CIDRMask 24\<rparr>]\<rparr>"

text \<open>C24: The receiver accepts exactly the messages a sender can build: every byte string of
  another form, whatever its length, command or entry count, is answered with an error, and an
  accepted one carries no byte its decoded message does not account for.\<close>

theorem rip_accepts_exactly_messages:
  "UnmarshalRIPPacket data = Inr p \<longleftrightarrow> rip_valid p \<and> Marshal (sized p) = data"
  using rip.encode_decode rip.decode_encode by blast

text \<open>No byte string makes the receiver panic: the slices it takes are in range because of
  the length checks before them.\<close>

theorem rip_unmarshal_never_panics:
  "UnmarshalRIPPacket data \<noteq> Inl (Panic x)"
  using Unmarshal_cases [of data] by auto

end
