(* ===== verification/Rip.thy ===== *)
theory Rip
  imports RipPacket
begin

text \<open>
  The RIP router (\<open>pkg/rip/rip.go\<close>): answers and updates with split horizon and poison reverse,
  the handling of a received response entry by entry, triggered updates, expiry. Each range loop
  over the table takes its order from an argument; the sends of one call use the orders
  \<open>rngs 0, rngs 1, \<dots>\<close>. Times are in nanoseconds.
\<close>

definition RIPProtocolNum :: u8 where "RIPProtocolNum = 200"
definition EntryExpiredTime :: int where "EntryExpiredTime = 12 * 1000000000"

section \<open>Sending a response\<close>

definition response_entry :: "Addr \<Rightarrow> FwdTableEntry \<times> FwdTableValue \<Rightarrow> RIPEntry res" where
  "response_entry srcIP x =
     (let fwdTableEntry = fst x; fwdTableValue = snd x;
          entry = (\<lambda>cost. \<lparr>RCost = cost, RAddress = PAddr (EAssignedPrefix fwdTableEntry),
                           RMask = CIDRMask (Bits (EAssignedPrefix fwdTableEntry))\<rparr>)
      in if RouteType fwdTableValue = RIPRoute
         then (case NextHop fwdTableValue of
                 None \<Rightarrow> Inl (Panic NilDereference)
               | Some h \<Rightarrow> Inr (entry (if h = srcIP then INFINITY else Cost fwdTableValue)))
         else Inr (entry (if Contains (EAssignedPrefix fwdTableEntry) srcIP then INFINITY
                          else Cost fwdTableValue)))"

fun response_entries :: "Addr \<Rightarrow> FwdTable \<Rightarrow> RIPEntry list \<Rightarrow> RIPEntry list res" where
  "response_entries srcIP [] ripEntries = Inr ripEntries"
| "response_entries srcIP (x # t) ripEntries =
     (case response_entry srcIP x of
        Inl e \<Rightarrow> Inl e
      | Inr ripEntry \<Rightarrow> response_entries srcIP t (ripEntries @ [ripEntry]))"

definition response_packet ::
  "(FwdTable \<Rightarrow> FwdTable) \<Rightarrow> 'h NetworkLayer \<Rightarrow> Addr \<Rightarrow> RIPPacket res" where
  "response_packet ord n srcIP =
     (case response_entries srcIP (ord (FwdTable n)) [] of
        Inl e \<Rightarrow> Inl e
      | Inr ripEntries \<Rightarrow>
          Inr \<lparr>Command = ResponseCommand, NumEntries = of_nat (length ripEntries),
               Entries = ripEntries\<rparr>)"

definition SendRIPResponseSafe ::
  "net_pkgs \<Rightarrow> (nat \<Rightarrow> FwdTable \<Rightarrow> FwdTable) \<Rightarrow> 'h NetworkLayer \<Rightarrow> Addr \<Rightarrow> 'h net_out res" where
  "SendRIPResponseSafe P rng n srcIP =
     (case response_packet (rng 0) n srcIP of
        Inl e \<Rightarrow> Inl e
      | Inr packet \<Rightarrow>
          SendPacketToDestIP P (\<lambda>i. rng (Suc i)) n srcIP RIPProtocolNum (Marshal packet))"

text \<open>The loop over the RIP neighbors, one response each; their errors are ignored.\<close>

fun send_updates ::
  "net_pkgs \<Rightarrow> (nat \<Rightarrow> nat \<Rightarrow> FwdTable \<Rightarrow> FwdTable) \<Rightarrow> 'h NetworkLayer \<Rightarrow> Addr list
     \<Rightarrow> 'h net_out res list" where
  "send_updates P rngs n [] = []"
| "send_updates P rngs n (ripNeighborAddr # as) =
     SendRIPResponseSafe P (rngs 0) n ripNeighborAddr # send_updates P (\<lambda>j. rngs (Suc j)) n as"

definition PeriodicUpdate_tick ::
  "net_pkgs \<Rightarrow> (nat \<Rightarrow> nat \<Rightarrow> FwdTable \<Rightarrow> FwdTable) \<Rightarrow> 'h NetworkLayer \<Rightarrow> 'h net_out res list" where
  "PeriodicUpdate_tick P rngs n = send_updates P rngs n (RIPNeighbors n)"

text \<open>The requests at start-up stop at the first error, which is returned.\<close>

fun InitialRIP_loop ::
  "net_pkgs \<Rightarrow> (nat \<Rightarrow> nat \<Rightarrow> FwdTable \<Rightarrow> FwdTable) \<Rightarrow> 'h NetworkLayer \<Rightarrow> u8 list \<Rightarrow> Addr list
     \<Rightarrow> 'h net_out list \<Rightarrow> 'h net_out list \<times> go_error option" where
  "InitialRIP_loop P rngs n packetBytes [] sent = (sent, None)"
| "InitialRIP_loop P rngs n packetBytes (a # as) sent =
     (case SendPacketToDestIP P (rngs 0) n a RIPProtocolNum packetBytes of
        Inl e \<Rightarrow> (sent, Some e)
      | Inr out \<Rightarrow> InitialRIP_loop P (\<lambda>j. rngs (Suc j)) n packetBytes as (sent @ [out]))"

definition InitialRIP ::
  "net_pkgs \<Rightarrow> (nat \<Rightarrow> nat \<Rightarrow> FwdTable \<Rightarrow> FwdTable) \<Rightarrow> 'h NetworkLayer
     \<Rightarrow> 'h net_out list \<times> go_error option" where
  "InitialRIP P rngs n =
     InitialRIP_loop P rngs n
       (Marshal \<lparr>Command = RequestCommand, NumEntries = 0, Entries = []\<rparr>) (RIPNeighbors n) []"

section \<open>Receiving\<close>

text \<open>
  One entry of a received response. \<open>updated\<close> collects the entries that changed the table. The
  prefix string \<open>destIP/ones\<close> the code formats always parses: the address is an IPv4 address
  and \<open>mask_Size\<close> is at most 32. A map read of an absent key gives the zero value, whose route
  type is none of the three.
\<close>

definition handle_entry ::
  "int \<Rightarrow> Addr \<Rightarrow> (FwdTable \<Rightarrow> FwdTable) \<Rightarrow> 'h NetworkLayer \<times> RIPEntry list \<Rightarrow> RIPEntry
     \<Rightarrow> ('h NetworkLayer \<times> RIPEntry list) res" where
  "handle_entry now srcIP ord s ripEntry =
     (let n = fst s; updatedEntries = snd s;
          destIP = RAddress ripEntry; newCost = RCost ripEntry + 1
      in if newCost \<ge> INFINITY then Inr s
         else
           let newFwdTableValue = CreateFwdTableValue newCost now None (Some srcIP) RIPRoute;
               updatedRIPEntry = \<lparr>RCost = newCost, RAddress = RAddress ripEntry,
                                  RMask = RMask ripEntry\<rparr>
           in case GetEntryByPrefix ord n destIP of
                None \<Rightarrow>
                  let prefixOnes = mask_Size (RMask ripEntry);
                      newPrefix = \<lparr>PAddr = destIP, Bits = prefixOnes\<rparr>;
                      newFwdTableEntry = CreateFwdTableEntry destIP (Masked newPrefix)
                  in Inr (n\<lparr>FwdTable := AList.update newFwdTableEntry newFwdTableValue (FwdTable n)\<rparr>,
                          updatedEntries @ [updatedRIPEntry])
              | Some currFwdEntry \<Rightarrow>
                  (case map_of (FwdTable n) currFwdEntry of
                     None \<Rightarrow> Inr s
                   | Some cur \<Rightarrow>
                       if RouteType cur = RIPRoute
                       then (case NextHop cur of
                               None \<Rightarrow> Inl (Panic NilDereference)
                             | Some oldNextHop \<Rightarrow>
                                 let oldCost = Cost cur; newNextHop = srcIP;
                                     n' = n\<lparr>FwdTable :=
                                       AList.update currFwdEntry newFwdTableValue (FwdTable n)\<rparr>
                                 in if newCost < oldCost
                                    then Inr (n', updatedEntries @ [updatedRIPEntry])
                                    else if newCost > oldCost \<and> newNextHop = oldNextHop
                                    then Inr (n', updatedEntries @ [updatedRIPEntry])
                                    else if newCost = oldCost \<and> oldNextHop = newNextHop
                                    then Inr (n', updatedEntries)
                                    else Inr s)
                       else Inr s))"

fun handle_entries ::
  "int \<Rightarrow> Addr \<Rightarrow> (nat \<Rightarrow> FwdTable \<Rightarrow> FwdTable) \<Rightarrow> 'h NetworkLayer \<times> RIPEntry list
     \<Rightarrow> RIPEntry list \<Rightarrow> ('h NetworkLayer \<times> RIPEntry list) res" where
  "handle_entries now srcIP rng s [] = Inr s"
| "handle_entries now srcIP rng s (ripEntry # es) =
     (case handle_entry now srcIP (rng 0) s ripEntry of
        Inl e \<Rightarrow> Inl e
      | Inr s' \<Rightarrow> handle_entries now srcIP (\<lambda>i. rng (Suc i)) s' es)"

text \<open>
  The handler: a message that does not unmarshal is dropped, a request is answered, a response
  updates the table and, if it changed anything, is followed by an update to every neighbor. The
  result is the table and what was sent; a panic ends the program.
\<close>

definition RIPHandler ::
  "net_pkgs \<Rightarrow> int \<Rightarrow> (nat \<Rightarrow> FwdTable \<Rightarrow> FwdTable) \<Rightarrow> (nat \<Rightarrow> nat \<Rightarrow> FwdTable \<Rightarrow> FwdTable)
     \<Rightarrow> 'h NetworkLayer \<Rightarrow> u8 list \<Rightarrow> IPv4Header
     \<Rightarrow> ('h NetworkLayer \<times> 'h net_out res list) res" where
  "RIPHandler P now rng rngs n data packetHeader =
     (case UnmarshalRIPPacket data of
        Inl (Panic p) \<Rightarrow> Inl (Panic p)
      | Inl (Error m) \<Rightarrow> Inr (n, [])
      | Inr ripPacket \<Rightarrow>
          (let srcIP = Src packetHeader
           in if Command ripPacket = RequestCommand
              then Inr (n, [SendRIPResponseSafe P (rngs 0) n srcIP])
              else (case handle_entries now srcIP rng (n, []) (Entries ripPacket) of
                      Inl e \<Rightarrow> Inl e
                    | Inr (n', updatedEntries) \<Rightarrow>
                        if length updatedEntries \<noteq> 0
                        then Inr (n', send_updates P rngs n' (RIPNeighbors n'))
                        else Inr (n', []))))"

section \<open>Expiry\<close>

definition is_expired :: "int \<Rightarrow> FwdTableValue \<Rightarrow> bool" where
  "is_expired now value \<longleftrightarrow> RouteType value = RIPRoute \<and>
     (now - LastUpdatedTime value > EntryExpiredTime \<or> Cost value \<ge> INFINITY)"

definition PeriodicExpiry_tick ::
  "int \<Rightarrow> (FwdTable \<Rightarrow> FwdTable) \<Rightarrow> 'h NetworkLayer \<Rightarrow> 'h NetworkLayer" where
  "PeriodicExpiry_tick now ord n =
     (let expiredEntries = map fst (filter (\<lambda>(e, v). is_expired now v) (ord (FwdTable n)))
      in n\<lparr>FwdTable := foldl (\<lambda>t e. AList.delete e t) (FwdTable n) expiredEntries\<rparr>)"

section \<open>Well-formed tables\<close>

text \<open>A learned route costs less than infinity, whatever the neighbors send.\<close>

definition rip_inv :: "'h NetworkLayer \<Rightarrow> bool" where
  "rip_inv n \<longleftrightarrow> fwd_wf (FwdTable n) \<and>
     (\<forall>(e, v) \<in> set (FwdTable n). RouteType v = RIPRoute \<longrightarrow> Cost v < INFINITY)"

definition learned :: "int \<Rightarrow> Addr \<Rightarrow> RIPEntry \<Rightarrow> FwdTableValue" where
  "learned now srcIP x = CreateFwdTableValue (RCost x + 1) now None (Some srcIP) RIPRoute"

definition fresh_key :: "RIPEntry \<Rightarrow> FwdTableEntry" where
  "fresh_key x = CreateFwdTableEntry (RAddress x)
     (Masked \<lparr>PAddr = RAddress x, Bits = mask_Size (RMask x)\<rparr>)"

definition advertised :: "RIPEntry \<Rightarrow> RIPEntry" where
  "advertised x = \<lparr>RCost = RCost x + 1, RAddress = RAddress x, RMask = RMask x\<rparr>"

lemma learned_simps [simp]:
  "RouteType (learned now src x) = RIPRoute" "Cost (learned now src x) = RCost x + 1"
  "NextHop (learned now src x) = Some src" "LastUpdatedTime (learned now src x) = now"
  by (simp_all add: learned_def CreateFwdTableValue_def)

text \<open>The branches of \<open>handle_entry\<close>, by what the lookup finds.\<close>

lemma handle_entry_infinite:
  "INFINITY \<le> RCost x + 1 \<Longrightarrow> handle_entry now src ord s x = Inr s"
  by (simp add: handle_entry_def Let_def)

lemma handle_entry_new:
  assumes "RCost x + 1 < INFINITY" "GetEntryByPrefix ord n (RAddress x) = None"
  shows "handle_entry now src ord (n, u) x =
    Inr (n\<lparr>FwdTable := AList.update (fresh_key x) (learned now src x) (FwdTable n)\<rparr>,
         u @ [advertised x])"
  using assms by (simp add: handle_entry_def Let_def fresh_key_def learned_def advertised_def
      linorder_not_le [symmetric])

lemma handle_entry_other:
  assumes "GetEntryByPrefix ord n (RAddress x) = Some k"
    and "\<forall>v. map_of (FwdTable n) k = Some v \<longrightarrow> RouteType v \<noteq> RIPRoute"
  shows "handle_entry now src ord (n, u) x = Inr (n, u)"
  using assms by (auto simp: handle_entry_def Let_def split: option.split)

lemma handle_entry_rip:
  assumes "RCost x + 1 < INFINITY" "GetEntryByPrefix ord n (RAddress x) = Some k"
    and "map_of (FwdTable n) k = Some v" "RouteType v = RIPRoute" "NextHop v = Some hop"
  shows "handle_entry now src ord (n, u) x =
    (if RCost x + 1 < Cost v \<or> src = hop
     then Inr (n\<lparr>FwdTable := AList.update k (learned now src x) (FwdTable n)\<rparr>,
               if RCost x + 1 = Cost v then u else u @ [advertised x])
     else Inr (n, u))"
  using assms by (auto simp: handle_entry_def Let_def learned_def advertised_def
      linorder_not_le [symmetric])

lemmas handle_entry_simps = handle_entry_infinite handle_entry_new handle_entry_other
  handle_entry_rip

text \<open>What an entry can do to the table: nothing, or one learned route.\<close>

lemma handle_entry_effect:
  assumes "fwd_wf (FwdTable n)"
  shows "\<exists>n' u'. handle_entry now src ord (n, u) x = Inr (n', u') \<and>
    (n' = n \<or> RCost x + 1 < INFINITY \<and> (\<exists>k.
       n' = n\<lparr>FwdTable := AList.update k (learned now src x) (FwdTable n)\<rparr> \<and>
       (GetEntryByPrefix ord n (RAddress x) = None \<and> k = fresh_key x \<or>
        (\<exists>v. map_of (FwdTable n) k = Some v \<and> RouteType v = RIPRoute))))"
proof (cases "INFINITY \<le> RCost x + 1")
  case True
  then show ?thesis by (simp add: handle_entry_infinite)
next
  case fin: False
  show ?thesis
  proof (cases "GetEntryByPrefix ord n (RAddress x)")
    case None
    with fin show ?thesis by (auto simp: handle_entry_new)
  next
    case (Some k)
    show ?thesis
    proof (cases "\<exists>v. map_of (FwdTable n) k = Some v \<and> RouteType v = RIPRoute")
      case True
      then obtain v where v: "map_of (FwdTable n) k = Some v" "RouteType v = RIPRoute" by blast
      then have "entry_wf (k, v)" using assms by (auto simp: fwd_wf_def dest: map_of_SomeD)
      then obtain hop where "NextHop v = Some hop" using v(2) by (auto simp: entry_wf_def)
      with fin Some v show ?thesis by (auto simp: handle_entry_rip)
    next
      case False
      with Some show ?thesis by (auto simp: handle_entry_other)
    qed
  qed
qed

lemma entry_wf_learned: "entry_wf (k, learned now src x)"
  by (simp add: entry_wf_def)

lemma rip_inv_update:
  "rip_inv n \<Longrightarrow> RCost x + 1 < INFINITY \<Longrightarrow>
     rip_inv (n\<lparr>FwdTable := AList.update k (learned now src x) (FwdTable n)\<rparr>)"
  by (auto simp: rip_inv_def fwd_wf_update entry_wf_learned dest!: set_update_cases)

lemma handle_entry_rip_inv:
  assumes "rip_inv n"
  shows "\<exists>n' u'. handle_entry now src ord (n, u) x = Inr (n', u') \<and> rip_inv n'"
proof -
  have "fwd_wf (FwdTable n)" using assms by (simp add: rip_inv_def)
  from handle_entry_effect [OF this, of now src ord u x] show ?thesis
    by (elim exE conjE) (intro exI conjI, assumption, elim disjE conjE exE;
        simp add: rip_inv_update [OF assms] assms)
qed

lemma handle_entries_rip_inv:
  "rip_inv n \<Longrightarrow> \<exists>n' u'. handle_entries now src rng (n, u) es = Inr (n', u') \<and> rip_inv n'"
proof (induction es arbitrary: n u rng)
  case (Cons x es)
  from handle_entry_rip_inv [OF Cons.prems, of now src "rng 0" u x] obtain n' u'
    where "handle_entry now src (rng 0) (n, u) x = Inr (n', u')" "rip_inv n'" by blast
  then show ?case using Cons.IH by simp
qed simp

section \<open>Routes RIP does not own\<close>

lemma handle_entry_keeps:
  assumes "fwd_wf (FwdTable n)" "set (ord (FwdTable n)) = set (FwdTable n)"
    and "map_of (FwdTable n) e = Some v" "RouteType v \<noteq> RIPRoute"
    and "handle_entry now src ord (n, u) x = Inr (n', u')"
  shows "map_of (FwdTable n') e = Some v"
proof -
  have "k \<noteq> e" if "GetEntryByPrefix ord n (RAddress x) = None \<and> k = fresh_key x \<or>
        (\<exists>v. map_of (FwdTable n) k = Some v \<and> RouteType v = RIPRoute)" for k
  proof
    assume "k = e"
    with that assms(3,4) have "find (covers (RAddress x)) (ord (FwdTable n)) = None" "e = fresh_key x"
      by (auto simp: GetEntryByPrefix_find)
    moreover have "(e, v) \<in> set (ord (FwdTable n))" using assms(2,3) by (simp add: map_of_SomeD)
    moreover have "covers (RAddress x) (fresh_key x, v)"
      using Contains_self [of "\<lparr>PAddr = RAddress x, Bits = mask_Size (RMask x)\<rparr>"]
      by (simp add: covers_def fresh_key_def CreateFwdTableEntry_def)
    ultimately show False by (auto simp: find_None_iff)
  qed
  note other = this
  have "n' = n \<or> (\<exists>k. n' = n\<lparr>FwdTable := AList.update k (learned now src x) (FwdTable n)\<rparr> \<and>
      (GetEntryByPrefix ord n (RAddress x) = None \<and> k = fresh_key x \<or>
       (\<exists>v. map_of (FwdTable n) k = Some v \<and> RouteType v = RIPRoute)))"
    using handle_entry_effect [OF assms(1), of now src ord u x] assms(5) by auto
  then show ?thesis
  proof (elim disjE exE conjE)
    fix k
    assume "n' = n\<lparr>FwdTable := AList.update k (learned now src x) (FwdTable n)\<rparr>"
      and "GetEntryByPrefix ord n (RAddress x) = None" "k = fresh_key x"
    then show ?thesis using other [of k] assms(3) by (simp add: update_conv')
  next
    fix k w
    assume "n' = n\<lparr>FwdTable := AList.update k (learned now src x) (FwdTable n)\<rparr>"
      and "map_of (FwdTable n) k = Some w" "RouteType w = RIPRoute"
    then show ?thesis using other [of k] assms(3) by (simp add: update_conv')
  qed (simp add: assms(3))
qed

lemma handle_entries_keeps:
  assumes "\<And>i t. set (rng i t) = set t" and "map_of (FwdTable n) e = Some v" "RouteType v \<noteq> RIPRoute"
    and "rip_inv n" and "handle_entries now src rng (n, u) es = Inr (n', u')"
  shows "map_of (FwdTable n') e = Some v"
  using assms
proof (induction es arbitrary: n u rng)
  case (Cons x es)
  from handle_entry_rip_inv [OF Cons.prems(4), of now src "rng 0" u x] obtain n1 u1
    where n1: "handle_entry now src (rng 0) (n, u) x = Inr (n1, u1)" "rip_inv n1" by blast
  have "fwd_wf (FwdTable n)" using Cons.prems(4) by (simp add: rip_inv_def)
  from handle_entry_keeps [OF this Cons.prems(1-3) n1(1)]
  have "map_of (FwdTable n1) e = Some v" .
  moreover have "handle_entries now src (\<lambda>i. rng (Suc i)) (n1, u1) es = Inr (n', u')"
    using Cons.prems(5) n1(1) by simp
  ultimately show ?case using Cons.IH [of "\<lambda>i. rng (Suc i)" n1 u1] Cons.prems(1,3) n1(2) by simp
qed simp

section \<open>Expiry\<close>

lemma map_of_delete_keys:
  "map_of (foldl (\<lambda>t e. AList.delete e t) t ks) k = (if k \<in> set ks then None else map_of t k)"
  by (induction ks arbitrary: t) (auto simp: delete_conv')

lemma fwd_wf_delete_keys: "fwd_wf t \<Longrightarrow> fwd_wf (foldl (\<lambda>t e. AList.delete e t) t ks)"
  by (induction ks arbitrary: t) (simp_all add: fwd_wf_delete)

lemma set_delete_keys: "set (foldl (\<lambda>t e. AList.delete e t) t ks) \<subseteq> set t"
  by (induction ks arbitrary: t) (auto simp: AList.delete_eq, fastforce)

lemma expiry_map_of:
  assumes "fwd_wf (FwdTable n)" "set (ord (FwdTable n)) = set (FwdTable n)"
  shows "map_of (FwdTable (PeriodicExpiry_tick now ord n)) e =
    (case map_of (FwdTable n) e of None \<Rightarrow> None
     | Some v \<Rightarrow> if is_expired now v then None else Some v)"
proof -
  have "e \<in> fst ` {x \<in> set (FwdTable n). is_expired now (snd x)} \<longleftrightarrow>
      (\<exists>v. map_of (FwdTable n) e = Some v \<and> is_expired now v)"
    using assms(1) by (force simp: fwd_wf_def dest: map_of_SomeD)
  then show ?thesis
    using assms(2) by (auto simp: PeriodicExpiry_tick_def map_of_delete_keys split_beta
        split: option.split)
qed

lemma expiry_rip_inv:
  assumes "rip_inv n"
  shows "rip_inv (PeriodicExpiry_tick now ord n)"
  using assms set_delete_keys [of "FwdTable n"]
  by (fastforce simp: rip_inv_def PeriodicExpiry_tick_def fwd_wf_delete_keys)

section \<open>Runs of the router\<close>

datatype rip_event =
    Received "u8 list" IPv4Header int "nat \<Rightarrow> FwdTable \<Rightarrow> FwdTable"
      "nat \<Rightarrow> nat \<Rightarrow> FwdTable \<Rightarrow> FwdTable"
  | Expire int "FwdTable \<Rightarrow> FwdTable"

primrec rip_step :: "net_pkgs \<Rightarrow> 'h NetworkLayer \<Rightarrow> rip_event \<Rightarrow> 'h NetworkLayer" where
  "rip_step P n (Received data hdr now rng rngs) =
     (case RIPHandler P now rng rngs n data hdr of Inl e \<Rightarrow> n | Inr (n', outs) \<Rightarrow> n')"
| "rip_step P n (Expire now ord) = PeriodicExpiry_tick now ord n"

primrec event_ok :: "rip_event \<Rightarrow> bool" where
  "event_ok (Received data hdr now rng rngs) \<longleftrightarrow> range_ok rng"
| "event_ok (Expire now ord) \<longleftrightarrow> range_ok (\<lambda>i. ord)"

lemma RIPHandler_cases:
  assumes "rip_inv n"
  obtains (unchanged) outs where "RIPHandler P now rng rngs n data hdr = Inr (n, outs)"
  | (response) p n' u' outs where "UnmarshalRIPPacket data = Inr p"
      "handle_entries now (Src hdr) rng (n, []) (Entries p) = Inr (n', u')" "rip_inv n'"
      "RIPHandler P now rng rngs n data hdr = Inr (n', outs)"
      "outs = (if u' = [] then [] else send_updates P rngs n' (RIPNeighbors n'))"
proof (cases "UnmarshalRIPPacket data")
  case (Inl e)
  then show ?thesis using unchanged Unmarshal_cases [of data] by (auto simp: RIPHandler_def)
next
  case (Inr p)
  from handle_entries_rip_inv [OF assms, of now "Src hdr" rng "[]" "Entries p"] obtain n' u'
    where r: "handle_entries now (Src hdr) rng (n, []) (Entries p) = Inr (n', u')" "rip_inv n'"
    by blast
  show ?thesis
  proof (cases "Command p = RequestCommand")
    case True
    with Inr show ?thesis using unchanged by (simp add: RIPHandler_def)
  next
    case False
    with Inr r show ?thesis using response [OF Inr r] by (simp add: RIPHandler_def)
  qed
qed

text \<open>Learning and expiring keep the table well-formed and leave every other route alone.\<close>

definition keeps_route :: "FwdTableEntry \<Rightarrow> FwdTableValue \<Rightarrow> 'h NetworkLayer \<Rightarrow> bool" where
  "keeps_route e v n \<longleftrightarrow> rip_inv n \<and>
     (RouteType v \<noteq> RIPRoute \<longrightarrow> map_of (FwdTable n) e = Some v)"

lemma rip_step_keeps_route:
  assumes "keeps_route e v n" "event_ok x"
  shows "keeps_route e v (rip_step P n x)"
proof (cases x)
  case (Received data hdr now rng rngs)
  then have rng: "\<And>i t. set (rng i t) = set t" using assms(2) by (simp add: range_ok_set)
  have inv: "rip_inv n" using assms(1) by (simp add: keeps_route_def)
  show ?thesis
  proof (rule RIPHandler_cases [OF inv, of P now rng rngs data hdr])
    fix outs assume "RIPHandler P now rng rngs n data hdr = Inr (n, outs)"
    then show ?thesis using assms(1) by (simp add: Received)
  next
    fix p n' u' outs
    assume r: "handle_entries now (Src hdr) rng (n, []) (Entries p) = Inr (n', u')" "rip_inv n'"
      "RIPHandler P now rng rngs n data hdr = Inr (n', outs)"
    then show ?thesis
      using handle_entries_keeps [OF rng _ _ inv r(1)] assms(1)
      by (auto simp: Received keeps_route_def)
  qed
next
  case (Expire now ord)
  then have "set (ord (FwdTable n)) = set (FwdTable n)"
    using assms(2) range_ok_set [of "\<lambda>i. ord" 0] by simp
  moreover have "rip_inv n" "fwd_wf (FwdTable n)"
    using assms(1) by (simp_all add: keeps_route_def rip_inv_def)
  ultimately show ?thesis
    using assms(1) by (simp add: Expire keeps_route_def expiry_rip_inv expiry_map_of is_expired_def)
qed

interpretation router: op_machine "rip_step P" "keeps_route e v" event_ok
  for P :: net_pkgs and e v
  by unfold_locales (rule rip_step_keeps_route)

end
