(* ===== verification/Distance_Vector.thy ===== *)
theory Distance_Vector
  imports Rip
begin

text \<open>
  What the RIP router promises: each advertisement merges into the table as the distance-vector
  rule says, responses are split-horizon with poison reverse, routes expire exactly when due, and
  no sequence of events costs the node its own routes.
\<close>

section \<open>The distance-vector rule\<close>

text \<open>A route as the rule sees it: its cost and the neighbor it goes through.\<close>

definition route_at :: "'h NetworkLayer \<Rightarrow> FwdTableEntry \<Rightarrow> (u32 \<times> Addr option) option" where
  "route_at n k = map_option (\<lambda>v. (Cost v, NextHop v)) (map_of (FwdTable n) k)"

text \<open>
  The rule: without a route take the advertised one; with one, take it if it is cheaper or comes
  from the neighbor the present route goes through, which has the last word on its own route.
\<close>

definition dv_merge :: "u32 \<Rightarrow> Addr \<Rightarrow> (u32 \<times> Addr option) option \<Rightarrow> u32 \<times> Addr option" where
  "dv_merge c src old = (case old of
     None \<Rightarrow> (c, Some src)
   | Some (oc, oh) \<Rightarrow> if c < oc \<or> oh = Some src then (c, Some src) else (oc, oh))"

definition entry_key :: "(FwdTable \<Rightarrow> FwdTable) \<Rightarrow> 'h NetworkLayer \<Rightarrow> RIPEntry \<Rightarrow> FwdTableEntry" where
  "entry_key ord n x =
     (case GetEntryByPrefix ord n (RAddress x) of None \<Rightarrow> fresh_key x | Some k \<Rightarrow> k)"

lemma entry_key_absent:
  assumes "set (ord (FwdTable n)) = set (FwdTable n)"
    and "GetEntryByPrefix ord n (RAddress x) = None"
  shows "map_of (FwdTable n) (fresh_key x) = None"
proof (rule ccontr)
  assume "map_of (FwdTable n) (fresh_key x) \<noteq> None"
  then obtain v where "(fresh_key x, v) \<in> set (ord (FwdTable n))"
    using assms(1) by (auto dest: map_of_SomeD)
  moreover have "covers (RAddress x) (fresh_key x, v)"
    using Contains_self [of "\<lparr>PAddr = RAddress x, Bits = mask_Size (RMask x)\<rparr>"]
    by (simp add: covers_def fresh_key_def CreateFwdTableEntry_def)
  ultimately show False using assms(2) by (auto simp: GetEntryByPrefix_find find_None_iff)
qed

lemma entry_merges:
  assumes "fwd_wf (FwdTable n)" and "set (ord (FwdTable n)) = set (FwdTable n)"
    and "RCost x + 1 < INFINITY"
    and "\<forall>v. map_of (FwdTable n) (entry_key ord n x) = Some v \<longrightarrow> RouteType v = RIPRoute"
  shows "\<exists>n' u'. handle_entry now src ord (n, u) x = Inr (n', u') \<and>
    route_at n' (entry_key ord n x) =
      Some (dv_merge (RCost x + 1) src (route_at n (entry_key ord n x))) \<and>
    (\<forall>k. k \<noteq> entry_key ord n x \<longrightarrow> map_of (FwdTable n') k = map_of (FwdTable n) k) \<and>
    u' = (if route_at n' (entry_key ord n x) = route_at n (entry_key ord n x) then u
          else u @ [advertised x])"
proof (cases "GetEntryByPrefix ord n (RAddress x)")
  case None
  then have key: "entry_key ord n x = fresh_key x" by (simp add: entry_key_def)
  have "route_at n (fresh_key x) = None"
    by (simp add: route_at_def entry_key_absent [OF assms(2) None])
  then show ?thesis
    by (simp add: handle_entry_new [OF assms(3) None] key dv_merge_def)
      (simp add: route_at_def update_conv')
next
  case (Some k)
  then have key: "entry_key ord n x = k" by (simp add: entry_key_def)
  have "k \<in> fst ` set (FwdTable n)"
    using Some assms(2) find_eq_Some_in_set [of "covers (RAddress x)" "ord (FwdTable n)"]
    by (auto simp: GetEntryByPrefix_find intro: rev_image_eqI)
  then obtain v where v: "map_of (FwdTable n) k = Some v"
    by (metis map_of_eq_None_iff option.exhaust)
  then have "RouteType v = RIPRoute" using assms(4) key by simp
  moreover have "entry_wf (k, v)" using assms(1) v by (auto simp: fwd_wf_def dest: map_of_SomeD)
  ultimately obtain hop where hop: "RouteType v = RIPRoute" "NextHop v = Some hop"
    by (auto simp: entry_wf_def)
  show ?thesis
    using v hop(2) by (auto simp: handle_entry_rip [OF assms(3) Some v hop] key route_at_def
        dv_merge_def update_conv')
qed

text \<open>C5: One entry of a received response updates the table by the distance-vector rule. For an
  advertised cost below infinity, when the lookup finds no route or a RIP route, the cost and next
  hop stored under the route's key become what \<open>dv_merge\<close> makes of the old ones, every other key
  keeps its value, and the entry is queued for a triggered update exactly when the route
  changed.\<close>

theorem entry_refines_distance_vector:
  assumes "fwd_wf (FwdTable n)" and "set (ord (FwdTable n)) = set (FwdTable n)"
    and "RCost x + 1 < INFINITY"
    and "\<forall>v. map_of (FwdTable n) (entry_key ord n x) = Some v \<longrightarrow> RouteType v = RIPRoute"
  shows "\<exists>n' u'. handle_entry now src ord (n, u) x = Inr (n', u') \<and>
    route_at n' (entry_key ord n x) =
      Some (dv_merge (RCost x + 1) src (route_at n (entry_key ord n x))) \<and>
    (\<forall>k. k \<noteq> entry_key ord n x \<longrightarrow> map_of (FwdTable n') k = map_of (FwdTable n) k) \<and>
    u' = (if route_at n' (entry_key ord n x) = route_at n (entry_key ord n x) then u
          else u @ [advertised x])"
  by (rule entry_merges [where ord = ord, OF assms])

definition r1_two_hops :: "unit NetworkLayer" where
  "r1_two_hops = r1\<lparr>FwdTable := FwdTable r1 @
     [(CreateFwdTableEntry (sample_ip 7 0) (sample_prefix 7),
       CreateFwdTableValue 3 0 None (Some (sample_ip 1 2)) RIPRoute)]\<rparr>"

definition sample_advert :: RIPEntry where
  "sample_advert = \<lparr>RCost = 1, RAddress = sample_ip 7 0, RMask = CIDRMask 24\<rparr>"

theorem entry_refines_distance_vector_witness:
  "\<exists>n' u'. handle_entry 5 (sample_ip 0 1) (\<lambda>t. t) (r1_two_hops, []) sample_advert = Inr (n', u') \<and>
     route_at n' (CreateFwdTableEntry (sample_ip 7 0) (sample_prefix 7)) =
       Some (2, Some (sample_ip 0 1)) \<and> u' \<noteq> []"
proof -
  have wf: "fwd_wf (FwdTable r1_two_hops)" by code_simp
  have cost: "RCost sample_advert + 1 < INFINITY" by code_simp
  have key: "entry_key (\<lambda>t. t) r1_two_hops sample_advert =
      CreateFwdTableEntry (sample_ip 7 0) (sample_prefix 7)" by code_simp
  have val: "map_of (FwdTable r1_two_hops) (CreateFwdTableEntry (sample_ip 7 0) (sample_prefix 7)) =
      Some (CreateFwdTableValue 3 0 None (Some (sample_ip 1 2)) RIPRoute)" by code_simp
  have old: "route_at r1_two_hops (CreateFwdTableEntry (sample_ip 7 0) (sample_prefix 7)) =
      Some (3, Some (sample_ip 1 2))" by code_simp
  have new: "dv_merge (RCost sample_advert + 1) (sample_ip 0 1) (Some (3, Some (sample_ip 1 2))) =
      (2, Some (sample_ip 0 1))" by code_simp
  have "\<forall>v. map_of (FwdTable r1_two_hops) (entry_key (\<lambda>t. t) r1_two_hops sample_advert) = Some v \<longrightarrow>
      RouteType v = RIPRoute"
    by (simp add: key val CreateFwdTableValue_def)
  from entry_refines_distance_vector [OF wf refl cost this, of 5 "sample_ip 0 1" "[]"]
  show ?thesis by (auto simp: key old new)
qed

section \<open>Runs\<close>

text \<open>C13: Nothing the network sends, in any order and mixed with expiry, costs the node its own
  routes or corrupts its table: after any run from a good table every local and static route is
  still there with its value, keys are distinct, and every learned route costs less than
  infinity.\<close>

theorem run_keeps_own_routes:
  assumes "rip_inv n" and "\<forall>x \<in> set events. event_ok x"
  shows "rip_inv (foldl (rip_step P) n events) \<and>
    (\<forall>e v. map_of (FwdTable n) e = Some v \<and> RouteType v \<noteq> RIPRoute \<longrightarrow>
       map_of (FwdTable (foldl (rip_step P) n events)) e = Some v)"
proof -
  have run: "keeps_route e v (foldl (rip_step P) n events)"
    if "RouteType v \<noteq> RIPRoute \<longrightarrow> map_of (FwdTable n) e = Some v" for e v
    using assms that by (intro router.run_inv) (auto simp: keeps_route_def)
  have "rip_inv (foldl (rip_step P) n events)"
    using run [of "CreateFwdTableValue 0 0 None None RIPRoute"]
    by (simp add: keeps_route_def CreateFwdTableValue_def)
  with run show ?thesis by (auto simp: keeps_route_def)
qed

definition sample_events :: "rip_event list" where
  "sample_events =
     [Received (Marshal (sized sample_response)) sample_header 1 (\<lambda>i t. t) (\<lambda>j i t. t),
      Expire 99000000000 rev]"

theorem run_keeps_own_routes_witness:
  "map_of (FwdTable (foldl (rip_step wire_pkgs) r1_two_hops sample_events))
     (CreateFwdTableEntry (sample_ip 0 2) (sample_prefix 0)) =
     Some (CreateFwdTableValue 0 0 (Some r1_if0) None LocalRoute)"
proof -
  have inv: "rip_inv r1_two_hops" by code_simp
  have ok: "\<forall>x \<in> set sample_events. event_ok x"
    by (simp add: sample_events_def range_ok_id range_ok_rev)
  have "map_of (FwdTable r1_two_hops) (CreateFwdTableEntry (sample_ip 0 2) (sample_prefix 0)) =
     Some (CreateFwdTableValue 0 0 (Some r1_if0) None LocalRoute)" by code_simp
  moreover have "RouteType (CreateFwdTableValue 0 0 (Some r1_if0) None LocalRoute) \<noteq> RIPRoute"
    by (simp add: CreateFwdTableValue_def)
  ultimately show ?thesis using run_keeps_own_routes [OF inv ok, of wire_pkgs] by blast
qed

section \<open>Split horizon and poison reverse\<close>

definition poisoned :: "Addr \<Rightarrow> FwdTableEntry \<times> FwdTableValue \<Rightarrow> bool" where
  "poisoned a x \<longleftrightarrow> (if RouteType (snd x) = RIPRoute then NextHop (snd x) = Some a
                     else Contains (EAssignedPrefix (fst x)) a)"

definition advert :: "Addr \<Rightarrow> FwdTableEntry \<times> FwdTableValue \<Rightarrow> RIPEntry" where
  "advert a x = \<lparr>RCost = (if poisoned a x then INFINITY else Cost (snd x)),
     RAddress = PAddr (EAssignedPrefix (fst x)), RMask = CIDRMask (Bits (EAssignedPrefix (fst x)))\<rparr>"

lemma response_entry_advert: "entry_wf x \<Longrightarrow> response_entry a x = Inr (advert a x)"
  by (auto simp: response_entry_def advert_def poisoned_def entry_wf_def Let_def split: option.split)

lemma response_entries_advert:
  "\<forall>x \<in> set t. entry_wf x \<Longrightarrow> response_entries a t acc = Inr (acc @ map (advert a) t)"
  by (induction t arbitrary: acc) (simp_all add: response_entry_advert)

lemma response_packet_advert:
  assumes "fwd_wf (FwdTable n)" "set (ord (FwdTable n)) = set (FwdTable n)"
  shows "response_packet ord n a = Inr \<lparr>Command = ResponseCommand,
    NumEntries = of_nat (length (ord (FwdTable n))), Entries = map (advert a) (ord (FwdTable n))\<rparr>"
  using assms by (simp add: response_packet_def response_entries_advert fwd_wf_def)

text \<open>C18: Split horizon with poison reverse. The response to a neighbor has one entry per route, at
  cost infinity for every learned route that goes through that neighbor and for every local or
  static prefix that neighbor is in, and at the route's cost otherwise; and an entry at infinity
  changes nothing at a receiver, so a neighbor never learns a route that leads back to
  itself.\<close>

theorem split_horizon:
  assumes "fwd_wf (FwdTable n)" and "mset (ord (FwdTable n)) = mset (FwdTable n)"
    and "(e, v) \<in> set (FwdTable n)"
  shows "\<exists>p x. response_packet ord n a = Inr p \<and> length (Entries p) = length (FwdTable n) \<and>
    x \<in> set (Entries p) \<and> RAddress x = PAddr (EAssignedPrefix e) \<and>
    RMask x = CIDRMask (Bits (EAssignedPrefix e)) \<and>
    (if RouteType v = RIPRoute \<and> NextHop v = Some a \<or>
        RouteType v \<noteq> RIPRoute \<and> Contains (EAssignedPrefix e) a
     then RCost x = INFINITY \<and> (\<forall>now src ord' s. handle_entry now src ord' (s :: 'h NetworkLayer \<times> _) x = Inr s)
     else RCost x = Cost v)"
proof -
  let ?x = "advert a (e, v)"
  have ord: "set (ord (FwdTable n)) = set (FwdTable n)" "length (ord (FwdTable n)) = length (FwdTable n)"
    using assms(2) by (auto dest: mset_eq_setD mset_eq_length)
  have packet: "response_packet ord n a = Inr \<lparr>Command = ResponseCommand,
      NumEntries = of_nat (length (ord (FwdTable n))), Entries = map (advert a) (ord (FwdTable n))\<rparr>"
    by (rule response_packet_advert [where ord = ord, OF assms(1) ord(1)])
  have mem: "?x \<in> set (map (advert a) (ord (FwdTable n)))"
    unfolding set_map ord(1) using assms(3) by (rule imageI)
  have fields: "RAddress ?x = PAddr (EAssignedPrefix e)"
      "RMask ?x = CIDRMask (Bits (EAssignedPrefix e))"
    by (simp_all add: advert_def)
  have "handle_entry now src ord' s x = Inr s" if "RCost x = INFINITY"
    for now src ord' and s :: "'h NetworkLayer \<times> RIPEntry list" and x
    using that by (intro handle_entry_infinite) (simp add: INFINITY_def)
  then have "if RouteType v = RIPRoute \<and> NextHop v = Some a \<or>
        RouteType v \<noteq> RIPRoute \<and> Contains (EAssignedPrefix e) a
     then RCost ?x = INFINITY \<and> (\<forall>now src ord' s.
       handle_entry now src ord' (s :: 'h NetworkLayer \<times> _) ?x = Inr s)
     else RCost ?x = Cost v"
    by (auto simp: advert_def poisoned_def)
  with packet mem fields ord(2) show ?thesis
    by (intro exI [of _ "\<lparr>Command = ResponseCommand, NumEntries = of_nat (length (ord (FwdTable n))),
        Entries = map (advert a) (ord (FwdTable n))\<rparr>"] exI [of _ ?x]) simp
qed

theorem split_horizon_witness:
  "\<exists>p x. response_packet rev r1_two_hops (sample_ip 1 2) = Inr p \<and> x \<in> set (Entries p) \<and>
     RAddress x = sample_ip 7 0 \<and> RCost x = INFINITY"
proof -
  have wf: "fwd_wf (FwdTable r1_two_hops)" by code_simp
  have mem: "(CreateFwdTableEntry (sample_ip 7 0) (sample_prefix 7),
       CreateFwdTableValue 3 0 None (Some (sample_ip 1 2)) RIPRoute) \<in> set (FwdTable r1_two_hops)"
    by code_simp
  have "mset (rev (FwdTable r1_two_hops)) = mset (FwdTable r1_two_hops)" by simp
  from split_horizon [where ord = rev, OF wf this mem, of "sample_ip 1 2"] show ?thesis
    by (auto simp: CreateFwdTableEntry_def CreateFwdTableValue_def sample_prefix_def)
qed

section \<open>Expiry\<close>

text \<open>C29: An expiry tick deletes exactly the learned routes that were not refreshed in the last
  twelve seconds or whose cost has reached infinity, in whatever order it visits the table; every
  other entry keeps its value.\<close>

theorem expiry_exact:
  assumes "fwd_wf (FwdTable n)" and "set (ord (FwdTable n)) = set (FwdTable n)"
  shows "map_of (FwdTable (PeriodicExpiry_tick now ord n)) e =
    (case map_of (FwdTable n) e of
       None \<Rightarrow> None
     | Some v \<Rightarrow>
         if RouteType v = RIPRoute \<and> (now > LastUpdatedTime v + 12000000000 \<or> Cost v \<ge> 16)
         then None else Some v)"
  by (simp add: expiry_map_of [where ord = ord, OF assms] is_expired_def EntryExpiredTime_def INFINITY_def
      less_diff_eq add.commute cong: option.case_cong)

theorem expiry_exact_witness:
  "map_of (FwdTable (PeriodicExpiry_tick 12000000001 rev r1_two_hops))
     (CreateFwdTableEntry (sample_ip 7 0) (sample_prefix 7)) = None"
proof -
  have wf: "fwd_wf (FwdTable r1_two_hops)" by code_simp
  have val: "map_of (FwdTable r1_two_hops) (CreateFwdTableEntry (sample_ip 7 0) (sample_prefix 7)) =
      Some (CreateFwdTableValue 3 0 None (Some (sample_ip 1 2)) RIPRoute)" by code_simp
  show ?thesis
    using expiry_exact [where ord = rev, OF wf set_rev, of 12000000001] val by (simp add: CreateFwdTableValue_def)
qed

section \<open>Handling a response\<close>

text \<open>C38: A table is advertised to a neighbor that can read it exactly when it has at most 64 routes:
  the packet built from a larger table, whatever its declared count, is rejected by the
  receiver's own parser, since the sender never splits it.\<close>

theorem response_readable_iff_small:
  assumes "fwd_wf (FwdTable n)" and "mset (ord (FwdTable n)) = mset (FwdTable n)"
    and "response_packet ord n a = Inr p"
  shows "(\<exists>q. UnmarshalRIPPacket (Marshal p) = Inr q) \<longleftrightarrow> length (FwdTable n) \<le> 64"
proof -
  have p: "Command p = ResponseCommand" "NumEntries p = of_nat (length (Entries p))"
      "length (Entries p) = length (FwdTable n)"
    using response_packet_advert [where ord = ord, OF assms(1) mset_eq_setD [OF assms(2)], of a]
      assms(2,3) by (auto dest: mset_eq_length)
  have sized: "sized (p\<lparr>NumEntries := 0\<rparr>) = p" by (simp add: sized_def p)
  show ?thesis
  proof
    assume "length (FwdTable n) \<le> 64"
    then have "rip_valid (p\<lparr>NumEntries := 0\<rparr>)" using p by (simp add: rip_valid_def)
    from Unmarshal_Marshal [OF this] show "\<exists>q. UnmarshalRIPPacket (Marshal p) = Inr q"
      by (simp add: sized)
  next
    assume "\<exists>q. UnmarshalRIPPacket (Marshal p) = Inr q"
    then obtain q where q: "rip_valid q" "Marshal (sized q) = Marshal p"
      using Marshal_Unmarshal by blast
    then have "length (Entries q) = length (Entries p)"
      using Marshal_fields(1) [of p] Marshal_fields(1) [of "sized q"] by (simp add: sized_def)
    with q(1) p show "length (FwdTable n) \<le> 64" by (auto simp: rip_valid_def)
  qed
qed

theorem response_readable_iff_small_witness:
  "\<exists>p q. response_packet rev r1_two_hops 0 = Inr p \<and> UnmarshalRIPPacket (Marshal p) = Inr q"
proof -
  have wf: "fwd_wf (FwdTable r1_two_hops)" by code_simp
  have "length (FwdTable r1_two_hops) \<le> 64" by code_simp
  moreover have "response_packet rev r1_two_hops 0 = Inr \<lparr>Command = ResponseCommand,
    NumEntries = of_nat (length (rev (FwdTable r1_two_hops))),
    Entries = map (advert 0) (rev (FwdTable r1_two_hops))\<rparr>"
    by (rule response_packet_advert [where ord = rev, OF wf]) simp
  ultimately show ?thesis
    using response_readable_iff_small [where ord = rev, OF wf mset_rev] by blast
qed

lemma handle_entries_infinite:
  "\<forall>x \<in> set es. INFINITY \<le> RCost x + 1 \<Longrightarrow> handle_entries now src rng s es = Inr s"
  by (induction es arbitrary: rng) (simp_all add: handle_entry_infinite)

text \<open>Poison does not withdraw a route. A response whose entries are all at infinity leaves the
  table of its receiver as it is and triggers no update, even when the receiver's routes go
  through the sender: only expiry removes them.\<close>

theorem poison_does_not_withdraw:
  assumes "rip_valid p" and "Command p = ResponseCommand"
    and "\<forall>x \<in> set (Entries p). RCost x = INFINITY"
  shows "RIPHandler P now rng rngs n (Marshal (sized p)) hdr = Inr (n, [])"
proof -
  have "handle_entries now (Src hdr) rng (n, []) (Entries p) = Inr (n, [])"
    using assms(3) by (intro handle_entries_infinite) (simp add: INFINITY_def)
  then show ?thesis
    using assms(2) by (simp add: RIPHandler_def Unmarshal_Marshal [OF assms(1)] rip_constants)
qed

definition poison :: RIPPacket where
  "poison = \<lparr>Command = ResponseCommand, NumEntries = 0,
     Entries = [\<lparr>RCost = 16, RAddress = sample_ip 7 0, RMask = CIDRMask 24\<rparr>]\<rparr>"

theorem poison_does_not_withdraw_witness:
  "RIPHandler wire_pkgs 5 (\<lambda>i t. t) (\<lambda>j i t. t) r1_two_hops (Marshal (sized poison))
     (sample_header\<lparr>Src := sample_ip 1 2\<rparr>) = Inr (r1_two_hops, [])"
  by (rule poison_does_not_withdraw) code_simp+

text \<open>The cost addition wraps. A response entry of cost 0xFFFFFFFF, for a destination no route
  covers, is learned as a route of cost zero through its sender, cheaper than any real one.\<close>

theorem cost_wraps_to_zero:
  assumes "GetEntryByPrefix ord n (RAddress x) = None" and "RCost x = 0xFFFFFFFF"
  shows "\<exists>n' u'. handle_entry now src ord (n, u) x = Inr (n', u') \<and>
    route_at n' (fresh_key x) = Some (0, Some src)"
proof -
  have wrap: "RCost x + 1 = 0" using assms(2) by simp
  then have "RCost x + 1 < INFINITY" by (simp add: INFINITY_def)
  from handle_entry_new [where ord = ord, OF this assms(1), of now src u] show ?thesis
    by (simp add: route_at_def update_conv' wrap)
qed

theorem cost_wraps_to_zero_witness:
  "\<exists>n' u'. handle_entry 5 (sample_ip 1 2) (\<lambda>t. t) (r1, []) (sample_advert\<lparr>RCost := 0xFFFFFFFF\<rparr>) =
     Inr (n', u') \<and>
     route_at n' (fresh_key (sample_advert\<lparr>RCost := 0xFFFFFFFF\<rparr>)) = Some (0, Some (sample_ip 1 2))"
  by (rule cost_wraps_to_zero) code_simp+

definition covering_node :: "unit NetworkLayer" where
  "covering_node = r1\<lparr>FwdTable := FwdTable r1 @
     [(CreateFwdTableEntry 0x0A070000 \<lparr>PAddr = 0x0A070000, Bits = 16\<rparr>,
       CreateFwdTableValue 3 0 None (Some (sample_ip 0 1)) RIPRoute)]\<rparr>"

definition subnet_advert :: RIPEntry where
  "subnet_advert = \<lparr>RCost = 1, RAddress = 0x0A070500, RMask = CIDRMask 24\<rparr>"

text \<open>A more specific route is not added beside a covering one but written over it. From a
  router with a learned route to 10.7.0.0/16, the advertisement of 10.7.5.0/24 at a lower cost
  changes the route to all of 10.7.0.0/16: the table has no entry for the /24, and 10.7.9.9,
  which the sender did not advertise, now goes to the sender.\<close>

theorem subnet_overwrites_covering_route:
  "\<exists>n' u'. handle_entry 5 (sample_ip 1 2) (\<lambda>t. t) (covering_node, []) subnet_advert = Inr (n', u') \<and>
     getNextHopbyDestIP (\<lambda>t. t) covering_node 0x0A070909 = Some (sample_ip 0 1) \<and>
     getNextHopbyDestIP (\<lambda>t. t) n' 0x0A070909 = Some (sample_ip 1 2) \<and>
     map_of (FwdTable n') (fresh_key subnet_advert) = None"
proof -
  let ?e = "CreateFwdTableEntry 0x0A070000 \<lparr>PAddr = 0x0A070000, Bits = 16\<rparr>"
  let ?n' = "covering_node\<lparr>FwdTable := AList.update ?e
    (CreateFwdTableValue 2 5 None (Some (sample_ip 1 2)) RIPRoute) (FwdTable covering_node)\<rparr>"
  have "handle_entry 5 (sample_ip 1 2) (\<lambda>t. t) (covering_node, []) subnet_advert =
      Inr (?n', [advertised subnet_advert])"
    by code_simp
  moreover have "getNextHopbyDestIP (\<lambda>t. t) covering_node 0x0A070909 = Some (sample_ip 0 1)"
    by code_simp
  moreover have "getNextHopbyDestIP (\<lambda>t. t) ?n' 0x0A070909 = Some (sample_ip 1 2)" by code_simp
  moreover have "map_of (FwdTable ?n') (fresh_key subnet_advert) = None" by code_simp
  ultimately show ?thesis by blast
qed

end
