(* ===== verification/TcpTypes.thy ===== *)
theory TcpTypes
  imports Protocol
begin

text \<open>
  The data of the TCP layer (\<open>pkg/tcp/types.go\<close>, \<open>utils.go\<close>, \<open>queue.go\<close>): connection states in the
  order of the source's constants, header fields, packets, queue items, and the wire form of a
  packet. Laying out and reading the header's fields is code of
  \<open>github.com/google/netstack/tcpip/header\<close>: it is the argument \<open>T\<close> of the definitions that use
  it, and \<open>tcp_pkgs_ok\<close> states what the layer relies on.
\<close>

section \<open>Connection states\<close>

datatype TCPState = CLOSED | LISTEN | SYN_SENT | SYN_RECEIVED | ESTABLISHED | FIN_WAIT_1
  | FIN_WAIT_2 | CLOSE_WAIT | CLOSING | LAST_ACK | TIME_WAIT

text \<open>The value of the \<open>iota\<close> constant; the source compares states with \<open><\<close>.\<close>

primrec state_num :: "TCPState \<Rightarrow> nat" where
  "state_num CLOSED = 0" | "state_num LISTEN = 1" | "state_num SYN_SENT = 2"
| "state_num SYN_RECEIVED = 3" | "state_num ESTABLISHED = 4" | "state_num FIN_WAIT_1 = 5"
| "state_num FIN_WAIT_2 = 6" | "state_num CLOSE_WAIT = 7" | "state_num CLOSING = 8"
| "state_num LAST_ACK = 9" | "state_num TIME_WAIT = 10"

lemma state_num_inj: "state_num s = state_num t \<Longrightarrow> s = t"
  by (cases s; cases t) simp_all

instantiation TCPState :: linorder
begin

definition less_eq_TCPState :: "TCPState \<Rightarrow> TCPState \<Rightarrow> bool" where
  "less_eq_TCPState s t \<longleftrightarrow> state_num s \<le> state_num t"

definition less_TCPState :: "TCPState \<Rightarrow> TCPState \<Rightarrow> bool" where
  "less_TCPState s t \<longleftrightarrow> state_num s < state_num t"

instance
  by standard (auto simp: less_eq_TCPState_def less_TCPState_def intro: state_num_inj)

end

fun ConvertStateToString :: "TCPState \<Rightarrow> string" where
  "ConvertStateToString CLOSED = ''CLOSED''"
| "ConvertStateToString LISTEN = ''LISTEN''"
| "ConvertStateToString SYN_SENT = ''SYN_SENT''"
| "ConvertStateToString SYN_RECEIVED = ''SYN_RECEIVED''"
| "ConvertStateToString ESTABLISHED = ''ESTABLISHED''"
| "ConvertStateToString FIN_WAIT_1 = ''FIN_WAIT_1''"
| "ConvertStateToString FIN_WAIT_2 = ''FIN_WAIT_2''"
| "ConvertStateToString CLOSE_WAIT = ''CLOSE_WAIT''"
| "ConvertStateToString CLOSING = ''CLOSING''"
| "ConvertStateToString LAST_ACK = ''LAST_ACK''"
| "ConvertStateToString TIME_WAIT = ''TIME_WAIT''"

lemma ConvertStateToString_inj: "ConvertStateToString s = ConvertStateToString t \<longleftrightarrow> s = t"
  by (cases s; cases t) simp_all

section \<open>Packets\<close>

definition TCPHeaderLen :: u8 where "TCPHeaderLen = 20"
definition TCPProtocolNum :: u8 where "TCPProtocolNum = 6"
definition MaxBufferSize :: int where "MaxBufferSize = 65535"
definition MaxSegmentSize :: int where "MaxSegmentSize = 1024"

definition TCPFlagFin :: u8 where "TCPFlagFin = 1"
definition TCPFlagSyn :: u8 where "TCPFlagSyn = 2"
definition TCPFlagAck :: u8 where "TCPFlagAck = 16"

lemmas tcp_flags = TCPFlagFin_def TCPFlagSyn_def TCPFlagAck_def

record TCPFields =
  SrcPort :: u16
  DstPort :: u16
  SeqNum :: u32
  AckNum :: u32
  DataOffset :: u8
  Flags :: u8
  WindowSize :: u16
  TChecksum :: u16
  UrgentPointer :: u16

record TCPPacket =
  SrcIP :: Addr
  Header :: TCPFields
  Data :: "u8 list"

record VTCPConn =
  LocalIP :: Addr
  LocalPort :: u16
  RemoteIP :: Addr
  RemotePort :: u16

record TCPSegmentItem =
  Index :: int
  Priority :: int
  Value :: TCPPacket
  SentTime :: int
  WasRT :: bool
  IsZWP :: bool

section \<open>The wire form\<close>

text \<open>\<open>header.TCP.Encode\<close> and the accessors of \<open>header.TCP\<close>, taken together.\<close>

record tcp_pkgs =
  EncodeTCP :: "TCPFields \<Rightarrow> u8 list"
  FieldsTCP :: "u8 list \<Rightarrow> TCPFields res"

definition UnmarshalHeader :: "tcp_pkgs \<Rightarrow> u8 list \<Rightarrow> TCPFields res" where
  "UnmarshalHeader T b =
     (case FieldsTCP T b of
        Inl e \<Rightarrow> Inl e
      | Inr td \<Rightarrow>
          Inr \<lparr>SrcPort = SrcPort td, DstPort = DstPort td, SeqNum = SeqNum td, AckNum = AckNum td,
               DataOffset = DataOffset td, Flags = Flags td, WindowSize = WindowSize td,
               TChecksum = TChecksum td, UrgentPointer = 0\<rparr>)"

definition UnmarshalTCPPacket :: "tcp_pkgs \<Rightarrow> u8 list \<Rightarrow> Addr \<Rightarrow> TCPPacket res" where
  "UnmarshalTCPPacket T rawMsg srcIP =
     (case UnmarshalHeader T rawMsg of
        Inl e \<Rightarrow> Inl e
      | Inr tcpHeader \<Rightarrow>
          (case go_slice rawMsg (uint (DataOffset tcpHeader)) (int (length rawMsg)) of
             Inl e \<Rightarrow> Inl e
           | Inr data \<Rightarrow> Inr \<lparr>SrcIP = srcIP, Header = tcpHeader, Data = data\<rparr>))"

definition MarshalTCP :: "tcp_pkgs \<Rightarrow> TCPPacket \<Rightarrow> u8 list" where
  "MarshalTCP T p = EncodeTCP T (Header p) @ Data p"

text \<open>
  What the layer relies on, as the package documents it: a header without options takes 20 bytes,
  and the accessors read back the fields that were encoded, whatever follows.
\<close>

definition tcp_hdr_ok :: "TCPFields \<Rightarrow> bool" where
  "tcp_hdr_ok f \<longleftrightarrow> DataOffset f = TCPHeaderLen \<and> UrgentPointer f = 0"

definition tcp_pkgs_ok :: "tcp_pkgs \<Rightarrow> bool" where
  "tcp_pkgs_ok T \<longleftrightarrow> (\<forall>f data. tcp_hdr_ok f \<longrightarrow>
     length (EncodeTCP T f) = 20 \<and> FieldsTCP T (EncodeTCP T f @ data) = Inr f)"

text \<open>The layout of RFC 793: the argument the witnesses run on.\<close>

definition wire_encode :: "TCPFields \<Rightarrow> u8 list" where
  "wire_encode f = put_uint16 (SrcPort f) @ put_uint16 (DstPort f) @ put_uint32 (SeqNum f) @
     put_uint32 (AckNum f) @ [push_bit 2 (DataOffset f), Flags f] @ put_uint16 (WindowSize f) @
     put_uint16 (TChecksum f) @ put_uint16 (UrgentPointer f)"

definition wire_fields :: "u8 list \<Rightarrow> TCPFields res" where
  "wire_fields b =
     (if length b < 20 then Inl (Panic IndexOutOfRange)
      else Inr \<lparr>SrcPort = get_uint16 b, DstPort = get_uint16 (drop 2 b),
                SeqNum = get_uint32 (drop 4 b), AckNum = get_uint32 (drop 8 b),
                DataOffset = push_bit 2 (drop_bit 4 (b ! 12)), Flags = b ! 13,
                WindowSize = get_uint16 (drop 14 b), TChecksum = get_uint16 (drop 16 b),
                UrgentPointer = get_uint16 (drop 18 b)\<rparr>)"

definition wire_tcp :: tcp_pkgs where
  "wire_tcp = \<lparr>EncodeTCP = wire_encode, FieldsTCP = wire_fields\<rparr>"

lemma wire_tcp_ok: "tcp_pkgs_ok wire_tcp"
proof -
  have "wire_fields (wire_encode f @ data) = Inr f" if "tcp_hdr_ok f" for f data
    using that
    by (simp add: wire_fields_def wire_encode_def tcp_hdr_ok_def TCPHeaderLen_def nth_append)
  then show ?thesis
    by (simp add: tcp_pkgs_ok_def wire_tcp_def wire_encode_def)
qed

lemma Unmarshal_MarshalTCP:
  assumes "tcp_pkgs_ok T" "tcp_hdr_ok (Header p)"
  shows "UnmarshalTCPPacket T (MarshalTCP T p) src = Inr (p\<lparr>SrcIP := src\<rparr>)"
proof -
  have enc: "length (EncodeTCP T (Header p)) = 20"
      "FieldsTCP T (EncodeTCP T (Header p) @ Data p) = Inr (Header p)"
    using assms by (simp_all add: tcp_pkgs_ok_def)
  have "UnmarshalHeader T (MarshalTCP T p) = Inr (Header p)"
    using assms(2) by (simp add: UnmarshalHeader_def MarshalTCP_def enc tcp_hdr_ok_def)
  moreover have "go_slice (EncodeTCP T (Header p) @ Data p) 20 (20 + int (length (Data p))) =
      Inr (Data p)"
    using go_slice_middle [of "EncodeTCP T (Header p)" "Data p" "[]"] by (simp add: enc)
  ultimately show ?thesis
    using assms(2)
    by (simp add: UnmarshalTCPPacket_def MarshalTCP_def tcp_hdr_ok_def TCPHeaderLen_def enc)
qed

end
