(* ===== verification/SegmentQueue.thy ===== *)
theory SegmentQueue
  imports TcpTypes
begin

text \<open>
  The two queues of segments (\<open>pkg/tcp/queue.go\<close>): the early-arrival queue, a binary heap ordered
  by sequence number that \<open>container/heap\<close> maintains through the methods the source defines, and
  the retransmission queue, a slice used first in, first out. Each is presented to the socket as
  a locale: a priority queue of segments and a queue.
\<close>

section \<open>The heap interface\<close>

type_synonym PriorityQueue = "TCPSegmentItem list"

definition Less :: "PriorityQueue \<Rightarrow> nat \<Rightarrow> nat \<Rightarrow> bool" where
  "Less pq i j \<longleftrightarrow> Priority (pq ! i) < Priority (pq ! j)"

definition Swap :: "PriorityQueue \<Rightarrow> nat \<Rightarrow> nat \<Rightarrow> PriorityQueue" where
  "Swap pq i j = pq[i := (pq ! j)\<lparr>Index := int i\<rparr>, j := (pq ! i)\<lparr>Index := int j\<rparr>]"

definition Push :: "PriorityQueue \<Rightarrow> TCPSegmentItem \<Rightarrow> PriorityQueue" where
  "Push pq x = pq @ [x\<lparr>Index := int (length pq)\<rparr>]"

definition Pop :: "PriorityQueue \<Rightarrow> (TCPSegmentItem \<times> PriorityQueue) res" where
  "Pop pq = (if pq = [] then Inl (Panic IndexOutOfRange)
             else Inr ((last pq)\<lparr>Index := -1\<rparr>, butlast pq))"

section \<open>container/heap\<close>

text \<open>\<open>up\<close>, \<open>down\<close>, \<open>Push\<close> and \<open>Pop\<close> of the standard library, over the methods above.\<close>

definition par :: "nat \<Rightarrow> nat" where
  "par k = (k - 1) div 2"

function heap_up :: "PriorityQueue \<Rightarrow> nat \<Rightarrow> PriorityQueue" where
  "heap_up pq j =
     (let i = par j in if i = j \<or> \<not> Less pq j i then pq else heap_up (Swap pq i j) i)"
  by pat_completeness auto
termination
  by (relation "measure snd") (auto simp: par_def)

function heap_down :: "PriorityQueue \<Rightarrow> nat \<Rightarrow> nat \<Rightarrow> PriorityQueue" where
  "heap_down pq i n =
     (let j1 = 2 * i + 1
      in if n \<le> j1 then pq
         else let j2 = j1 + 1; j = (if j2 < n \<and> Less pq j2 j1 then j2 else j1)
              in if \<not> Less pq j i then pq else heap_down (Swap pq i j) j n)"
  by pat_completeness auto
termination
  by (relation "measure (\<lambda>(pq, i, n). n - i)") (auto simp: Let_def)

declare heap_up.simps [simp del] heap_down.simps [simp del]

definition heap_Push :: "PriorityQueue \<Rightarrow> TCPSegmentItem \<Rightarrow> PriorityQueue" where
  "heap_Push pq x = (let pq' = Push pq x in heap_up pq' (length pq' - 1))"

definition heap_Pop :: "PriorityQueue \<Rightarrow> (TCPSegmentItem \<times> PriorityQueue) res" where
  "heap_Pop pq =
     (if pq = [] then Inl (Panic IndexOutOfRange)
      else let n = length pq - 1 in Pop (heap_down (Swap pq 0 n) 0 n))"

section \<open>The retransmission queue\<close>

definition enqueue :: "TCPSegmentItem list \<Rightarrow> TCPSegmentItem \<Rightarrow> TCPSegmentItem list" where
  "enqueue queue element = queue @ [element]"

definition dequeue :: "TCPSegmentItem list \<Rightarrow> (TCPSegmentItem \<times> TCPSegmentItem list) res" where
  "dequeue queue =
     (if queue = [] then Inl (Panic IndexOutOfRange)
      else if length queue = 1 then Inr (queue ! 0, []) else Inr (queue ! 0, drop 1 queue))"

section \<open>Heap order\<close>

text \<open>The order holds among the first \<open>n\<close> positions.\<close>

definition heap_upto :: "nat \<Rightarrow> PriorityQueue \<Rightarrow> bool" where
  "heap_upto n pq \<longleftrightarrow> (\<forall>k < n. 0 < k \<longrightarrow> Priority (pq ! par k) \<le> Priority (pq ! k))"

abbreviation heap_ok :: "PriorityQueue \<Rightarrow> bool" where
  "heap_ok pq \<equiv> heap_upto (length pq) pq"

text \<open>The items of a queue, without the positions the heap notes in them.\<close>

definition contents :: "TCPSegmentItem list \<Rightarrow> TCPSegmentItem multiset" where
  "contents pq = mset (map (\<lambda>x. x\<lparr>Index := 0\<rparr>) pq)"

lemma par_less: "0 < k \<Longrightarrow> par k < k"
  by (auto simp: par_def)

lemma par_iff: "0 < k \<Longrightarrow> par k = i \<longleftrightarrow> k = 2 * i + 1 \<or> k = 2 * i + 2"
  by (auto simp: par_def)

lemma length_Swap [simp]: "length (Swap pq i j) = length pq"
  by (simp add: Swap_def)

lemma Priority_Swap:
  "i < length pq \<Longrightarrow> j < length pq \<Longrightarrow> Priority (Swap pq i j ! k) =
     (if k = i then Priority (pq ! j) else if k = j then Priority (pq ! i) else Priority (pq ! k))"
  by (auto simp: Swap_def nth_list_update)

lemma contents_Swap:
  assumes "i < length pq" "j < length pq"
  shows "contents (Swap pq i j) = contents pq"
proof -
  let ?f = "\<lambda>x :: TCPSegmentItem. x\<lparr>Index := 0\<rparr>"
  have "map ?f (Swap pq i j) = (map ?f pq)[i := map ?f pq ! j, j := map ?f pq ! i]"
    using assms by (simp add: Swap_def map_update)
  then show ?thesis
    using assms mset_swap [of j "map ?f pq" i] by (simp only: contents_def length_map)
qed

lemma length_heap_up [simp]: "length (heap_up pq j) = length pq"
  by (induction pq j rule: heap_up.induct) (subst heap_up.simps, simp add: Let_def)

lemma length_heap_down [simp]: "length (heap_down pq i n) = length pq"
  by (induction pq i n rule: heap_down.induct) (subst heap_down.simps, simp add: Let_def)

lemma contents_heap_up: "j < length pq \<Longrightarrow> contents (heap_up pq j) = contents pq"
proof (induction pq j rule: heap_up.induct)
  case (1 pq j)
  show ?case
  proof (cases "par j = j \<or> \<not> Less pq j (par j)")
    case True
    then show ?thesis by (subst heap_up.simps) (simp add: Let_def)
  next
    case False
    then have "par j < length pq" using 1(2) par_less [of j] by (cases j) (auto simp: par_def)
    with False 1 show ?thesis
      by (subst heap_up.simps) (simp add: Let_def contents_Swap)
  qed
qed

text \<open>\<open>up\<close> repairs an order that fails at most between \<open>j\<close> and its parent.\<close>

definition up_inv :: "PriorityQueue \<Rightarrow> nat \<Rightarrow> bool" where
  "up_inv pq j \<longleftrightarrow>
     (\<forall>k < length pq. 0 < k \<and> k \<noteq> j \<longrightarrow> Priority (pq ! par k) \<le> Priority (pq ! k)) \<and>
     (\<forall>k < length pq. 0 < k \<and> par k = j \<and> 0 < j \<longrightarrow> Priority (pq ! par j) \<le> Priority (pq ! k))"

lemma up_inv_step:
  assumes "up_inv pq j" "j < length pq" "0 < j" "Less pq j (par j)"
  shows "up_inv (Swap pq (par j) j) (par j)"
proof -
  let ?i = "par j" and ?p = "\<lambda>k. Priority (pq ! k)"
  have ij: "?i < j" using assms(3) by (rule par_less)
  have sw: "Priority (Swap pq ?i j ! k) = (if k = ?i then ?p j else if k = j then ?p ?i else ?p k)" for k
    using ij assms(2) by (simp add: Priority_Swap)
  have lt: "?p j < ?p ?i" using assms(4) by (simp add: Less_def)
  have ord: "\<And>k. k < length pq \<Longrightarrow> 0 < k \<Longrightarrow> k \<noteq> j \<Longrightarrow> ?p (par k) \<le> ?p k"
    and kid: "\<And>k. k < length pq \<Longrightarrow> 0 < k \<Longrightarrow> par k = j \<Longrightarrow> ?p ?i \<le> ?p k"
    using assms(1,3) by (auto simp: up_inv_def)
  show ?thesis
    unfolding up_inv_def sw length_Swap
  proof (intro conjI allI impI; elim conjE)
    fix k assume k: "k < length pq" "0 < k" "k \<noteq> ?i"
    show "(if par k = ?i then ?p j else if par k = j then ?p ?i else ?p (par k)) \<le>
        (if k = ?i then ?p j else if k = j then ?p ?i else ?p k)"
      using k lt ord [OF k(1,2)] kid [OF k(1,2)] ij par_less [OF k(2)] by auto
  next
    fix k assume k: "k < length pq" "0 < k" "par k = ?i" "0 < ?i"
    have "?p (par ?i) \<le> ?p ?i" using ord [of ?i] k(4) ij assms(2) by simp
    then show "(if par ?i = ?i then ?p j else if par ?i = j then ?p ?i else ?p (par ?i)) \<le>
        (if k = ?i then ?p j else if k = j then ?p ?i else ?p k)"
      using k ord [OF k(1,2)] ij par_less [OF k(4)] par_less [OF k(2)] by auto
  qed
qed

lemma heap_up_ok: "up_inv pq j \<Longrightarrow> j < length pq \<Longrightarrow> heap_ok (heap_up pq j)"
proof (induction pq j rule: heap_up.induct)
  case (1 pq j)
  show ?case
  proof (cases "par j = j \<or> \<not> Less pq j (par j)")
    case True
    then have "\<forall>k < length pq. 0 < k \<longrightarrow> Priority (pq ! par k) \<le> Priority (pq ! k)"
      using 1(2) par_less [of j] by (force simp: up_inv_def Less_def)
    with True show ?thesis by (subst heap_up.simps) (simp add: Let_def heap_upto_def)
  next
    case False
    then have "0 < j" by (cases j) (auto simp: par_def)
    then have "up_inv (Swap pq (par j) j) (par j)" "par j < length pq"
      using False 1(2,3) up_inv_step par_less [of j] by auto
    with False 1(1) [OF refl False] show ?thesis
      by (subst heap_up.simps) (simp add: Let_def)
  qed
qed

text \<open>\<open>down\<close> repairs an order that fails at most between \<open>i\<close> and its children.\<close>

definition down_inv :: "PriorityQueue \<Rightarrow> nat \<Rightarrow> nat \<Rightarrow> bool" where
  "down_inv pq i n \<longleftrightarrow>
     (\<forall>k < n. 0 < k \<and> par k \<noteq> i \<longrightarrow> Priority (pq ! par k) \<le> Priority (pq ! k)) \<and>
     (\<forall>k < n. 0 < k \<and> par k = i \<and> 0 < i \<longrightarrow> Priority (pq ! par i) \<le> Priority (pq ! k))"

definition min_child :: "PriorityQueue \<Rightarrow> nat \<Rightarrow> nat \<Rightarrow> nat" where
  "min_child pq i n =
     (if 2 * i + 2 < n \<and> Less pq (2 * i + 2) (2 * i + 1) then 2 * i + 2 else 2 * i + 1)"

lemma heap_down_unfold:
  "heap_down pq i n =
     (if n \<le> 2 * i + 1 \<or> \<not> Less pq (min_child pq i n) i then pq
      else heap_down (Swap pq i (min_child pq i n)) (min_child pq i n) n)"
  by (subst heap_down.simps) (simp add: Let_def min_child_def)

lemma min_child:
  assumes "2 * i + 1 < n"
  shows "min_child pq i n < n" "par (min_child pq i n) = i" "i < min_child pq i n"
    and "k < n \<Longrightarrow> 0 < k \<Longrightarrow> par k = i \<Longrightarrow> Priority (pq ! min_child pq i n) \<le> Priority (pq ! k)"
  using assms by (auto simp: min_child_def Less_def par_iff)

lemma down_inv_step:
  assumes "down_inv pq i n" "2 * i + 1 < n" "n \<le> length pq" "Less pq (min_child pq i n) i"
  shows "down_inv (Swap pq i (min_child pq i n)) (min_child pq i n) n"
proof -
  let ?j = "min_child pq i n" and ?p = "\<lambda>k. Priority (pq ! k)"
  note mc = min_child [where pq = pq, OF assms(2)]
  have sw: "Priority (Swap pq i ?j ! k) = (if k = i then ?p ?j else if k = ?j then ?p i else ?p k)" for k
    using mc(1,3) assms(3) by (simp add: Priority_Swap)
  have lt: "?p ?j < ?p i" using assms(4) by (simp add: Less_def)
  have ord: "\<And>k. k < n \<Longrightarrow> 0 < k \<Longrightarrow> par k \<noteq> i \<Longrightarrow> ?p (par k) \<le> ?p k"
    and kid: "\<And>k. k < n \<Longrightarrow> 0 < k \<Longrightarrow> par k = i \<Longrightarrow> 0 < i \<Longrightarrow> ?p (par i) \<le> ?p k"
    using assms(1) by (auto simp: down_inv_def)
  show ?thesis
    unfolding down_inv_def sw
  proof (intro conjI allI impI; elim conjE)
    fix k assume k: "k < n" "0 < k" "par k \<noteq> ?j"
    show "(if par k = i then ?p ?j else if par k = ?j then ?p i else ?p (par k)) \<le>
        (if k = i then ?p ?j else if k = ?j then ?p i else ?p k)"
    proof (cases "k = i")
      case True
      then show ?thesis using k kid [of ?j] mc par_less [of i] by auto
    next
      case False
      then show ?thesis using k lt ord [OF k(1,2)] mc(2) mc(4) [OF k(1,2)] by auto
    qed
  next
    fix k assume k: "k < n" "0 < k" "par k = ?j" "0 < ?j"
    then have "k \<noteq> i" "k \<noteq> ?j" using mc(3) par_less [of k] by auto
    then show "(if par ?j = i then ?p ?j else if par ?j = ?j then ?p i else ?p (par ?j)) \<le>
        (if k = i then ?p ?j else if k = ?j then ?p i else ?p k)"
      using k ord [OF k(1,2)] mc(2,3) by auto
  qed
qed

lemma heap_down_ok:
  "down_inv pq i n \<Longrightarrow> n \<le> length pq \<Longrightarrow> heap_upto n (heap_down pq i n)"
proof (induction "n - i" arbitrary: pq i rule: less_induct)
  case less
  show ?case
  proof (cases "n \<le> 2 * i + 1 \<or> \<not> Less pq (min_child pq i n) i")
    case True
    have "Priority (pq ! i) \<le> Priority (pq ! k)" if "k < n" "0 < k" "par k = i" for k
    proof -
      have "2 * i + 1 < n" using that by (auto simp: par_iff)
      moreover from this True have "Priority (pq ! i) \<le> Priority (pq ! min_child pq i n)"
        by (simp add: Less_def)
      ultimately show ?thesis using min_child(4) [of i n k pq] that by simp
    qed
    then have "heap_upto n pq" using less(2) by (fastforce simp: heap_upto_def down_inv_def)
    with True show ?thesis by (subst heap_down_unfold) simp
  next
    case False
    then have "2 * i + 1 < n" "Less pq (min_child pq i n) i" by auto
    with less(2,3) have "down_inv (Swap pq i (min_child pq i n)) (min_child pq i n) n"
      by (intro down_inv_step) auto
    then have "heap_upto n (heap_down (Swap pq i (min_child pq i n)) (min_child pq i n) n)"
      using less(3) min_child(1,3) [where pq = pq, OF \<open>2 * i + 1 < n\<close>] by (intro less(1)) auto
    with False show ?thesis by (subst heap_down_unfold) simp
  qed
qed

lemma contents_heap_down: "n \<le> length pq \<Longrightarrow> contents (heap_down pq i n) = contents pq"
proof (induction "n - i" arbitrary: pq i rule: less_induct)
  case less
  show ?case
  proof (cases "n \<le> 2 * i + 1 \<or> \<not> Less pq (min_child pq i n) i")
    case False
    then have "2 * i + 1 < n" by auto
    with False less show ?thesis
      using min_child(1,3) [of i n pq] by (subst heap_down_unfold) (simp add: contents_Swap)
  qed (subst heap_down_unfold, simp)
qed

lemma heap_down_above: "n \<le> k \<Longrightarrow> k < length pq \<Longrightarrow> n \<le> length pq \<Longrightarrow> heap_down pq i n ! k = pq ! k"
proof (induction "n - i" arbitrary: pq i rule: less_induct)
  case less
  show ?case
  proof (cases "n \<le> 2 * i + 1 \<or> \<not> Less pq (min_child pq i n) i")
    case False
    then have "2 * i + 1 < n" by auto
    with False less show ?thesis
      using min_child(1,3) [of i n pq] by (subst heap_down_unfold) (simp add: Swap_def)
  qed (subst heap_down_unfold, simp)
qed

lemma heap_root_least:
  assumes "heap_upto n pq" "k < n"
  shows "Priority (pq ! 0) \<le> Priority (pq ! k)"
  using assms(2)
proof (induction k rule: less_induct)
  case (less k)
  show ?case
  proof (cases "k = 0")
    case False
    then have "Priority (pq ! 0) \<le> Priority (pq ! par k)" "Priority (pq ! par k) \<le> Priority (pq ! k)"
      using less assms(1) par_less [of k] by (auto simp: heap_upto_def)
    then show ?thesis by simp
  qed simp
qed

section \<open>The contracts\<close>

text \<open>Up to \<open>n\<close> removals from a queue with the removal \<open>pop\<close>: what came out, and what is left.\<close>

fun pops :: "('q \<Rightarrow> ('a \<times> 'q) res) \<Rightarrow> nat \<Rightarrow> 'q \<Rightarrow> 'a list \<times> 'q" where
  "pops pop 0 q = ([], q)"
| "pops pop (Suc n) q =
     (case pop q of
        Inl e \<Rightarrow> ([], q)
      | Inr (x, q') \<Rightarrow> (let (xs, q'') = pops pop n q' in (x # xs, q'')))"

text \<open>
  A priority queue as its client sees it: \<open>view\<close> forgets what the queue notes in an item,
  \<open>items\<close> are the viewed items in the queue, and the front is one of least key.
\<close>

locale priority_queue =
  fixes len :: "'q \<Rightarrow> nat" and push :: "'q \<Rightarrow> 'a \<Rightarrow> 'q" and pop :: "'q \<Rightarrow> ('a \<times> 'q) res"
    and front :: "'q \<Rightarrow> 'a" and key :: "'a \<Rightarrow> int" and view :: "'a \<Rightarrow> 'a"
    and items :: "'q \<Rightarrow> 'a multiset" and inv :: "'q \<Rightarrow> bool"
  assumes len_items: "len q = size (items q)"
    and push_inv: "inv q \<Longrightarrow> inv (push q x)"
    and push_items: "inv q \<Longrightarrow> items (push q x) = add_mset (view x) (items q)"
    and pop_front: "inv q \<Longrightarrow> 0 < len q \<Longrightarrow> \<exists>x q'. pop q = Inr (x, q') \<and> inv q' \<and>
          view x = view (front q) \<and> items q = add_mset (view x) (items q')"
    and front_least: "inv q \<Longrightarrow> y \<in># items q \<Longrightarrow> key (front q) \<le> key y"
    and key_view: "key (view x) = key x"
begin

lemma pop_least:
  assumes "inv q" "0 < len q"
  shows "\<exists>x q'. pop q = Inr (x, q') \<and> inv q' \<and> items q = add_mset (view x) (items q') \<and>
    (\<forall>y \<in># items q'. key x \<le> key y)"
proof -
  from pop_front [OF assms] obtain x q' where x: "pop q = Inr (x, q')" "inv q'"
    "view x = view (front q)" "items q = add_mset (view x) (items q')" by blast
  moreover have "key x = key (front q)" using x(3) key_view by metis
  ultimately show ?thesis using front_least [OF assms(1)] by auto
qed

lemma pops_sorted:
  "inv q \<Longrightarrow> len q = n \<Longrightarrow> \<exists>xs q'. pops pop n q = (xs, q') \<and> sorted (map key xs) \<and>
     mset (map view xs) = items q \<and> items q' = {#}"
proof (induction n arbitrary: q)
  case 0
  then show ?case by (simp add: len_items)
next
  case (Suc n)
  then obtain x q' where x: "pop q = Inr (x, q')" "inv q'" "items q = add_mset (view x) (items q')"
      "\<forall>y \<in># items q'. key x \<le> key y"
    using pop_least [of q] by auto
  have "len q' = n" using Suc.prems(2) x(3) by (simp add: len_items)
  from Suc.IH [OF x(2) this] obtain xs q'' where xs: "pops pop n q' = (xs, q'')"
      "sorted (map key xs)" "mset (map view xs) = items q'" "items q'' = {#}" by blast
  have "key x \<le> key y" if "y \<in> set xs" for y
  proof -
    have "view y \<in># items q'" using that by (simp flip: xs(3))
    then show ?thesis using x(4) key_view by metis
  qed
  with x xs show ?case by simp
qed

lemma pushes_items:
  "inv q \<Longrightarrow> inv (foldl push q xs) \<and> items (foldl push q xs) = items q + mset (map view xs)"
  by (induction xs arbitrary: q) (simp_all add: push_inv push_items)

end

text \<open>A first-in-first-out queue: \<open>list\<close> is what it holds, oldest first.\<close>

locale fifo_queue =
  fixes enq :: "'q \<Rightarrow> 'a \<Rightarrow> 'q" and deq :: "'q \<Rightarrow> ('a \<times> 'q) res" and list :: "'q \<Rightarrow> 'a list"
  assumes enq_list: "list (enq q x) = list q @ [x]"
    and deq_list: "list q = x # xs \<Longrightarrow> \<exists>q'. deq q = Inr (x, q') \<and> list q' = xs"
begin

lemma enqs_list: "list (foldl enq q xs) = list q @ xs"
  by (induction xs arbitrary: q) (simp_all add: enq_list)

lemma pops_in_order: "n \<le> length (list q) \<Longrightarrow>
   \<exists>q'. pops deq n q = (take n (list q), q') \<and> list q' = drop n (list q)"
proof (induction n arbitrary: q)
  case (Suc n)
  then obtain x xs where q: "list q = x # xs" by (cases "list q") auto
  from deq_list [OF q] obtain q' where q': "deq q = Inr (x, q')" "list q' = xs" by blast
  with Suc q Suc.IH [of q'] show ?case by auto
qed simp

end

section \<open>The queues meet them\<close>

lemma size_contents [simp]: "size (contents pq) = length pq"
  by (simp add: contents_def)

lemma heap_Push_eq: "heap_Push pq x = heap_up (Push pq x) (length pq)"
  by (simp add: heap_Push_def Push_def Let_def)

lemma heap_ok_Push: "heap_ok pq \<Longrightarrow> heap_ok (heap_Push pq x)"
proof -
  assume h: "heap_ok pq"
  have "up_inv (Push pq x) (length pq)"
    unfolding up_inv_def
  proof (intro conjI allI impI; elim conjE)
    fix k assume k: "k < length (Push pq x)" "0 < k" "k \<noteq> length pq"
    then have "k < length pq" by (simp add: Push_def)
    with h k(2) par_less [OF k(2)]
    show "Priority (Push pq x ! par k) \<le> Priority (Push pq x ! k)"
      by (simp add: heap_upto_def Push_def nth_append)
  next
    fix k assume k: "k < length (Push pq x)" "0 < k" "par k = length pq"
    then show "Priority (Push pq x ! par (length pq)) \<le> Priority (Push pq x ! k)"
      using par_less [OF k(2)] by (simp add: Push_def)
  qed
  then show ?thesis
    unfolding heap_Push_eq by (rule heap_up_ok) (simp add: Push_def)
qed

lemma contents_Push: "contents (heap_Push pq x) = add_mset (x\<lparr>Index := 0\<rparr>) (contents pq)"
proof -
  have "contents (heap_Push pq x) = contents (Push pq x)"
    unfolding heap_Push_eq by (rule contents_heap_up) (simp add: Push_def)
  then show ?thesis by (simp add: Push_def contents_def)
qed

lemma heap_Pop_ok:
  assumes "heap_ok pq" "0 < length pq"
  shows "\<exists>x pq'. heap_Pop pq = Inr (x, pq') \<and> heap_ok pq' \<and> x\<lparr>Index := 0\<rparr> = (pq ! 0)\<lparr>Index := 0\<rparr> \<and>
    contents pq = add_mset (x\<lparr>Index := 0\<rparr>) (contents pq')"
proof -
  define n where "n = length pq - 1"
  define d where "d = heap_down (Swap pq 0 n) 0 n"
  have n: "n < length pq" "0 < length pq" "length d = Suc n"
    using assms(2) by (simp_all add: n_def d_def)
  have "down_inv (Swap pq 0 n) 0 n"
    unfolding down_inv_def
  proof (intro conjI allI impI; elim conjE)
    fix k assume k: "k < n" "0 < k" "par k \<noteq> 0"
    then have "par k < n" "k < length pq" using par_less [OF k(2)] n by auto
    with k assms(1) n show "Priority (Swap pq 0 n ! par k) \<le> Priority (Swap pq 0 n ! k)"
      by (simp add: Priority_Swap heap_upto_def)
  qed simp
  then have up: "heap_upto n d" using n(1) heap_down_ok [of "Swap pq 0 n" 0 n] by (simp add: d_def)
  have "d ! n = Swap pq 0 n ! n" using n(1) by (simp add: d_def heap_down_above)
  moreover have "d \<noteq> []" using n(3) by auto
  ultimately have last: "last d = (pq ! 0)\<lparr>Index := int n\<rparr>"
    using n by (simp add: last_conv_nth Swap_def)
  have split: "d = butlast d @ [last d]" using \<open>d \<noteq> []\<close> by simp
  have "contents d = contents pq"
    using n(1,2) by (simp add: d_def contents_heap_down contents_Swap)
  moreover have "contents d = add_mset ((last d)\<lparr>Index := 0\<rparr>) (contents (butlast d))"
    by (subst split) (simp add: contents_def)
  moreover have "heap_ok (butlast d)"
    unfolding heap_upto_def
  proof (intro allI impI)
    fix k assume k: "k < length (butlast d)" "0 < k"
    then have "k < n" "par k < n" using par_less [OF k(2)] n(3) by auto
    then show "Priority (butlast d ! par k) \<le> Priority (butlast d ! k)"
      using up k(2) n(3) by (simp add: heap_upto_def nth_butlast)
  qed
  moreover have "heap_Pop pq = Inr ((last d)\<lparr>Index := -1\<rparr>, butlast d)"
    using assms(2) \<open>d \<noteq> []\<close>
    by (simp only: heap_Pop_def Pop_def Let_def n_def [symmetric] d_def [symmetric]) simp
  ultimately show ?thesis by (simp add: last)
qed

lemma heap_front_least: "heap_ok pq \<Longrightarrow> y \<in># contents pq \<Longrightarrow> Priority (pq ! 0) \<le> Priority y"
  by (auto simp: contents_def in_set_conv_nth heap_root_least)

interpretation early: priority_queue length heap_Push heap_Pop "\<lambda>pq. pq ! 0" Priority
  "\<lambda>x. x\<lparr>Index := 0\<rparr>" contents heap_ok
  by unfold_locales
    (simp_all add: heap_ok_Push contents_Push heap_Pop_ok heap_front_least)

lemma dequeue_Cons [simp]: "dequeue (x # xs) = Inr (x, xs)"
  by (simp add: dequeue_def)

interpretation retrans: fifo_queue enqueue dequeue "\<lambda>q. q"
  by unfold_locales (simp_all add: enqueue_def)

text \<open>C28: The early-arrival queue is a sorted buffer. Whatever segments are pushed and in whatever
  order, popping until it is empty returns each of them exactly once and in the order of their
  sequence numbers.\<close>

theorem early_arrivals_leave_in_order:
  "\<exists>out rest. pops heap_Pop (length xs) (foldl heap_Push [] xs) = (out, rest) \<and> rest = [] \<and>
     sorted (map Priority out) \<and> contents out = contents xs"
proof -
  have "heap_ok []" by (simp add: heap_upto_def)
  from early.pushes_items [OF this, of xs] have q: "heap_ok (foldl heap_Push [] xs)"
    "contents (foldl heap_Push [] xs) = contents xs" by (simp_all add: contents_def)
  then have "length (foldl heap_Push [] xs) = length xs" by (metis size_contents)
  from early.pops_sorted [OF q(1) this] obtain out rest where
    "pops heap_Pop (length xs) (foldl heap_Push [] xs) = (out, rest)" "sorted (map Priority out)"
    "mset (map (\<lambda>x. x\<lparr>Index := 0\<rparr>) out) = contents xs" "contents rest = {#}"
    unfolding q(2) by blast
  moreover from this(3,4) have "contents out = contents xs" "rest = []"
    by (simp_all add: contents_def)
  ultimately show ?thesis by blast
qed

end
