(* ===== verification/TcpSocket.thy ===== *)
theory TcpSocket
  imports SegmentQueue
begin

text \<open>
  A TCP socket (\<open>pkg/tcp/types.go\<close>, \<open>socket.go\<close>): its state and the steps of its three threads,
  the packet handler \<open>HandleTCPPacket\<close>, the sender \<open>HandleVWrite\<close> and the retransmitter
  \<open>HandleRT\<close>. One iteration of a thread is one step; the locks and condition variables of the
  source order the steps and carry no data. The ring buffer
  (\<open>github.com/smallnest/ringbuffer\<close>) is a parameter, as are the network below and the rounding
  of \<open>float64\<close>; numbers of type \<open>float64\<close> are rationals, durations are nanoseconds.
\<close>

section \<open>What the socket is built on\<close>

record 'b rb_pkg =
  rb_New :: "int \<Rightarrow> 'b"
  rb_Write :: "'b \<Rightarrow> u8 list \<Rightarrow> 'b \<times> int \<times> go_error option"
  rb_Read :: "'b \<Rightarrow> int \<Rightarrow> 'b \<times> u8 list \<times> go_error option"
  rb_Free :: "'b \<Rightarrow> int"
  rb_Length :: "'b \<Rightarrow> int"
  rb_IsEmpty :: "'b \<Rightarrow> bool"
  rb_IsFull :: "'b \<Rightarrow> bool"
  ErrTooManyDataToWrite :: go_error

text \<open>
  The documented behaviour of the ring buffer, for buffers that satisfy \<open>ok\<close>, which every call
  keeps: \<open>bytes b\<close> are the bytes a buffer of capacity \<open>cap b\<close> holds. A write stores what fits
  and reports an error when that is not everything, a read of \<open>n > 0\<close> bytes takes at most \<open>n\<close>
  from the front and fails on an empty buffer.
\<close>

definition ringbuffer_ok ::
  "'b rb_pkg \<Rightarrow> ('b \<Rightarrow> bool) \<Rightarrow> ('b \<Rightarrow> u8 list) \<Rightarrow> ('b \<Rightarrow> int) \<Rightarrow> bool" where
  "ringbuffer_ok R ok bytes cap \<longleftrightarrow>
     (\<forall>n > 0. ok (rb_New R n) \<and> bytes (rb_New R n) = [] \<and> cap (rb_New R n) = n) \<and>
     (\<forall>b. ok b \<longrightarrow>
        int (length (bytes b)) \<le> cap b \<and>
        rb_Free R b = cap b - int (length (bytes b)) \<and>
        rb_Length R b = int (length (bytes b)) \<and>
        rb_IsEmpty R b = (bytes b = []) \<and>
        rb_IsFull R b = (int (length (bytes b)) = cap b) \<and>
        (\<forall>p. case rb_Write R b p of (b', n, err) \<Rightarrow>
           ok b' \<and> cap b' = cap b \<and> n = min (int (length p)) (rb_Free R b) \<and>
           bytes b' = bytes b @ take (nat n) p \<and> (err = None \<longleftrightarrow> int (length p) \<le> rb_Free R b) \<and>
           (0 < rb_Free R b \<longrightarrow> err \<in> {None, Some (ErrTooManyDataToWrite R)})) \<and>
        (\<forall>n \<ge> 0. case rb_Read R b n of (b', out, err) \<Rightarrow>
           ok b' \<and> cap b' = cap b \<and> out = take (nat n) (bytes b) \<and>
           bytes b' = drop (nat n) (bytes b) \<and>
           (err = None \<longleftrightarrow> n = 0 \<or> bytes b \<noteq> [])))"

text \<open>A bounded list of bytes with its capacity: the argument the witnesses run on.\<close>

definition list_rb :: "(int \<times> u8 list) rb_pkg" where
  "list_rb =
     \<lparr>rb_New = (\<lambda>n. (n, [])),
      rb_Write = (\<lambda>(c, xs) p.
        (let free = c - int (length xs); n = min (int (length p)) free
         in ((c, xs @ take (nat n) p), n,
             if int (length p) \<le> free then None
             else if free = 0 then Some (Error ''ringbuffer is full'')
             else Some (Error ''too many data to write'')))),
      rb_Read = (\<lambda>(c, xs) n. ((c, drop (nat n) xs), take (nat n) xs,
        if n = 0 \<or> xs \<noteq> [] then None else Some (Error ''ringbuffer is empty''))),
      rb_Free = (\<lambda>(c, xs). c - int (length xs)),
      rb_Length = (\<lambda>(c, xs). int (length xs)),
      rb_IsEmpty = (\<lambda>(c, xs). xs = []),
      rb_IsFull = (\<lambda>(c, xs). int (length xs) = c),
      ErrTooManyDataToWrite = Error ''too many data to write''\<rparr>"

lemma list_rb_ok: "ringbuffer_ok list_rb (\<lambda>(c, xs). int (length xs) \<le> c) snd fst"
  by (auto simp: ringbuffer_ok_def list_rb_def Let_def)

text \<open>The environment of a socket: the header package, the ring buffer, the node's \<open>SendIP\<close> (its
  error, if any), the rounding of \<open>float64\<close>, and the layer's own address.\<close>

record 'b tcp_env =
  TPkg :: tcp_pkgs
  RPkg :: "'b rb_pkg"
  Net :: "Addr \<Rightarrow> u8 list \<Rightarrow> go_error option"
  Round :: "rat \<Rightarrow> rat"
  LayerIP :: Addr

section \<open>The socket\<close>

definition RTOMin :: rat where "RTOMin = 10000"
definition RTOMax :: rat where "RTOMax = 1000000"

record 'b TCPSocket =
  SocketID :: u32
  ConnState :: TCPState
  SConn :: VTCPConn
  ReadBuffer :: 'b
  SRTT :: rat
  RTO :: rat
  RTTimer :: int
  OngoingRTTimer :: bool
  EarlyArrivalQueue :: PriorityQueue
  EarlyArrivalSeqNumSet :: "u32 list"
  EarlyArrivalPacketSize :: u32
  WriteBuffer :: 'b
  RTQueue :: "TCPSegmentItem list"
  BytesInFlight :: u16
  ZWPMode :: bool
  ZWPSeq :: u32
  InitSeqNum :: u32
  NumberBytesSent :: u32
  NextExpectedByte :: u32
  RemoteISN :: u32
  LargestAck :: u32
  RemoteWindowSize :: u16
  NextSequenceNumber :: u32
  LastSegmentSequenceNumber :: u32
  LastSegmentAckNumber :: u32
  IsClosed :: bool
  TeardownStarted :: bool

text \<open>\<open>socketID\<close> and \<open>initSeqNum\<close> are what the global counter and \<open>rand.Uint32\<close> return.\<close>

definition MakeTCPSocket ::
  "'b rb_pkg \<Rightarrow> u32 \<Rightarrow> u32 \<Rightarrow> TCPState \<Rightarrow> VTCPConn \<Rightarrow> u32 \<Rightarrow> 'b TCPSocket" where
  "MakeTCPSocket R socketID initSeqNum connState tcpConn remoteInitSeqNum =
     \<lparr>SocketID = socketID, ConnState = connState, SConn = tcpConn,
      ReadBuffer = rb_New R MaxBufferSize, SRTT = RTOMin, RTO = RTOMin, RTTimer = 0,
      OngoingRTTimer = False, EarlyArrivalQueue = [], EarlyArrivalSeqNumSet = [],
      EarlyArrivalPacketSize = 0, WriteBuffer = rb_New R MaxBufferSize, RTQueue = [],
      BytesInFlight = 0, ZWPMode = False, ZWPSeq = 0, InitSeqNum = initSeqNum,
      NumberBytesSent = 0, NextExpectedByte = 0, RemoteISN = remoteInitSeqNum, LargestAck = 0,
      RemoteWindowSize = 0, NextSequenceNumber = initSeqNum + 1,
      LastSegmentSequenceNumber = remoteInitSeqNum, LastSegmentAckNumber = 0,
      IsClosed = False, TeardownStarted = False\<rparr>"

text \<open>
  What a step does besides changing the socket: a datagram given to the network, the thread that
  waits in TIME-WAIT, the signal that stops zero-window probing, the removal of the connection
  from the layer's table.
\<close>

datatype tcp_effect =
    Sent Addr "u8 list"
  | SpawnTimeWait
  | StopZWP
  | DeleteConn VTCPConn

text \<open>Marshal a packet and give it to \<open>SendIP\<close>.\<close>

definition send_segment ::
  "'b tcp_env \<Rightarrow> Addr \<Rightarrow> TCPPacket \<Rightarrow> tcp_effect list \<times> go_error option" where
  "send_segment E dst packet =
     (let packetBytes = MarshalTCP (TPkg E) packet
      in case Net E dst packetBytes of
           None \<Rightarrow> ([Sent dst packetBytes], None)
         | Some e \<Rightarrow> ([], Some e))"

text \<open>The network below takes every segment the layer makes for \<open>dst\<close>.\<close>

definition net_takes :: "'b tcp_env \<Rightarrow> Addr \<Rightarrow> bool" where
  "net_takes E dst \<longleftrightarrow> (\<forall>p. tcp_hdr_ok (Header p) \<longrightarrow> length (Data p) \<le> 1024 \<longrightarrow>
     Net E dst (MarshalTCP (TPkg E) p) = None)"

lemma net_takes_Net:
  "net_takes E dst \<Longrightarrow> tcp_hdr_ok (Header p) \<Longrightarrow> length (Data p) \<le> 1024 \<Longrightarrow>
     Net E dst (MarshalTCP (TPkg E) p) = None"
  by (simp add: net_takes_def)

lemma send_segment_taken:
  "net_takes E dst \<Longrightarrow> tcp_hdr_ok (Header p) \<Longrightarrow> length (Data p) \<le> 1024 \<Longrightarrow>
     send_segment E dst p = ([Sent dst (MarshalTCP (TPkg E) p)], None)"
  by (simp add: send_segment_def net_takes_Net Let_def)

text \<open>The header every packet of an established connection gets, but for \<open>AckNum\<close> and flags.\<close>

definition socket_header :: "'b tcp_env \<Rightarrow> 'b TCPSocket \<Rightarrow> u32 \<Rightarrow> u8 \<Rightarrow> TCPFields" where
  "socket_header E s ackNum flags =
     \<lparr>SrcPort = LocalPort (SConn s), DstPort = RemotePort (SConn s),
      SeqNum = InitSeqNum s + NumberBytesSent s + 1, AckNum = ackNum, DataOffset = TCPHeaderLen,
      Flags = flags, WindowSize = word_of_int (rb_Free (RPkg E) (ReadBuffer s)),
      TChecksum = 0, UrgentPointer = 0\<rparr>"

text \<open>\<open>time.Duration\<close> of a \<open>float64\<close> drops the fraction.\<close>

definition Duration :: "rat \<Rightarrow> int" where
  "Duration r = (if 0 \<le> r then floor r else ceiling r)"

section \<open>Receiving: the pieces of HandleTCPPacket\<close>

definition WriteSegment :: "'b tcp_env \<Rightarrow> 'b TCPSocket \<Rightarrow> TCPPacket \<Rightarrow> 'b TCPSocket" where
  "WriteSegment E s packet =
     (case rb_Write (RPkg E) (ReadBuffer s) (Data packet) of
        (rb, bytesWrote, err) \<Rightarrow>
          (let s' = s\<lparr>ReadBuffer := rb\<rparr>
           in if err \<noteq> None then s'
              else if bytesWrote \<noteq> int (length (Data packet)) then s'
              else s'\<lparr>NextExpectedByte := NextExpectedByte s + word_of_int bytesWrote\<rparr>))"

text \<open>The constants are typed \<open>float64\<close>, so they are rounded, as is every operation.\<close>

definition update_RTO :: "'b tcp_env \<Rightarrow> int \<Rightarrow> 'b TCPSocket \<Rightarrow> 'b TCPSocket" where
  "update_RTO E rttMeasured s =
     (let fl = Round E; ALPHA = fl (8 / 10); BETA = fl (13 / 10);
          srtt = fl (fl (ALPHA * SRTT s) + fl (fl (1 - ALPHA) * fl (of_int rttMeasured)))
      in s\<lparr>SRTT := srtt, RTO := max RTOMin (min (fl (BETA * srtt)) RTOMax)\<rparr>)"

definition is_fin :: "TCPPacket \<Rightarrow> bool" where
  "is_fin packet \<longleftrightarrow> Flags (Header packet) AND TCPFlagFin \<noteq> 0"

text \<open>
  The loop over the retransmission queue (\<open>now\<close> is read from the clock for each segment). The
  flag tells that the connection was closed, where the handler returns.
\<close>

definition acked_prefix_item :: "'b TCPSocket \<Rightarrow> TCPSegmentItem \<Rightarrow> bool" where
  "acked_prefix_item s item \<longleftrightarrow>
     Priority item + int (length (Data (Value item))) \<le> uint (LargestAck s)"

function ack_loop :: "'b tcp_env \<Rightarrow> int \<Rightarrow> 'b TCPSocket \<Rightarrow> 'b TCPSocket \<times> bool" where
  "ack_loop E now s =
     (case dequeue (RTQueue s) of
        Inl e \<Rightarrow> (s, False)
      | Inr (segmentItem, queue) \<Rightarrow>
          if acked_prefix_item s segmentItem
          then if is_fin (Value segmentItem) \<and> ConnState s = LAST_ACK
               then (s\<lparr>ConnState := CLOSED, IsClosed := True\<rparr>, True)
               else
                 let s1 = (if is_fin (Value segmentItem) \<and> ConnState s = FIN_WAIT_1
                           then s\<lparr>ConnState := FIN_WAIT_2\<rparr> else s);
                     s2 = s1\<lparr>BytesInFlight := BytesInFlight s1
                               - of_nat (length (Data (Value segmentItem))),
                             RTQueue := queue\<rparr>
                 in ack_loop E now
                      (if \<not> WasRT segmentItem then update_RTO E (now - SentTime segmentItem) s2
                       else s2)
          else (s, False))"
  by pat_completeness auto

lemma RTQueue_update_RTO [simp]: "RTQueue (update_RTO E r s) = RTQueue s"
  by (simp add: update_RTO_def Let_def)

lemma dequeue_length: "dequeue q = Inr (x, q') \<Longrightarrow> length q = Suc (length q')"
  by (cases q) (auto simp: dequeue_def split: if_splits)

termination ack_loop
  by (relation "measure (\<lambda>(E, now, s). length (RTQueue s))")
    (auto simp: Let_def dest: dequeue_length split: if_splits)

declare ack_loop.simps [simp del]

text \<open>Lines 50 to 117: the acknowledgment. The flag tells that the handler returns here.\<close>

definition handle_ack ::
  "'b tcp_env \<Rightarrow> int \<Rightarrow> 'b TCPSocket \<Rightarrow> TCPPacket \<Rightarrow> 'b TCPSocket \<times> tcp_effect list \<times> bool" where
  "handle_ack E now s packet =
     (let ack = AckNum (Header packet)
      in if LargestAck s < ack \<and> ack \<le> NextSequenceNumber s
         then
           let s1 = s\<lparr>LargestAck := ack\<rparr>;
               s2 = (if OngoingRTTimer s1 then s1\<lparr>RTTimer := Duration (RTO s1)\<rparr> else s1)
           in case ack_loop E now s2 of
                (s3, True) \<Rightarrow> (s3, [DeleteConn (SConn s3)], True)
              | (s3, False) \<Rightarrow>
                  ((if RTQueue s3 = [] \<and> OngoingRTTimer s3 then s3\<lparr>RTTimer := 0\<rparr> else s3), [], False)
         else if ack > NextSequenceNumber s then (s, [], True)
         else (s, [], False))"

text \<open>Lines 123 to 155: the send window.\<close>

definition handle_window :: "'b TCPSocket \<Rightarrow> TCPPacket \<Rightarrow> 'b TCPSocket \<times> tcp_effect list" where
  "handle_window s packet =
     (let ack = AckNum (Header packet); seq = SeqNum (Header packet) - RemoteISN s
      in if LargestAck s \<le> ack \<and> ack \<le> NextSequenceNumber s \<and>
            (LastSegmentSequenceNumber s < seq \<or>
             LastSegmentSequenceNumber s = seq \<and> LastSegmentAckNumber s \<le> ack)
         then
           let s' = s\<lparr>RemoteWindowSize := WindowSize (Header packet),
                      LastSegmentSequenceNumber := seq, LastSegmentAckNumber := ack\<rparr>
           in (s', if ZWPMode s' \<and> BytesInFlight s' - 1 < RemoteWindowSize s' \<and>
                      ZWPSeq s' < LargestAck s'
                   then [StopZWP] else [])
         else (s, []))"

text \<open>
  A FIN found in sequence in the early-arrival queue; the states the source does not name stay.
\<close>

definition early_fin :: "'b TCPSocket \<Rightarrow> 'b TCPSocket \<times> tcp_effect list" where
  "early_fin s =
     (case ConnState s of
        ESTABLISHED \<Rightarrow> (s\<lparr>ConnState := CLOSE_WAIT\<rparr>, [])
      | FIN_WAIT_1 \<Rightarrow> (s\<lparr>ConnState := CLOSING\<rparr>, [])
      | FIN_WAIT_2 \<Rightarrow> (s\<lparr>ConnState := TIME_WAIT\<rparr>, [SpawnTimeWait])
      | _ \<Rightarrow> (s, []))"

text \<open>One turn of the loop of lines 170 to 203, before the pop.\<close>

definition take_early ::
  "'b tcp_env \<Rightarrow> 'b TCPSocket \<Rightarrow> TCPSegmentItem \<Rightarrow> 'b TCPSocket \<times> tcp_effect list" where
  "take_early E s segmentItem =
     (if is_fin (Value segmentItem) then early_fin s
      else (WriteSegment E s (Value segmentItem), []))"

lemma EarlyArrivalQueue_take_early [simp]:
  "EarlyArrivalQueue (fst (take_early E s it)) = EarlyArrivalQueue s"
  by (simp add: take_early_def early_fin_def WriteSegment_def Let_def split: prod.split
      TCPState.split)

lemma heap_Pop_length: "heap_Pop q = Inr (x, q') \<Longrightarrow> length q = Suc (length q')"
  by (auto simp: heap_Pop_def Pop_def Let_def split: if_splits)

function drain :: "'b tcp_env \<Rightarrow> 'b TCPSocket \<Rightarrow> 'b TCPSocket \<times> tcp_effect list" where
  "drain E s =
     (if 0 < length (EarlyArrivalQueue s)
      then if uint (NextExpectedByte s) = Priority (EarlyArrivalQueue s ! 0)
           then let r = take_early E s (EarlyArrivalQueue s ! 0)
                in case heap_Pop (EarlyArrivalQueue (fst r)) of
                     Inl e \<Rightarrow> r
                   | Inr (_, q) \<Rightarrow>
                       (let r' = drain E ((fst r)\<lparr>EarlyArrivalQueue := q\<rparr>)
                        in (fst r', snd r @ snd r'))
           else (s, [])
      else (s, []))"
  by pat_completeness auto

termination drain
  by (relation "measure (\<lambda>(E, s). length (EarlyArrivalQueue s))")
    (auto dest!: heap_Pop_length)

declare drain.simps [simp del]

definition early_item :: "'b TCPSocket \<Rightarrow> TCPPacket \<Rightarrow> TCPSegmentItem" where
  "early_item s packet =
     \<lparr>Index = 0, Priority = uint (SeqNum (Header packet) - RemoteISN s), Value = packet,
      SentTime = 0, WasRT = False, IsZWP = False\<rparr>"

text \<open>An acknowledgment without data; the code leaves its \<open>SrcIP\<close> unset.\<close>

definition ack_packet :: "'b tcp_env \<Rightarrow> 'b TCPSocket \<Rightarrow> u32 \<Rightarrow> TCPPacket" where
  "ack_packet E s ackNum =
     \<lparr>SrcIP = 0, Header = socket_header E s ackNum TCPFlagAck, Data = []\<rparr>"

lemma ack_packet_simps [simp]:
  "tcp_hdr_ok (Header (ack_packet E s ackNum))" "Data (ack_packet E s ackNum) = []"
  by (simp_all add: ack_packet_def socket_header_def tcp_hdr_ok_def)

text \<open>Lines 157 to 241: the data of the segment, and the acknowledgment it is answered with.\<close>

definition receive_text ::
  "'b tcp_env \<Rightarrow> 'b TCPSocket \<Rightarrow> TCPPacket \<Rightarrow> 'b TCPSocket \<times> tcp_effect list" where
  "receive_text E s packet =
     (let seq = SeqNum (Header packet) - RemoteISN s
      in if NextExpectedByte s = seq
         then if int (length (Data packet)) \<le> rb_Free (RPkg E) (ReadBuffer s)
              then drain E (WriteSegment E s packet) else (s, [])
         else if NextExpectedByte s < seq
         then (s\<lparr>EarlyArrivalQueue :=
                   heap_Push (EarlyArrivalQueue s) (early_item s packet)\<rparr>, [])
         else (s, []))"

definition handle_text ::
  "'b tcp_env \<Rightarrow> 'b TCPSocket \<Rightarrow> TCPPacket \<Rightarrow> 'b TCPSocket \<times> tcp_effect list" where
  "handle_text E s packet =
     (if length (Data packet) = 0 then (s, [])
      else case receive_text E s packet of
             (s', effs) \<Rightarrow>
               (s', effs @ fst (send_segment E (RemoteIP (SConn s'))
                      (ack_packet E s' (NextExpectedByte s' + RemoteISN s')))))"

text \<open>Lines 243 to 297: a FIN that is not a plain ACK.\<close>

definition fin_transition ::
  "'b TCPSocket \<Rightarrow> TCPPacket \<Rightarrow> 'b TCPSocket \<times> tcp_effect list" where
  "fin_transition s packet =
     (case ConnState s of
        ESTABLISHED \<Rightarrow> (s\<lparr>ConnState := CLOSE_WAIT\<rparr>, [])
      | FIN_WAIT_1 \<Rightarrow>
          (if Flags (Header packet) AND TCPFlagAck \<noteq> 0
           then (s\<lparr>ConnState := TIME_WAIT\<rparr>, [SpawnTimeWait])
           else (s\<lparr>ConnState := CLOSING\<rparr>, []))
      | FIN_WAIT_2 \<Rightarrow> (s\<lparr>ConnState := TIME_WAIT\<rparr>, [SpawnTimeWait])
      | _ \<Rightarrow> (s, []))"

definition handle_fin ::
  "'b tcp_env \<Rightarrow> 'b TCPSocket \<Rightarrow> TCPPacket \<Rightarrow> 'b TCPSocket \<times> tcp_effect list" where
  "handle_fin E s packet =
     (let seq = SeqNum (Header packet) - RemoteISN s
      in if NextExpectedByte s = seq
         then let sent = fst (send_segment E (RemoteIP (SConn s))
                    (ack_packet E s (RemoteISN s + NextExpectedByte s + 1)))
              in (fst (fin_transition s packet), sent @ snd (fin_transition s packet))
         else if NextExpectedByte s < seq
         then (s\<lparr>EarlyArrivalQueue :=
                   heap_Push (EarlyArrivalQueue s) (early_item s packet)\<rparr>, [])
         else (s, []))"

definition HandleTCPPacket ::
  "'b tcp_env \<Rightarrow> int \<Rightarrow> 'b TCPSocket \<Rightarrow> TCPPacket \<Rightarrow> 'b TCPSocket \<times> tcp_effect list" where
  "HandleTCPPacket E now s packet =
     (if Flags (Header packet) = TCPFlagAck
      then case handle_ack E now s packet of
             (s1, effs1, stop) \<Rightarrow>
               if stop then (s1, effs1)
               else case handle_window s1 packet of
                      (s2, effs2) \<Rightarrow>
                        (case handle_text E s2 packet of
                           (s3, effs3) \<Rightarrow> (s3, effs1 @ effs2 @ effs3))
      else if is_fin packet then handle_fin E s packet
      else (s, []))"

section \<open>Sending\<close>

definition SendFinPacket ::
  "'b tcp_env \<Rightarrow> int \<Rightarrow> 'b TCPSocket \<Rightarrow> 'b TCPSocket \<times> tcp_effect list \<times> go_error option" where
  "SendFinPacket E now s =
     (let finPacket = \<lparr>SrcIP = 0,
            Header = socket_header E s (RemoteISN s + NextExpectedByte s) TCPFlagFin, Data = []\<rparr>
      in case send_segment E (RemoteIP (SConn s)) finPacket of
           (effs, Some e) \<Rightarrow> (s, effs, Some e)
         | (effs, None) \<Rightarrow>
             (s\<lparr>NumberBytesSent := NumberBytesSent s + 1,
                NextSequenceNumber := NextSequenceNumber s + 1,
                RTQueue := enqueue (RTQueue s)
                  \<lparr>Index = 0, Priority = uint (SeqNum (Header finPacket)), Value = finPacket,
                   SentTime = now, WasRT = False, IsZWP = False\<rparr>\<rparr>, effs, None))"

text \<open>The packet \<open>HandleVWrite\<close> builds for a piece of data.\<close>

definition data_packet :: "'b tcp_env \<Rightarrow> 'b TCPSocket \<Rightarrow> u8 list \<Rightarrow> TCPPacket" where
  "data_packet E s payload =
     \<lparr>SrcIP = LayerIP E,
      Header = socket_header E s (NextExpectedByte s + RemoteISN s) TCPFlagAck, Data = payload\<rparr>"

text \<open>One turn of the loop of lines 344 to 401, for a segment that the network took.\<close>

definition sent_segment :: "int \<Rightarrow> TCPPacket \<Rightarrow> u32 \<Rightarrow> 'b TCPSocket \<Rightarrow> 'b TCPSocket" where
  "sent_segment now packet segmentSize s =
     (let s1 = (if \<not> OngoingRTTimer s
                then s\<lparr>RTTimer := Duration (RTO s), OngoingRTTimer := True\<rparr> else s)
      in s1\<lparr>RTQueue := enqueue (RTQueue s1)
              \<lparr>Index = 0, Priority = uint (SeqNum (Header packet)), Value = packet,
               SentTime = now, WasRT = False, IsZWP = False\<rparr>,
            BytesInFlight := BytesInFlight s1 + ucast segmentSize,
            NumberBytesSent := NumberBytesSent s1 + segmentSize,
            NextSequenceNumber := NextSequenceNumber s1 + segmentSize\<rparr>)"

text \<open>The loop ends early when the network fails; the rest of the payload is then dropped.\<close>

function send_loop ::
  "'b tcp_env \<Rightarrow> int \<Rightarrow> 'b TCPSocket \<Rightarrow> u8 list \<Rightarrow> u32 \<Rightarrow> 'b TCPSocket \<times> tcp_effect list" where
  "send_loop E now s payload sizeToWrite =
     (if 0 < sizeToWrite
      then let segmentSize = word_of_int (min MaxSegmentSize (uint sizeToWrite)) :: u32;
               packet = data_packet E s (take (unat segmentSize) payload)
           in case send_segment E (RemoteIP (SConn s)) packet of
                (effs, Some e) \<Rightarrow> (s, effs)
              | (effs, None) \<Rightarrow>
                  (let r = send_loop E now (sent_segment now packet segmentSize s)
                             (drop (unat segmentSize) payload) (sizeToWrite - segmentSize)
                   in (fst r, effs @ snd r))
      else (s, []))"
  by pat_completeness auto

lemma segment_size:
  fixes sizeToWrite :: u32
  assumes "0 < sizeToWrite"
  shows "unat (word_of_int (min MaxSegmentSize (uint sizeToWrite)) :: u32) =
      min 1024 (unat sizeToWrite)"
    and "unat (sizeToWrite - word_of_int (min MaxSegmentSize (uint sizeToWrite))) =
      unat sizeToWrite - min 1024 (unat sizeToWrite)"
    and "0 < unat sizeToWrite"
proof -
  have lt: "unat sizeToWrite < 2 ^ 32" using unsigned_less [of sizeToWrite] by simp
  have "uint (word_of_int (min 1024 (uint sizeToWrite)) :: u32) = min 1024 (uint sizeToWrite)"
    by (simp add: uint_word_of_int_eq take_bit_int_eq_self)
  then show sz: "unat (word_of_int (min MaxSegmentSize (uint sizeToWrite)) :: u32) =
      min 1024 (unat sizeToWrite)"
    unfolding MaxSegmentSize_def unat_eq_nat_uint by linarith
  then show "unat (sizeToWrite - word_of_int (min MaxSegmentSize (uint sizeToWrite))) =
      unat sizeToWrite - min 1024 (unat sizeToWrite)"
    by (subst unat_sub) (auto simp: word_le_nat_alt)
  show "0 < unat sizeToWrite" using assms by (simp add: word_greater_zero_iff unat_gt_0)
qed

termination send_loop
  by (relation "measure (\<lambda>(E, now, s, payload, size). unat size)")
    (auto simp: segment_size)

declare send_loop.simps [simp del]

text \<open>
  What the sender thread does next: sleep until data is written, end, go on with its loop, or
  probe with the given packet until it is told to stop.
\<close>

datatype writer = Waiting | Finished | Running | Probing "u8 list"

text \<open>\<open>Read\<close> into a fresh slice of \<open>n\<close> bytes: what is not read stays zero.\<close>

definition read_payload :: "'b tcp_env \<Rightarrow> 'b TCPSocket \<Rightarrow> int \<Rightarrow> 'b TCPSocket \<times> u8 list" where
  "read_payload E s n =
     (case rb_Read (RPkg E) (WriteBuffer s) n of
        (wb, out, err) \<Rightarrow>
          (s\<lparr>WriteBuffer := wb\<rparr>, take (nat n) (out @ replicate (nat n) 0)))"

definition enter_ZWP ::
  "'b tcp_env \<Rightarrow> 'b TCPSocket \<Rightarrow> 'b TCPSocket \<times> tcp_effect list \<times> writer" where
  "enter_ZWP E s =
     (case read_payload E (s\<lparr>ZWPMode := True\<rparr>) 1 of
        (s1, zwpPayload) \<Rightarrow>
          (let zwpPacket = data_packet E s1 zwpPayload;
               s2 = s1\<lparr>NumberBytesSent := NumberBytesSent s1 + 1,
                       NextSequenceNumber := NextSequenceNumber s1 + 1,
                       ZWPSeq := SeqNum (Header zwpPacket),
                       BytesInFlight := BytesInFlight s1 + 1\<rparr>
           in (s2, fst (send_segment E (RemoteIP (SConn s2)) zwpPacket),
               Probing (MarshalTCP (TPkg E) zwpPacket))))"

text \<open>One turn of the loop of \<open>HandleVWrite\<close>, up to where it blocks.\<close>

definition HandleVWrite_turn ::
  "'b tcp_env \<Rightarrow> int \<Rightarrow> 'b TCPSocket \<Rightarrow> 'b TCPSocket \<times> tcp_effect list \<times> writer" where
  "HandleVWrite_turn E now s =
     (if rb_IsEmpty (RPkg E) (WriteBuffer s)
      then if ConnState s \<noteq> ESTABLISHED
           then case SendFinPacket E now s of (s', effs, err) \<Rightarrow> (s', effs, Finished)
           else (s, [], Waiting)
      else
        let amountCanSend = uint (RemoteWindowSize s) - uint (BytesInFlight s)
        in if 0 < amountCanSend
           then
             let sizeToWrite = word_of_int (min (uint (RemoteWindowSize s))
                   (rb_Length (RPkg E) (WriteBuffer s))) :: u32
             in if sizeToWrite = 0 then (s, [], Running)
                else case read_payload E s (uint sizeToWrite) of
                       (s1, payload) \<Rightarrow>
                         (case send_loop E now s1 payload sizeToWrite of
                            (s2, effs) \<Rightarrow> (s2, effs, Running))
           else enter_ZWP E s)"

text \<open>While probing: the select finds no stop signal and sends again, or it finds one.\<close>

definition ZWP_probe :: "'b tcp_env \<Rightarrow> 'b TCPSocket \<Rightarrow> u8 list \<Rightarrow> tcp_effect list" where
  "ZWP_probe E s zwpPacketBytes =
     (if Net E (RemoteIP (SConn s)) zwpPacketBytes = None
      then [Sent (RemoteIP (SConn s)) zwpPacketBytes] else [])"

definition ZWP_stop :: "'b TCPSocket \<Rightarrow> 'b TCPSocket" where
  "ZWP_stop s = s\<lparr>ZWPMode := False, BytesInFlight := BytesInFlight s - 1\<rparr>"

section \<open>Retransmitting\<close>

text \<open>The queue is empty: the timer is turned off and the thread sleeps.\<close>

definition HandleRT_idle :: "'b TCPSocket \<Rightarrow> 'b TCPSocket" where
  "HandleRT_idle s = (if length (RTQueue s) = 0 then s\<lparr>OngoingRTTimer := False\<rparr> else s)"

text \<open>The timer fires: the oldest segment is sent again and the timeout doubles.\<close>

definition HandleRT_expired :: "'b tcp_env \<Rightarrow> 'b TCPSocket \<Rightarrow> 'b TCPSocket \<times> tcp_effect list" where
  "HandleRT_expired E s =
     (if 1 \<le> length (RTQueue s)
      then
        let oldest = RTQueue s ! 0
        in case send_segment E (RemoteIP (SConn s)) (Value oldest) of
             (effs, err) \<Rightarrow>
               (let s1 = (if err \<noteq> None then s
                          else s\<lparr>RTQueue := (RTQueue s)[0 := oldest\<lparr>WasRT := True\<rparr>]\<rparr>);
                    rto = min (Round E (RTO s1 * 2)) RTOMax
                in (s1\<lparr>RTO := rto, RTTimer := Duration rto, OngoingRTTimer := True\<rparr>, effs))
      else (s, []))"

end
