(* ===== verification/TcpApi.thy ===== *)
theory TcpApi
  imports TcpSocket
begin

text \<open>
  The TCP layer and its socket interface (\<open>pkg/tcp/tcp.go\<close>, \<open>api.go\<close>, \<open>utils.go\<close>): the tables,
  delivery of a packet to a socket or a listener, and the calls. A call that blocks on a channel
  is split there: \<open>VConnect\<close> and \<open>VAccept\<close> become one definition per packet they wait for.
  \<open>socketID\<close>s come from the layer's counter, random numbers are arguments.
\<close>

record VTCPListener =
  LSocketID :: u32
  LIPAddress :: Addr
  LPortNumber :: u16

record 'b TCPLayer =
  SocketTable :: "(VTCPConn \<times> 'b TCPSocket) list"
  ListenersTable :: "(u16 \<times> VTCPListener) list"
  TLocalIP :: Addr
  UsedPorts :: "(u16 \<times> bool) list"
  socketIDCounter :: u32

definition Init_tcp :: "'h IPStack \<Rightarrow> 'b TCPLayer res" where
  "Init_tcp ipStack =
     (case LInterfaces (LnkLayer ipStack) of
        [] \<Rightarrow> Inl (Panic IndexOutOfRange)
      | i # _ \<Rightarrow> Inr \<lparr>SocketTable = [], ListenersTable = [], TLocalIP = AssignedIP i,
                      UsedPorts = [], socketIDCounter = 0\<rparr>)"

text \<open>What \<open>tcp.IPStack.SendIP\<close> answers: the network a socket's environment holds.\<close>

definition tcp_net ::
  "net_pkgs \<Rightarrow> (nat \<Rightarrow> FwdTable \<Rightarrow> FwdTable) \<Rightarrow> 'h IPStack \<Rightarrow> Addr \<Rightarrow> u8 list \<Rightarrow> go_error option" where
  "tcp_net P rng ipStack dst data =
     (case SendIP P rng ipStack dst TCPProtocolNum data of Inl e \<Rightarrow> Some e | Inr _ \<Rightarrow> None)"

section \<open>Lookups\<close>

definition getNextSocketID :: "'b TCPLayer \<Rightarrow> u32 \<times> 'b TCPLayer" where
  "getNextSocketID l = (socketIDCounter l, l\<lparr>socketIDCounter := socketIDCounter l + 1\<rparr>)"

definition random_port :: "u32 \<Rightarrow> u16" where
  "random_port r = ucast (1024 + r mod (65536 - 1024))"

text \<open>The loop draws until the port is free; it need not end, so its result is an option.\<close>

partial_function (option) unused_port :: "(u16 \<times> bool) list \<Rightarrow> (nat \<Rightarrow> u32) \<Rightarrow> nat \<Rightarrow> u16 option" where
  "unused_port used rnd k =
     (if map_of used (random_port (rnd k)) = None then Some (random_port (rnd k))
      else unused_port used rnd (Suc k))"

definition getUnusedPort :: "'b TCPLayer \<Rightarrow> (nat \<Rightarrow> u32) \<Rightarrow> u16 option" where
  "getUnusedPort l rnd = unused_port (UsedPorts l) rnd 0"

definition GetSocketById ::
  "((VTCPConn \<times> 'b TCPSocket) list \<Rightarrow> (VTCPConn \<times> 'b TCPSocket) list) \<Rightarrow> 'b TCPLayer \<Rightarrow> int
     \<Rightarrow> 'b TCPSocket option" where
  "GetSocketById ord l i =
     map_option snd (find (\<lambda>x. uint (SocketID (snd x)) = i) (ord (SocketTable l)))"

definition GetListenerBySocketId ::
  "((u16 \<times> VTCPListener) list \<Rightarrow> (u16 \<times> VTCPListener) list) \<Rightarrow> 'b TCPLayer \<Rightarrow> int
     \<Rightarrow> VTCPListener option" where
  "GetListenerBySocketId ord l i =
     map_option snd (find (\<lambda>x. LSocketID (snd x) = word_of_int i) (ord (ListenersTable l)))"

definition GetSocketByConn :: "'b TCPLayer \<Rightarrow> VTCPConn \<Rightarrow> 'b TCPSocket option" where
  "GetSocketByConn l conn = map_of (SocketTable l) conn"

section \<open>Delivery\<close>

datatype delivery =
    ToSocket VTCPConn TCPPacket
  | ToListener u16 TCPPacket
  | NotOurIP
  | NoListener u16

definition TcpHandler :: "tcp_pkgs \<Rightarrow> 'b TCPLayer \<Rightarrow> u8 list \<Rightarrow> IPv4Header \<Rightarrow> delivery res" where
  "TcpHandler T l data packetHeader =
     (let srcIP = Src packetHeader
      in case UnmarshalTCPPacket T data srcIP of
           Inl e \<Rightarrow> Inl e
         | Inr tcpPacket \<Rightarrow>
             (let tcpConn = \<lparr>LocalIP = Dst packetHeader, LocalPort = DstPort (Header tcpPacket),
                             RemoteIP = srcIP, RemotePort = SrcPort (Header tcpPacket)\<rparr>
              in Inr (if LocalIP tcpConn \<noteq> TLocalIP l then NotOurIP
                      else case map_of (SocketTable l) tcpConn of
                             None \<Rightarrow>
                               (case map_of (ListenersTable l) (LocalPort tcpConn) of
                                  None \<Rightarrow> NoListener (LocalPort tcpConn)
                                | Some listener \<Rightarrow> ToListener (LocalPort tcpConn) tcpPacket)
                           | Some tcpSocket \<Rightarrow> ToSocket tcpConn tcpPacket)))"

section \<open>Listening\<close>

definition VListen :: "'b TCPLayer \<Rightarrow> u16 \<Rightarrow> ('b TCPLayer \<times> VTCPListener) res" where
  "VListen l port =
     (if map_of (ListenersTable l) port \<noteq> None
      then Inl (Error ''vlisten: port already in use'')
      else case getNextSocketID l of
             (socketID, l') \<Rightarrow>
               (let listener = \<lparr>LSocketID = socketID, LIPAddress = TLocalIP l, LPortNumber = port\<rparr>
                in Inr (l'\<lparr>ListenersTable := AList.update port listener (ListenersTable l')\<rparr>,
                        listener)))"

text \<open>After the removal the code signals the listener's accepting thread, if there is one.\<close>

definition VClose_listener :: "'b TCPLayer \<Rightarrow> VTCPListener \<Rightarrow> 'b TCPLayer res" where
  "VClose_listener l listener =
     (if map_of (ListenersTable l) (LPortNumber listener) = None
      then Inl (Error ''socket is already closed'')
      else Inr (l\<lparr>ListenersTable := AList.delete (LPortNumber listener) (ListenersTable l)\<rparr>))"

section \<open>Opening a connection\<close>

text \<open>Headers of the handshake: no data has been counted yet, the window is the whole buffer.\<close>

definition handshake_packet ::
  "'b TCPLayer \<Rightarrow> u16 \<Rightarrow> u16 \<Rightarrow> u32 \<Rightarrow> u32 \<Rightarrow> u8 \<Rightarrow> TCPPacket" where
  "handshake_packet l srcPort dstPort seqNum ackNum flags =
     \<lparr>SrcIP = TLocalIP l,
      Header = \<lparr>SrcPort = srcPort, DstPort = dstPort, SeqNum = seqNum, AckNum = ackNum,
                DataOffset = TCPHeaderLen, Flags = flags, WindowSize = word_of_int MaxBufferSize,
                TChecksum = 0, UrgentPointer = 0\<rparr>,
      Data = []\<rparr>"

definition store_socket :: "VTCPConn \<Rightarrow> 'b TCPSocket \<Rightarrow> 'b TCPLayer \<Rightarrow> 'b TCPLayer" where
  "store_socket conn socket l = l\<lparr>SocketTable := AList.update conn socket (SocketTable l)\<rparr>"

text \<open>
  \<open>VAccept\<close> up to the second wait: the SYN. The result is the layer, what was sent, and the
  connection that waits for its ACK or an error. A failed send leaves the socket in the table.
\<close>

definition VAccept_syn ::
  "'b tcp_env \<Rightarrow> u32 \<Rightarrow> VTCPListener \<Rightarrow> 'b TCPLayer \<Rightarrow> TCPPacket
     \<Rightarrow> 'b TCPLayer \<times> tcp_effect list \<times> VTCPConn res" where
  "VAccept_syn E isn listener l packet =
     (if Flags (Header packet) \<noteq> TCPFlagSyn
      then (l, [], Inl (Error ''flag is not SYN in VAccept''))
      else
        let conn = \<lparr>LocalIP = LIPAddress listener, LocalPort = LPortNumber listener,
                    RemoteIP = SrcIP packet, RemotePort = SrcPort (Header packet)\<rparr>
        in case getNextSocketID l of
             (socketID, l1) \<Rightarrow>
               (let socket = (MakeTCPSocket (RPkg E) socketID isn SYN_RECEIVED conn
                      (SeqNum (Header packet)))\<lparr>NextExpectedByte := 1\<rparr>;
                    synAckPacket = handshake_packet l1 (LPortNumber listener)
                      (SrcPort (Header packet)) (InitSeqNum socket) (SeqNum (Header packet) + 1)
                      (TCPFlagSyn OR TCPFlagAck)
                in case send_segment E (SrcIP packet) synAckPacket of
                     (effs, Some e) \<Rightarrow> (store_socket conn socket l1, effs, Inl e)
                   | (effs, None) \<Rightarrow>
                       (store_socket conn (socket\<lparr>ConnState := SYN_SENT\<rparr>) l1, effs, Inr conn)))"

text \<open>\<open>VAccept\<close> after the second wait: the packet that should be the ACK.\<close>

definition VAccept_ack :: "'b TCPLayer \<Rightarrow> VTCPConn \<Rightarrow> TCPPacket \<Rightarrow> 'b TCPLayer \<times> VTCPConn res" where
  "VAccept_ack l conn packet =
     (case map_of (SocketTable l) conn of
        None \<Rightarrow> (l, Inl (Panic NilDereference))
      | Some socket \<Rightarrow>
          if Flags (Header packet) = TCPFlagAck
          then if SeqNum (Header packet) \<noteq> RemoteISN socket + 1
               then (l, Inl (Error ''wrong seq num received''))
               else if AckNum (Header packet) \<noteq> InitSeqNum socket + 1
               then (l, Inl (Error ''wrongs ack num received''))
               else (store_socket conn (socket\<lparr>ConnState := ESTABLISHED,
                       RemoteWindowSize := WindowSize (Header packet)\<rparr>) l, Inr conn)
          else (l, Inl (Error ''wrong flag received'')))"

text \<open>\<open>VAccept\<close> in either wait when its listener is closed: no connection and no error.\<close>

definition VAccept_stopped :: "VTCPConn option res" where
  "VAccept_stopped = Inr None"

text \<open>\<open>VConnect\<close> up to its wait; \<open>None\<close> when no port is ever found.\<close>

definition VConnect_start ::
  "'b tcp_env \<Rightarrow> (nat \<Rightarrow> u32) \<Rightarrow> u32 \<Rightarrow> 'b TCPLayer \<Rightarrow> Addr \<Rightarrow> u16
     \<Rightarrow> ('b TCPLayer \<times> tcp_effect list \<times> VTCPConn res) option" where
  "VConnect_start E rnd isn l remoteIPAddr remotePort =
     (case getUnusedPort l rnd of
        None \<Rightarrow> None
      | Some port \<Rightarrow>
          (let conn = \<lparr>LocalIP = TLocalIP l, LocalPort = port,
                       RemoteIP = remoteIPAddr, RemotePort = remotePort\<rparr>
           in if map_of (SocketTable l) conn \<noteq> None
              then Some (l, [], Inl (Error ''vconnect error: has already been connected.''))
              else case getNextSocketID l of
                     (socketID, l1) \<Rightarrow>
                       (let socket = MakeTCPSocket (RPkg E) socketID isn SYN_SENT conn 0;
                            l2 = store_socket conn socket l1;
                            synPacket = handshake_packet l2 port remotePort (InitSeqNum socket) 0
                              TCPFlagSyn
                        in case send_segment E remoteIPAddr synPacket of
                             (effs, Some e) \<Rightarrow> Some (l2, effs, Inl e)
                           | (effs, None) \<Rightarrow> Some (l2, effs, Inr conn))))"

text \<open>\<open>VConnect\<close> after its wait: the packet that should be the SYN-ACK, or a close.\<close>

definition VConnect_synack ::
  "'b tcp_env \<Rightarrow> 'b TCPLayer \<Rightarrow> VTCPConn \<Rightarrow> TCPPacket
     \<Rightarrow> 'b TCPLayer \<times> tcp_effect list \<times> VTCPConn res" where
  "VConnect_synack E l conn packet =
     (case map_of (SocketTable l) conn of
        None \<Rightarrow> (l, [], Inl (Panic NilDereference))
      | Some socket \<Rightarrow>
          if Flags (Header packet) \<noteq> TCPFlagAck OR TCPFlagSyn
          then (l, [], Inl (Error ''vconnect: did not receive SYN-ACK flag. received other flag''))
          else if AckNum (Header packet) \<noteq> InitSeqNum socket + 1
          then (l, [], Inl (Error ''wrong ack number received''))
          else
            let socket1 = socket\<lparr>RemoteISN := SeqNum (Header packet), NextExpectedByte := 1,
                                 LargestAck := AckNum (Header packet)\<rparr>;
                ackPacket = handshake_packet l (LocalPort conn) (RemotePort conn)
                  (AckNum (Header packet)) (SeqNum (Header packet) + 1) TCPFlagAck
            in case send_segment E (RemoteIP conn) ackPacket of
                 (effs, Some e) \<Rightarrow> (store_socket conn socket1 l, effs, Inl e)
               | (effs, None) \<Rightarrow>
                   (store_socket conn (socket1\<lparr>ConnState := ESTABLISHED,
                      RemoteWindowSize := WindowSize (Header packet)\<rparr>) l, effs, Inr conn))"

definition VConnect_closed :: "'b TCPLayer \<Rightarrow> VTCPConn \<Rightarrow> 'b TCPLayer \<times> VTCPConn res" where
  "VConnect_closed l conn =
     (l\<lparr>SocketTable := AList.delete conn (SocketTable l)\<rparr>, Inl (Error ''error: closing''))"

section \<open>Reading, writing, closing\<close>

text \<open>
  One turn of the loops of \<open>VRead\<close> and \<open>VWrite\<close> on the socket: a result, or the need to wait until
  the other side of the buffer moves. \<open>VRead\<close> fills a buffer of \<open>n\<close> bytes.
\<close>

datatype 'a turn = Done 'a | Wait

definition VRead_turn ::
  "'b tcp_env \<Rightarrow> 'b TCPSocket \<Rightarrow> int \<Rightarrow> 'b TCPSocket \<times> u8 list res turn" where
  "VRead_turn E s n =
     (if \<not> rb_IsEmpty (RPkg E) (ReadBuffer s)
      then case rb_Read (RPkg E) (ReadBuffer s) n of
             (rb, out, Some e) \<Rightarrow> (s\<lparr>ReadBuffer := rb\<rparr>, Done (Inl e))
           | (rb, out, None) \<Rightarrow> (s\<lparr>ReadBuffer := rb\<rparr>, Done (Inr out))
      else if ConnState s = ESTABLISHED then (s, Wait)
      else (s, Done (Inl (Error ''connection is not established''))))"

definition VRead ::
  "'b tcp_env \<Rightarrow> 'b TCPLayer \<Rightarrow> VTCPConn \<Rightarrow> int \<Rightarrow> 'b TCPLayer \<times> u8 list res turn" where
  "VRead E l tcpConn n =
     (case map_of (SocketTable l) tcpConn of
        None \<Rightarrow> (l, Done (Inl (Error ''socket not found'')))
      | Some socket \<Rightarrow>
          if ConnState socket > ESTABLISHED then (l, Done (Inl (Error ''socket is closing'')))
          else case VRead_turn E socket n of
                 (socket', r) \<Rightarrow> (store_socket tcpConn socket' l, r))"

text \<open>\<open>rest\<close> is \<open>data[numBytesWritten:]\<close>; a write that does not fit is not an error.\<close>

definition VWrite_turn ::
  "'b tcp_env \<Rightarrow> 'b TCPSocket \<Rightarrow> u8 list \<Rightarrow> 'b TCPSocket \<times> int res turn" where
  "VWrite_turn E s rest =
     (if rb_IsFull (RPkg E) (WriteBuffer s) then (s, Wait)
      else case rb_Write (RPkg E) (WriteBuffer s) rest of
             (wb, bytesWrote, err) \<Rightarrow>
               (s\<lparr>WriteBuffer := wb\<rparr>,
                Done (case err of
                        None \<Rightarrow> Inr bytesWrote
                      | Some e \<Rightarrow> if e = ErrTooManyDataToWrite (RPkg E) then Inr bytesWrote
                                  else Inl e)))"

text \<open>
  The loop while nobody empties the buffer: it returns when all is written, and otherwise waits,
  with what is left to write. A buffer that is not full takes at least one byte; one that took
  none would make the code spin, which the model also calls waiting.
\<close>

function VWrite_loop ::
  "'b tcp_env \<Rightarrow> 'b TCPSocket \<Rightarrow> u8 list \<Rightarrow> int \<Rightarrow> 'b TCPSocket \<times> int res turn \<times> u8 list" where
  "VWrite_loop E s rest numBytesWritten =
     (if rest = [] then (s, Done (Inr numBytesWritten), [])
      else case VWrite_turn E s rest of
             (s', Wait) \<Rightarrow> (s', Wait, rest)
           | (s', Done (Inl e)) \<Rightarrow> (s', Done (Inl e), rest)
           | (s', Done (Inr n)) \<Rightarrow>
               if n \<le> 0 then (s', Wait, rest)
               else VWrite_loop E s' (drop (nat n) rest) (numBytesWritten + n))"
  by pat_completeness auto

termination
  by (relation "measure (\<lambda>(E, s, rest, n). length rest)") auto

declare VWrite_loop.simps [simp del]

definition VWrite ::
  "'b tcp_env \<Rightarrow> 'b TCPLayer \<Rightarrow> VTCPConn \<Rightarrow> u8 list \<Rightarrow> 'b TCPLayer \<times> int res turn \<times> u8 list" where
  "VWrite E l tcpConn data =
     (case map_of (SocketTable l) tcpConn of
        None \<Rightarrow> (l, Done (Inl (Error ''socket does not exist'')), data)
      | Some tcpSocket \<Rightarrow>
          if ConnState tcpSocket > ESTABLISHED
          then (l, Done (Inl (Error ''socket is closing'')), data)
          else case VWrite_loop E tcpSocket data 0 of
                 (s', r, rest) \<Rightarrow> (store_socket tcpConn s' l, r, rest))"

text \<open>
  \<open>VClose\<close> on the socket: its new state or an error; in SYN-SENT it signals the connecting call
  instead (\<open>True\<close>).
\<close>

definition VClose_socket :: "'b TCPSocket \<Rightarrow> ('b TCPSocket \<times> bool) res" where
  "VClose_socket s =
     (case ConnState s of
        CLOSED \<Rightarrow> Inl (Error ''error: connection does not exist'')
      | LISTEN \<Rightarrow> Inl (Error ''should not happen, because we should not call on listener'')
      | SYN_SENT \<Rightarrow> Inr (s, True)
      | SYN_RECEIVED \<Rightarrow> Inl (Error ''should not be called on a non listener'')
      | ESTABLISHED \<Rightarrow> Inr (s\<lparr>ConnState := FIN_WAIT_1\<rparr>, False)
      | FIN_WAIT_1 \<Rightarrow> Inl (Error ''error: connection closing'')
      | FIN_WAIT_2 \<Rightarrow> Inl (Error ''error: connection closing'')
      | CLOSE_WAIT \<Rightarrow> Inr (s\<lparr>ConnState := LAST_ACK\<rparr>, False)
      | CLOSING \<Rightarrow> Inl (Error ''error: connection closing'')
      | LAST_ACK \<Rightarrow> Inl (Error ''error: connection closing'')
      | TIME_WAIT \<Rightarrow> Inl (Error ''error: connection closing''))"

definition VClose :: "'b TCPLayer \<Rightarrow> VTCPConn \<Rightarrow> ('b TCPLayer \<times> bool) res" where
  "VClose l tcpConn =
     (case map_of (SocketTable l) tcpConn of
        None \<Rightarrow> Inl (Error ''socket not found'')
      | Some tcpSocket \<Rightarrow>
          (case VClose_socket tcpSocket of
             Inl e \<Rightarrow> Inl e
           | Inr (s', signalled) \<Rightarrow> Inr (store_socket tcpConn s' l, signalled)))"

text \<open>The end of TIME-WAIT, and the other effects of a step on the table.\<close>

definition TimeWait_over :: "'b TCPLayer \<Rightarrow> VTCPConn \<Rightarrow> 'b TCPLayer" where
  "TimeWait_over l conn = l\<lparr>SocketTable := AList.delete conn (SocketTable l)\<rparr>"

end
