(* ===== verification/TcpMachine.thy ===== *)
theory TcpMachine
  imports TcpApi
begin

text \<open>
  An open connection as a state machine: the packet handler, the sender thread, the retransmitter
  and the application's calls interleave, each step being one turn of its loop. The bookkeeping
  invariant holds in every reachable state.
\<close>

section \<open>Steps\<close>

text \<open>
  The socket, where its sender thread is, and whether the packet handler is blocked on the signal
  that ends probing.
\<close>

record 'b conn =
  csock :: "'b TCPSocket"
  cwriter :: writer
  cstop :: bool

inductive conn_step :: "'b tcp_env \<Rightarrow> 'b conn \<Rightarrow> 'b conn \<Rightarrow> bool" for E where
  packet: "\<not> cstop c \<Longrightarrow> HandleTCPPacket E now (csock c) p = (s', effs) \<Longrightarrow>
     conn_step E c (c\<lparr>csock := s', cstop := StopZWP \<in> set effs\<rparr>)"
| turn: "cwriter c = Running \<or> cwriter c = Waiting \<Longrightarrow>
     HandleVWrite_turn E now (csock c) = (s', effs, w) \<Longrightarrow>
     conn_step E c (c\<lparr>csock := s', cwriter := w\<rparr>)"
| stop: "cwriter c = Probing b \<Longrightarrow> cstop c \<Longrightarrow>
     conn_step E c (c\<lparr>csock := ZWP_stop (csock c), cwriter := Running, cstop := False\<rparr>)"
| idle: "conn_step E c (c\<lparr>csock := HandleRT_idle (csock c)\<rparr>)"
| expired: "HandleRT_expired E (csock c) = (s', effs) \<Longrightarrow> conn_step E c (c\<lparr>csock := s'\<rparr>)"
| reading: "VRead_turn E (csock c) n = (s', r) \<Longrightarrow> conn_step E c (c\<lparr>csock := s'\<rparr>)"
| writing: "VWrite_turn E (csock c) data = (s', r') \<Longrightarrow> conn_step E c (c\<lparr>csock := s'\<rparr>)"
| closing: "VClose_socket (csock c) = Inr (s', b) \<Longrightarrow> conn_step E c (c\<lparr>csock := s'\<rparr>)"

text \<open>A connection as \<open>HandleConn\<close> starts its threads.\<close>

definition start_conn :: "'b TCPSocket \<Rightarrow> 'b conn" where
  "start_conn s = \<lparr>csock = s, cwriter = Running, cstop = False\<rparr>"

section \<open>The bookkeeping invariant\<close>

text \<open>
  \<open>float64\<close> rounding is monotone and does not change the integer 10000, which a \<open>float64\<close>
  represents exactly.
\<close>

definition float_ok :: "(rat \<Rightarrow> rat) \<Rightarrow> bool" where
  "float_ok fl \<longleftrightarrow> mono fl \<and> fl RTOMin = RTOMin"

text \<open>
  The next sequence number counts what was sent, the retransmission timeout stays in its bounds,
  the early-arrival queue is a heap.
\<close>

definition sock_inv :: "'b TCPSocket \<Rightarrow> bool" where
  "sock_inv s \<longleftrightarrow> NextSequenceNumber s = InitSeqNum s + NumberBytesSent s + 1 \<and>
     RTOMin \<le> RTO s \<and> RTO s \<le> RTOMax \<and> heap_ok (EarlyArrivalQueue s)"

text \<open>Bytes in flight are the data in the retransmission queue and the probe, in 16 bits.\<close>

definition data_bytes :: "TCPSegmentItem list \<Rightarrow> nat" where
  "data_bytes q = sum_list (map (\<lambda>it. length (Data (Value it))) q)"

definition flight_inv :: "'b TCPSocket \<Rightarrow> bool" where
  "flight_inv s \<longleftrightarrow>
     BytesInFlight s = of_nat (data_bytes (RTQueue s) + (if ZWPMode s then 1 else 0))"

definition conn_inv :: "'b conn \<Rightarrow> bool" where
  "conn_inv c \<longleftrightarrow> sock_inv (csock c) \<and> flight_inv (csock c) \<and>
     (ZWPMode (csock c) \<longleftrightarrow> (\<exists>b. cwriter c = Probing b)) \<and> (cstop c \<longrightarrow> ZWPMode (csock c))"

lemma data_bytes_simps [simp]:
  "data_bytes [] = 0" "data_bytes (x # q) = length (Data (Value x)) + data_bytes q"
  "data_bytes (enqueue q x) = data_bytes q + length (Data (Value x))"
  by (simp_all add: data_bytes_def enqueue_def)

lemma MakeTCPSocket_inv: "sock_inv (MakeTCPSocket R i isn st conn risn)"
  "flight_inv (MakeTCPSocket R i isn st conn risn)"
  by (simp_all add: sock_inv_def flight_inv_def MakeTCPSocket_def RTOMin_def RTOMax_def heap_upto_def)

subsection \<open>What the pieces of the packet handler leave alone\<close>

text \<open>Parts of a socket that receiving text does not touch, and those it may change.\<close>

definition same_sender :: "'b TCPSocket \<Rightarrow> 'b TCPSocket \<Rightarrow> bool" where
  "same_sender s t \<longleftrightarrow>
     NextSequenceNumber s = NextSequenceNumber t \<and> InitSeqNum s = InitSeqNum t \<and>
     NumberBytesSent s = NumberBytesSent t \<and> RTO s = RTO t \<and> RTQueue s = RTQueue t \<and>
     BytesInFlight s = BytesInFlight t \<and> ZWPMode s = ZWPMode t \<and> RemoteISN s = RemoteISN t \<and>
     SConn s = SConn t \<and> LargestAck s = LargestAck t \<and> RemoteWindowSize s = RemoteWindowSize t \<and>
     LastSegmentSequenceNumber s = LastSegmentSequenceNumber t"

lemma same_sender_refl [simp]: "same_sender s s"
  by (simp add: same_sender_def)

lemma same_sender_trans: "same_sender s t \<Longrightarrow> same_sender t u \<Longrightarrow> same_sender s u"
  by (simp add: same_sender_def)

lemma same_sender_simps [simp]:
  "same_sender s (s\<lparr>EarlyArrivalQueue := q\<rparr>)" "same_sender s (s\<lparr>ConnState := st\<rparr>)"
  "same_sender s (WriteSegment E s p)"
  by (simp_all add: same_sender_def WriteSegment_def Let_def split: prod.split)

lemma EarlyArrivalQueue_WriteSegment [simp]:
  "EarlyArrivalQueue (WriteSegment E s p) = EarlyArrivalQueue s"
  by (simp add: WriteSegment_def Let_def split: prod.split)

lemma same_sender_early_fin [simp]: "same_sender s (fst (early_fin s))"
  by (simp add: early_fin_def split: TCPState.split)

lemma same_sender_take_early [simp]: "same_sender s (fst (take_early E s it))"
  by (simp add: take_early_def)

lemma early_fin_no_stop [simp]: "StopZWP \<notin> set (snd (early_fin s))"
  by (simp add: early_fin_def split: TCPState.split)

lemma drain_step:
  assumes "0 < length (EarlyArrivalQueue s)"
    and "uint (NextExpectedByte s) = Priority (EarlyArrivalQueue s ! 0)"
    and "heap_Pop (EarlyArrivalQueue s) = Inr (x, q)"
    and "take_early E s (EarlyArrivalQueue s ! 0) = (s1, effs)"
  shows "drain E s = (fst (drain E (s1\<lparr>EarlyArrivalQueue := q\<rparr>)),
    effs @ snd (drain E (s1\<lparr>EarlyArrivalQueue := q\<rparr>)))"
proof -
  have "EarlyArrivalQueue s1 = EarlyArrivalQueue s"
    using EarlyArrivalQueue_take_early [of E s "EarlyArrivalQueue s ! 0"] assms(4) by simp
  then show ?thesis using assms by (subst drain.simps) (simp add: Let_def)
qed

lemma drain_stop:
  "\<not> (0 < length (EarlyArrivalQueue s) \<and>
      uint (NextExpectedByte s) = Priority (EarlyArrivalQueue s ! 0)) \<Longrightarrow> drain E s = (s, [])"
  by (subst drain.simps) auto

lemma drain_frame:
  "heap_ok (EarlyArrivalQueue s) \<Longrightarrow> same_sender s (fst (drain E s)) \<and>
     heap_ok (EarlyArrivalQueue (fst (drain E s))) \<and> StopZWP \<notin> set (snd (drain E s))"
proof (induction E s rule: drain.induct)
  case (1 E s)
  let ?q = "EarlyArrivalQueue s"
  show ?case
  proof (cases "0 < length ?q \<and> uint (NextExpectedByte s) = Priority (?q ! 0)")
    case True
    obtain s1 effs where r: "take_early E s (?q ! 0) = (s1, effs)" by fastforce
    obtain x q where pop: "heap_Pop ?q = Inr (x, q)" "heap_ok q"
      using early.pop_front [OF 1(2)] True by blast
    have q1: "EarlyArrivalQueue (fst (take_early E s (?q ! 0))) = ?q" by simp
    let ?s2 = "s1\<lparr>EarlyArrivalQueue := q\<rparr>"
    have "same_sender s s1"
      using same_sender_take_early [of s E "?q ! 0"] by (simp add: r)
    then have "same_sender s ?s2" by (rule same_sender_trans) simp
    moreover have "StopZWP \<notin> set effs"
      using r by (auto simp: take_early_def early_fin_def split: if_splits TCPState.splits)
    moreover have "same_sender ?s2 (fst (drain E ?s2)) \<and>
        heap_ok (EarlyArrivalQueue (fst (drain E ?s2))) \<and> StopZWP \<notin> set (snd (drain E ?s2))"
      using True pop 1(1) [of "take_early E s (?q ! 0)" "(x, q)"] q1 by (simp add: r)
    ultimately show ?thesis
      using drain_step [OF _ _ pop(1) r] True same_sender_trans [of s ?s2] by simp
  next
    case False
    then show ?thesis using 1(2) by (simp add: drain_stop)
  qed
qed

lemma receive_text_frame:
  assumes "heap_ok (EarlyArrivalQueue s)"
  shows "same_sender s (fst (receive_text E s p)) \<and>
    heap_ok (EarlyArrivalQueue (fst (receive_text E s p))) \<and>
    StopZWP \<notin> set (snd (receive_text E s p))"
proof -
  have "same_sender s (fst (drain E (WriteSegment E s p)))"
    using drain_frame [of "WriteSegment E s p" E] assms same_sender_trans [of s "WriteSegment E s p"]
    by simp
  then show ?thesis
    using drain_frame [of "WriteSegment E s p" E] assms
    by (simp add: receive_text_def Let_def early.push_inv)
qed

lemma send_segment_no_stop [simp]: "StopZWP \<notin> set (fst (send_segment E dst p))"
  by (simp add: send_segment_def Let_def split: option.split)

lemma handle_text_frame:
  assumes "heap_ok (EarlyArrivalQueue s)"
  shows "same_sender s (fst (handle_text E s p)) \<and>
    heap_ok (EarlyArrivalQueue (fst (handle_text E s p))) \<and>
    StopZWP \<notin> set (snd (handle_text E s p))"
  using receive_text_frame [OF assms, of E p] assms
  by (cases "receive_text E s p") (simp add: handle_text_def)

lemma handle_fin_frame:
  assumes "heap_ok (EarlyArrivalQueue s)"
  shows "same_sender s (fst (handle_fin E s p)) \<and>
    heap_ok (EarlyArrivalQueue (fst (handle_fin E s p))) \<and>
    StopZWP \<notin> set (snd (handle_fin E s p))"
  using assms by (simp add: handle_fin_def fin_transition_def Let_def early.push_inv
      split: TCPState.split)

subsection \<open>Acknowledgments\<close>

lemma update_RTO_bounds:
  "RTOMin \<le> RTO (update_RTO E r s)" "RTO (update_RTO E r s) \<le> RTOMax"
  by (simp_all add: update_RTO_def Let_def RTOMin_def RTOMax_def)

lemma update_RTO_simps [simp]:
  "NextSequenceNumber (update_RTO E r s) = NextSequenceNumber s"
  "InitSeqNum (update_RTO E r s) = InitSeqNum s"
  "NumberBytesSent (update_RTO E r s) = NumberBytesSent s"
  "BytesInFlight (update_RTO E r s) = BytesInFlight s"
  "ZWPMode (update_RTO E r s) = ZWPMode s"
  "EarlyArrivalQueue (update_RTO E r s) = EarlyArrivalQueue s"
  "ConnState (update_RTO E r s) = ConnState s"
  "LargestAck (update_RTO E r s) = LargestAck s"
  "NextExpectedByte (update_RTO E r s) = NextExpectedByte s"
  "RemoteISN (update_RTO E r s) = RemoteISN s"
  "ReadBuffer (update_RTO E r s) = ReadBuffer s"
  "WriteBuffer (update_RTO E r s) = WriteBuffer s"
  "SConn (update_RTO E r s) = SConn s"
  by (simp_all add: update_RTO_def Let_def)

text \<open>The socket after one acknowledged segment.\<close>

definition drop_acked ::
  "'b tcp_env \<Rightarrow> int \<Rightarrow> TCPSegmentItem \<Rightarrow> TCPSegmentItem list \<Rightarrow> 'b TCPSocket \<Rightarrow> 'b TCPSocket" where
  "drop_acked E now it q s =
     (let s1 = (if is_fin (Value it) \<and> ConnState s = FIN_WAIT_1
                then s\<lparr>ConnState := FIN_WAIT_2\<rparr> else s);
          s2 = s1\<lparr>BytesInFlight := BytesInFlight s1 - of_nat (length (Data (Value it))),
                  RTQueue := q\<rparr>
      in if \<not> WasRT it then update_RTO E (now - SentTime it) s2 else s2)"

lemma ack_loop_Nil: "RTQueue s = [] \<Longrightarrow> ack_loop E now s = (s, False)"
  by (subst ack_loop.simps) (simp add: dequeue_def)

lemma ack_loop_Cons:
  "RTQueue s = it # q \<Longrightarrow> ack_loop E now s =
     (if acked_prefix_item s it
      then if is_fin (Value it) \<and> ConnState s = LAST_ACK
           then (s\<lparr>ConnState := CLOSED, IsClosed := True\<rparr>, True)
           else ack_loop E now (drop_acked E now it q s)
      else (s, False))"
  by (subst ack_loop.simps) (simp add: drop_acked_def Let_def)

lemma drop_acked_simps [simp]:
  "RTQueue (drop_acked E now it q s) = q"
  "BytesInFlight (drop_acked E now it q s) = BytesInFlight s - of_nat (length (Data (Value it)))"
  "NextSequenceNumber (drop_acked E now it q s) = NextSequenceNumber s"
  "InitSeqNum (drop_acked E now it q s) = InitSeqNum s"
  "NumberBytesSent (drop_acked E now it q s) = NumberBytesSent s"
  "ZWPMode (drop_acked E now it q s) = ZWPMode s"
  "EarlyArrivalQueue (drop_acked E now it q s) = EarlyArrivalQueue s"
  "LargestAck (drop_acked E now it q s) = LargestAck s"
  "NextExpectedByte (drop_acked E now it q s) = NextExpectedByte s"
  "RemoteISN (drop_acked E now it q s) = RemoteISN s"
  "ReadBuffer (drop_acked E now it q s) = ReadBuffer s"
  "WriteBuffer (drop_acked E now it q s) = WriteBuffer s"
  "SConn (drop_acked E now it q s) = SConn s"
  "ConnState (drop_acked E now it q s) =
     (if is_fin (Value it) \<and> ConnState s = FIN_WAIT_1 then FIN_WAIT_2 else ConnState s)"
  by (simp_all add: drop_acked_def Let_def)

lemma drop_acked_RTO:
  "RTOMin \<le> RTO s \<Longrightarrow> RTO s \<le> RTOMax \<Longrightarrow>
     RTOMin \<le> RTO (drop_acked E now it q s) \<and> RTO (drop_acked E now it q s) \<le> RTOMax"
  by (simp add: drop_acked_def Let_def update_RTO_bounds)

lemma drop_acked_inv:
  assumes "sock_inv s" "flight_inv s" "RTQueue s = it # q"
  shows "sock_inv (drop_acked E now it q s)" "flight_inv (drop_acked E now it q s)"
proof -
  show "sock_inv (drop_acked E now it q s)"
    using assms(1) drop_acked_RTO [of s E now it q] by (simp add: sock_inv_def)
  show "flight_inv (drop_acked E now it q s)"
    using assms(2,3) by (simp add: flight_inv_def)
qed

text \<open>The loop removes a prefix of segments, each of them covered by the acknowledgment.\<close>

lemma ack_loop_inv:
  "sock_inv s \<Longrightarrow> flight_inv s \<Longrightarrow>
     sock_inv (fst (ack_loop E now s)) \<and> flight_inv (fst (ack_loop E now s)) \<and>
     ZWPMode (fst (ack_loop E now s)) = ZWPMode s"
proof (induction "RTQueue s" arbitrary: s)
  case Nil
  then show ?case by (simp add: ack_loop_Nil)
next
  case (Cons it q)
  have q: "RTQueue s = it # q" using Cons.hyps(2) by simp
  show ?case
  proof (cases "acked_prefix_item s it \<and> \<not> (is_fin (Value it) \<and> ConnState s = LAST_ACK)")
    case True
    have "ack_loop E now s = ack_loop E now (drop_acked E now it q s)"
      using True ack_loop_Cons [OF q, of E now] by auto
    then show ?thesis
      using Cons.hyps(1) [of "drop_acked E now it q s"] drop_acked_inv [OF Cons.prems q, of E now]
      by simp
  next
    case False
    then show ?thesis
      using Cons.prems by (auto simp: ack_loop_Cons [OF q] sock_inv_def flight_inv_def)
  qed
qed

text \<open>The socket when an acknowledgment of new data has been noted, and the handler from there.\<close>

definition note_ack :: "'b TCPSocket \<Rightarrow> u32 \<Rightarrow> 'b TCPSocket" where
  "note_ack s ack =
     (if OngoingRTTimer s then s\<lparr>LargestAck := ack, RTTimer := Duration (RTO s)\<rparr>
      else s\<lparr>LargestAck := ack\<rparr>)"

lemma note_ack_simps [simp]:
  "LargestAck (note_ack s ack) = ack" "RTQueue (note_ack s ack) = RTQueue s"
  "ConnState (note_ack s ack) = ConnState s" "ReadBuffer (note_ack s ack) = ReadBuffer s"
  "NextExpectedByte (note_ack s ack) = NextExpectedByte s" "RemoteISN (note_ack s ack) = RemoteISN s"
  "EarlyArrivalQueue (note_ack s ack) = EarlyArrivalQueue s"
  "BytesInFlight (note_ack s ack) = BytesInFlight s" "ZWPMode (note_ack s ack) = ZWPMode s"
  "SConn (note_ack s ack) = SConn s"
  by (simp_all add: note_ack_def)

lemma handle_ack_eq:
  assumes "ack_loop E now (note_ack s (AckNum (Header p))) = (s3, b)"
  shows "handle_ack E now s p =
     (if LargestAck s < AckNum (Header p) \<and> AckNum (Header p) \<le> NextSequenceNumber s
      then if b then (s3, [DeleteConn (SConn s3)], True)
           else ((if RTQueue s3 = [] \<and> OngoingRTTimer s3 then s3\<lparr>RTTimer := 0\<rparr> else s3), [], False)
      else if AckNum (Header p) > NextSequenceNumber s then (s, [], True) else (s, [], False))"
proof -
  have "(if OngoingRTTimer (s\<lparr>LargestAck := AckNum (Header p)\<rparr>)
      then s\<lparr>LargestAck := AckNum (Header p), RTTimer := Duration (RTO (s\<lparr>LargestAck := AckNum (Header p)\<rparr>))\<rparr>
      else s\<lparr>LargestAck := AckNum (Header p)\<rparr>) = note_ack s (AckNum (Header p))"
    by (simp add: note_ack_def)
  then show ?thesis
    unfolding handle_ack_def Let_def using assms by (simp split: bool.split)
qed

lemma handle_ack_inv:
  assumes "sock_inv s" "flight_inv s"
  shows "sock_inv (fst (handle_ack E now s p)) \<and> flight_inv (fst (handle_ack E now s p)) \<and>
     ZWPMode (fst (handle_ack E now s p)) = ZWPMode s \<and>
     StopZWP \<notin> set (fst (snd (handle_ack E now s p)))"
proof -
  let ?s = "note_ack s (AckNum (Header p))"
  have "sock_inv ?s" "flight_inv ?s"
    using assms by (simp_all add: note_ack_def sock_inv_def flight_inv_def)
  from ack_loop_inv [OF this, of E now]
  have loop: "sock_inv (fst (ack_loop E now ?s))" "flight_inv (fst (ack_loop E now ?s))"
      "ZWPMode (fst (ack_loop E now ?s)) = ZWPMode s" by simp_all
  obtain s3 b where s3: "ack_loop E now ?s = (s3, b)" by fastforce
  show ?thesis
    unfolding handle_ack_eq [OF s3]
    using assms loop unfolding s3 by (auto simp: sock_inv_def flight_inv_def)
qed

lemma handle_window_inv:
  assumes "sock_inv s" "flight_inv s"
  shows "sock_inv (fst (handle_window s p)) \<and> flight_inv (fst (handle_window s p)) \<and>
     ZWPMode (fst (handle_window s p)) = ZWPMode s \<and>
     (StopZWP \<in> set (snd (handle_window s p)) \<longrightarrow> ZWPMode s)"
  using assms by (auto simp: handle_window_def Let_def sock_inv_def flight_inv_def)

lemma same_sender_inv:
  assumes "same_sender s t" "heap_ok (EarlyArrivalQueue t)" "sock_inv s" "flight_inv s"
  shows "sock_inv t" "flight_inv t" "ZWPMode t = ZWPMode s"
  using assms by (simp_all add: same_sender_def sock_inv_def flight_inv_def)

lemma HandleTCPPacket_inv:
  assumes "sock_inv s" "flight_inv s" "HandleTCPPacket E now s p = (s', effs)"
  shows "sock_inv s' \<and> flight_inv s' \<and> ZWPMode s' = ZWPMode s \<and>
    (StopZWP \<in> set effs \<longrightarrow> ZWPMode s)"
proof (cases "Flags (Header p) = TCPFlagAck")
  case True
  obtain s1 e1 b where a: "handle_ack E now s p = (s1, e1, b)" by (metis prod_cases3)
  obtain s2 e2 where w: "handle_window s1 p = (s2, e2)" by fastforce
  obtain s3 e3 where t: "handle_text E s2 p = (s3, e3)" by fastforce
  have i1: "sock_inv s1" "flight_inv s1" "ZWPMode s1 = ZWPMode s" "StopZWP \<notin> set e1"
    using handle_ack_inv [OF assms(1,2), of E now p] a by simp_all
  have i2: "sock_inv s2" "flight_inv s2" "ZWPMode s2 = ZWPMode s" "StopZWP \<in> set e2 \<longrightarrow> ZWPMode s"
    using handle_window_inv [OF i1(1,2), of p] w i1(3) by simp_all
  have fr: "same_sender s2 s3" "heap_ok (EarlyArrivalQueue s3)" "StopZWP \<notin> set e3"
    using handle_text_frame [of s2 E p] i2(1) t by (simp_all add: sock_inv_def)
  have "s' = (if b then s1 else s3)" "effs = (if b then e1 else e1 @ e2 @ e3)"
    using assms(3) True by (simp_all add: HandleTCPPacket_def a w t split: if_splits)
  then show ?thesis
    using i1 i2 same_sender_inv [OF fr(1,2) i2(1,2)] fr(3) by auto
next
  case False
  have fr: "same_sender s (fst (handle_fin E s p))"
      "heap_ok (EarlyArrivalQueue (fst (handle_fin E s p)))"
      "StopZWP \<notin> set (snd (handle_fin E s p))"
    using handle_fin_frame [of s E p] assms(1) by (simp_all add: sock_inv_def)
  show ?thesis
  proof (cases "is_fin p")
    case True
    then have "handle_fin E s p = (s', effs)" using False assms(3) by (simp add: HandleTCPPacket_def)
    then show ?thesis using fr same_sender_inv [OF fr(1,2) assms(1,2)] by simp
  qed (use False assms in \<open>simp add: HandleTCPPacket_def\<close>)
qed

subsection \<open>The sender\<close>

lemma sent_segment_simps [simp]:
  "NextSequenceNumber (sent_segment now p k s) = NextSequenceNumber s + k"
  "NumberBytesSent (sent_segment now p k s) = NumberBytesSent s + k"
  "InitSeqNum (sent_segment now p k s) = InitSeqNum s"
  "BytesInFlight (sent_segment now p k s) = BytesInFlight s + ucast k"
  "RTO (sent_segment now p k s) = RTO s" "ZWPMode (sent_segment now p k s) = ZWPMode s"
  "EarlyArrivalQueue (sent_segment now p k s) = EarlyArrivalQueue s"
  "SConn (sent_segment now p k s) = SConn s" "ReadBuffer (sent_segment now p k s) = ReadBuffer s"
  "NextExpectedByte (sent_segment now p k s) = NextExpectedByte s"
  "RemoteISN (sent_segment now p k s) = RemoteISN s"
  "ConnState (sent_segment now p k s) = ConnState s"
  "WriteBuffer (sent_segment now p k s) = WriteBuffer s"
  "RemoteWindowSize (sent_segment now p k s) = RemoteWindowSize s"
  "RTQueue (sent_segment now p k s) = RTQueue s @
     [\<lparr>Index = 0, Priority = uint (SeqNum (Header p)), Value = p, SentTime = now, WasRT = False,
       IsZWP = False\<rparr>]"
  by (simp_all add: sent_segment_def Let_def enqueue_def)

lemma data_packet_simps [simp]:
  "Data (data_packet E s d) = d"
  "SeqNum (Header (data_packet E s d)) = InitSeqNum s + NumberBytesSent s + 1"
  "Flags (Header (data_packet E s d)) = TCPFlagAck"
  "AckNum (Header (data_packet E s d)) = NextExpectedByte s + RemoteISN s"
  by (simp_all add: data_packet_def socket_header_def)

text \<open>The size of the next segment, as a number.\<close>

definition segment_len :: "u32 \<Rightarrow> nat" where
  "segment_len sz = min 1024 (unat sz)"

lemma send_loop_step:
  assumes "0 < sz"
  shows "send_loop E now s payload sz =
     (let packet = data_packet E s (take (segment_len sz) payload)
      in case send_segment E (RemoteIP (SConn s)) packet of
           (effs, Some e) \<Rightarrow> (s, effs)
         | (effs, None) \<Rightarrow>
             (let r = send_loop E now (sent_segment now packet (of_nat (segment_len sz)) s)
                        (drop (segment_len sz) payload) (sz - of_nat (segment_len sz))
              in (fst r, effs @ snd r)))"
proof -
  have "unat (word_of_int (min MaxSegmentSize (uint sz)) :: u32) = segment_len sz"
    by (simp add: segment_size [OF assms] segment_len_def)
  moreover from this have "word_of_int (min MaxSegmentSize (uint sz)) = (of_nat (segment_len sz) :: u32)"
    by (metis of_nat_unat ucast_id)
  ultimately show ?thesis
    using assms by (subst send_loop.simps) (simp add: Let_def)
qed

lemma send_loop_done: "send_loop E now s payload 0 = (s, [])"
  by (subst send_loop.simps) simp

lemma segment_len_pos: "0 < sz \<Longrightarrow> 0 < segment_len sz"
  using segment_size(3) by (simp add: segment_len_def)

lemma unat_size_minus: "unat (sz - of_nat (segment_len sz)) = unat sz - segment_len sz"
proof -
  have "segment_len sz \<le> unat sz" by (simp add: segment_len_def)
  moreover have "unat (of_nat (segment_len sz) :: u32) = segment_len sz"
    by (simp add: segment_len_def unsigned_of_nat take_bit_nat_eq_self)
  ultimately show ?thesis by (simp add: unat_sub word_le_nat_alt)
qed

lemma segment_len_le: "segment_len sz \<le> 1024"
  by (simp add: segment_len_def)

lemma ucast_segment_len [simp]:
  "ucast (of_nat (segment_len sz) :: u32) = (of_nat (segment_len sz) :: u16)"
proof -
  have "take_bit 32 (segment_len sz) = segment_len sz"
    using segment_len_le [of sz] by (simp add: take_bit_nat_eq_self)
  then show ?thesis by (simp add: unsigned_of_nat)
qed

lemma send_loop_inv:
  "sock_inv s \<Longrightarrow> flight_inv s \<Longrightarrow> length payload = unat sz \<Longrightarrow>
     sock_inv (fst (send_loop E now s payload sz)) \<and>
     flight_inv (fst (send_loop E now s payload sz)) \<and>
     ZWPMode (fst (send_loop E now s payload sz)) = ZWPMode s"
proof (induction "unat sz" arbitrary: s payload sz rule: less_induct)
  case less
  show ?case
  proof (cases "0 < sz")
    case False
    then have "sz = 0" by (simp add: word_greater_zero_iff)
    then show ?thesis using less.prems by (simp add: send_loop_done)
  next
    case True
    let ?k = "segment_len sz"
    let ?p = "data_packet E s (take ?k payload)"
    let ?s = "sent_segment now ?p (of_nat ?k) s"
    have k: "length (take ?k payload) = ?k"
      using less.prems(3) by (simp add: segment_len_def)
    have "unat (sz - of_nat ?k) < unat sz"
      using segment_len_pos [OF True] segment_size(3) [OF True] by (simp add: unat_size_minus)
    moreover have "sock_inv ?s" using less.prems(1) by (simp add: sock_inv_def algebra_simps)
    moreover have "flight_inv ?s"
      using less.prems(2) k by (simp add: flight_inv_def data_bytes_def algebra_simps)
    moreover have "length (drop ?k payload) = unat (sz - of_nat ?k)"
      using less.prems(3) by (simp add: unat_size_minus)
    ultimately have IH: "sock_inv (fst (send_loop E now ?s (drop ?k payload) (sz - of_nat ?k))) \<and>
        flight_inv (fst (send_loop E now ?s (drop ?k payload) (sz - of_nat ?k))) \<and>
        ZWPMode (fst (send_loop E now ?s (drop ?k payload) (sz - of_nat ?k))) = ZWPMode s"
      using less.hyps [of "sz - of_nat ?k" ?s "drop ?k payload"] by simp
    show ?thesis
      using IH less.prems unfolding send_loop_step [OF True] Let_def
      by (simp split: prod.split option.split)
  qed
qed

lemma SendFinPacket_inv:
  assumes "sock_inv s" "flight_inv s" "SendFinPacket E now s = (s', effs, err)"
  shows "sock_inv s' \<and> flight_inv s' \<and> ZWPMode s' = ZWPMode s"
  using assms by (auto simp: SendFinPacket_def Let_def sock_inv_def flight_inv_def
      split: prod.splits option.splits)

lemma read_payload_inv:
  assumes "sock_inv s" "flight_inv s" "read_payload E s n = (s', payload)"
  shows "sock_inv s' \<and> flight_inv s' \<and> ZWPMode s' = ZWPMode s \<and> length payload = nat n \<and>
    NumberBytesSent s' = NumberBytesSent s \<and> NextSequenceNumber s' = NextSequenceNumber s"
  using assms by (auto simp: read_payload_def sock_inv_def flight_inv_def split: prod.splits)

lemma enter_ZWP_inv:
  assumes "sock_inv s" "flight_inv s" "\<not> ZWPMode s" "enter_ZWP E s = (s', effs, w)"
  shows "sock_inv s' \<and> flight_inv s' \<and> ZWPMode s' \<and> (\<exists>b. w = Probing b)"
  using assms by (auto simp: enter_ZWP_def read_payload_def Let_def sock_inv_def flight_inv_def
      split: prod.splits)

lemma HandleVWrite_turn_inv:
  assumes "sock_inv s" "flight_inv s" "\<not> ZWPMode s" "HandleVWrite_turn E now s = (s', effs, w)"
  shows "sock_inv s' \<and> flight_inv s' \<and> (ZWPMode s' \<longleftrightarrow> (\<exists>b. w = Probing b))"
proof -
  define sz :: u32 where "sz = word_of_int (min (uint (RemoteWindowSize s))
    (rb_Length (RPkg E) (WriteBuffer s)))"
  obtain s1 payload where rp: "read_payload E s (uint sz) = (s1, payload)" by fastforce
  have i1: "sock_inv s1" "flight_inv s1" "ZWPMode s1 = ZWPMode s" "length payload = unat sz"
    using read_payload_inv [OF assms(1,2) rp] by simp_all
  have loop: "sock_inv (fst (send_loop E now s1 payload sz))"
      "flight_inv (fst (send_loop E now s1 payload sz))"
      "\<not> ZWPMode (fst (send_loop E now s1 payload sz))"
    using send_loop_inv [OF i1(1,2,4), of E now] i1(3) assms(3) by simp_all
  obtain f ef er where fin: "SendFinPacket E now s = (f, ef, er)" by (metis prod_cases3)
  obtain z ez wz where zwp: "enter_ZWP E s = (z, ez, wz)" by (metis prod_cases3)
  obtain s2 e2 where sl: "send_loop E now s1 payload sz = (s2, e2)" by fastforce
  have "HandleVWrite_turn E now s =
     (if rb_IsEmpty (RPkg E) (WriteBuffer s)
      then if ConnState s \<noteq> ESTABLISHED then (f, ef, Finished) else (s, [], Waiting)
      else if 0 < uint (RemoteWindowSize s) - uint (BytesInFlight s)
           then if sz = 0 then (s, [], Running) else (s2, e2, Running)
           else (z, ez, wz))"
    by (simp add: HandleVWrite_turn_def Let_def fin zwp rp sl flip: sz_def)
  then show ?thesis
    using assms SendFinPacket_inv [OF assms(1,2) fin] enter_ZWP_inv [OF assms(1-3) zwp] loop
    by (auto simp: sl split: if_splits)
qed

subsection \<open>Every step\<close>

lemma HandleRT_expired_inv:
  assumes "sock_inv s" "flight_inv s" "float_ok (Round E)" "HandleRT_expired E s = (s', effs)"
  shows "sock_inv s' \<and> flight_inv s' \<and> ZWPMode s' = ZWPMode s"
proof (cases "RTQueue s")
  case Nil
  then show ?thesis using assms by (simp add: HandleRT_expired_def)
next
  case (Cons it q)
  have "Round E RTOMin \<le> Round E (RTO s * 2)"
    using assms(1,3) by (intro monoD [of "Round E"]) (simp_all add: float_ok_def sock_inv_def RTOMin_def)
  then have "RTOMin \<le> min (Round E (RTO s * 2)) RTOMax"
    using assms(3) by (simp add: float_ok_def RTOMin_def RTOMax_def)
  moreover obtain e err where "send_segment E (RemoteIP (SConn s)) (Value it) = (e, err)"
    by fastforce
  ultimately show ?thesis
    using assms(1,2,4) Cons
    by (cases err) (auto simp: HandleRT_expired_def Let_def sock_inv_def flight_inv_def)
qed

lemma conn_step_inv:
  assumes "conn_step E c c'" "float_ok (Round E)" "conn_inv c"
  shows "conn_inv c'"
  using assms
proof (induction rule: conn_step.induct)
  case (packet c now p s' effs)
  then show ?case
    using HandleTCPPacket_inv [of "csock c" E now p s' effs] by (auto simp: conn_inv_def)
next
  case (turn c now s' effs w)
  then have "\<not> ZWPMode (csock c)" "\<not> cstop c" by (auto simp: conn_inv_def)
  with turn show ?case
    using HandleVWrite_turn_inv [of "csock c" E now s' effs w] by (auto simp: conn_inv_def)
next
  case (stop c b)
  then show ?case by (auto simp: conn_inv_def sock_inv_def flight_inv_def ZWP_stop_def)
next
  case (idle c)
  then show ?case by (auto simp: conn_inv_def sock_inv_def flight_inv_def HandleRT_idle_def)
next
  case (expired c s' effs)
  then show ?case
    using HandleRT_expired_inv [of "csock c" E s' effs] by (auto simp: conn_inv_def)
next
  case (reading c n s' r)
  then show ?case
    by (auto simp: VRead_turn_def conn_inv_def sock_inv_def flight_inv_def
        split: if_splits prod.splits option.splits)
next
  case (writing c data s' r')
  then show ?case
    by (auto simp: VWrite_turn_def conn_inv_def sock_inv_def flight_inv_def
        split: if_splits prod.splits)
next
  case (closing c s' b)
  then show ?case
    by (auto simp: VClose_socket_def conn_inv_def sock_inv_def flight_inv_def
        split: TCPState.splits)
qed

text \<open>What the handshakes hand to the threads.\<close>

lemma start_conn_inv:
  "sock_inv s \<Longrightarrow> flight_inv s \<Longrightarrow> \<not> ZWPMode s \<Longrightarrow> conn_inv (start_conn s)"
  by (simp add: start_conn_def conn_inv_def)

lemma reachable_inv:
  assumes "(conn_step E)\<^sup>*\<^sup>* c c'" "float_ok (Round E)" "conn_inv c"
  shows "conn_inv c'"
  using assms(1)
proof (induction rule: rtranclp_induct)
  case base
  show ?case by (rule assms(3))
next
  case (step d e)
  then show ?case using conn_step_inv [OF _ assms(2)] by blast
qed

text \<open>C12: The bookkeeping of a connection is right in every state its threads can reach, whatever
  arrives and however they interleave: the next sequence number is the initial one plus one plus
  the bytes sent, the bytes in flight are the data waiting for an acknowledgment (and the probe),
  modulo 2^16, and the retransmission timeout is between 10 microseconds and 1 millisecond.\<close>

theorem connection_bookkeeping:
  assumes "float_ok (Round E)" and "sock_inv s" "flight_inv s" "\<not> ZWPMode s"
    and "(conn_step E)\<^sup>*\<^sup>* (start_conn s) c"
  shows "NextSequenceNumber (csock c) = InitSeqNum (csock c) + NumberBytesSent (csock c) + 1 \<and>
    BytesInFlight (csock c) = of_nat
      (sum_list (map (\<lambda>it. length (Data (Value it))) (RTQueue (csock c))) +
       (if ZWPMode (csock c) then 1 else 0)) \<and>
    10000 \<le> RTO (csock c) \<and> RTO (csock c) \<le> 1000000"
proof -
  have "conn_inv c" by (rule reachable_inv [OF assms(5,1) start_conn_inv [OF assms(2-4)]])
  then show ?thesis
    by (simp add: conn_inv_def sock_inv_def flight_inv_def data_bytes_def RTOMin_def RTOMax_def)
qed

definition sample_env :: "(int \<times> u8 list) tcp_env" where
  "sample_env = \<lparr>TPkg = wire_tcp, RPkg = list_rb, Net = (\<lambda>dst bytes. None), Round = (\<lambda>r. r),
     LayerIP = sample_ip 0 1\<rparr>"

definition sample_conn :: VTCPConn where
  "sample_conn = \<lparr>LocalIP = sample_ip 0 1, LocalPort = 40000, RemoteIP = sample_ip 1 2,
     RemotePort = 80\<rparr>"

definition sample_socket :: "(int \<times> u8 list) TCPSocket" where
  "sample_socket = (MakeTCPSocket list_rb 0 1000 ESTABLISHED sample_conn 5000)
     \<lparr>NextExpectedByte := 1, RemoteWindowSize := 2000, WriteBuffer := (65535, [1, 2, 3])\<rparr>"

lemma sample_env_takes [simp]: "net_takes sample_env dst"
  by (simp add: net_takes_def sample_env_def)

lemma float_ok_id: "float_ok (\<lambda>r. r)"
  by (simp add: float_ok_def mono_def)

theorem connection_bookkeeping_witness:
  "NextSequenceNumber (fst (HandleVWrite_turn sample_env 7 sample_socket)) = 1004 \<and>
   BytesInFlight (fst (HandleVWrite_turn sample_env 7 sample_socket)) = 3"
proof -
  let ?r = "HandleVWrite_turn sample_env 7 sample_socket"
  have ok: "float_ok (Round sample_env)" by (simp add: sample_env_def float_ok_id)
  have inv: "sock_inv sample_socket" "flight_inv sample_socket" "\<not> ZWPMode sample_socket"
    by code_simp+
  have "(conn_step sample_env)\<^sup>*\<^sup>* (start_conn sample_socket)
      ((start_conn sample_socket)\<lparr>csock := fst ?r, cwriter := snd (snd ?r)\<rparr>)"
    by (rule r_into_rtranclp, rule conn_step.turn [where effs = "fst (snd ?r)" and now = 7])
      (simp_all add: start_conn_def)
  from connection_bookkeeping [OF ok inv this] have
    "NextSequenceNumber (fst ?r) = InitSeqNum (fst ?r) + NumberBytesSent (fst ?r) + 1"
    "BytesInFlight (fst ?r) = of_nat
      (sum_list (map (\<lambda>it. length (Data (Value it))) (RTQueue (fst ?r))) +
       (if ZWPMode (fst ?r) then 1 else 0))" by simp_all
  moreover have "InitSeqNum (fst ?r) + NumberBytesSent (fst ?r) + 1 = 1004" by code_simp
  moreover have "(of_nat (sum_list (map (\<lambda>it. length (Data (Value it))) (RTQueue (fst ?r))) +
       (if ZWPMode (fst ?r) then 1 else 0)) :: u16) = 3" by code_simp
  ultimately show ?thesis by simp
qed

end
