(* ===== verification/TcpHandshake.thy ===== *)
theory TcpHandshake
  imports TcpMachine
begin

text \<open>
  Opening a connection between two layers: \<open>VConnect\<close> on one node and \<open>VListen\<close>, \<open>VAccept\<close> on the
  other, with the three packets marshalled, delivered by \<open>TcpHandler\<close> and parsed again. Also the
  tables the calls keep, the choice of a port, and a window rule that fails after a passive open.
\<close>

section \<open>Delivery\<close>

lemma TcpHandler_deliver:
  assumes "tcp_pkgs_ok T" "tcp_hdr_ok (Header p)" "Src h = SrcIP p" "Dst h = TLocalIP l"
    and "conn = \<lparr>LocalIP = TLocalIP l, LocalPort = DstPort (Header p), RemoteIP = SrcIP p,
                 RemotePort = SrcPort (Header p)\<rparr>"
  shows "TcpHandler T l (MarshalTCP T p) h =
    Inr (case map_of (SocketTable l) conn of
           Some s \<Rightarrow> ToSocket conn p
         | None \<Rightarrow> (case map_of (ListenersTable l) (DstPort (Header p)) of
                      Some _ \<Rightarrow> ToListener (DstPort (Header p)) p
                    | None \<Rightarrow> NoListener (DstPort (Header p))))"
proof -
  have "UnmarshalTCPPacket T (MarshalTCP T p) (SrcIP p) = Inr p"
    using Unmarshal_MarshalTCP [OF assms(1,2), of "SrcIP p"] by simp
  then show ?thesis
    using assms(3-5) by (simp add: TcpHandler_def Let_def split: option.split)
qed

text \<open>A packet whose header does not point inside it makes the layer panic.\<close>

lemma handshake_packet_simps [simp]:
  "tcp_hdr_ok (Header (handshake_packet l sp dp sn an fl))"
  "SrcIP (handshake_packet l sp dp sn an fl) = TLocalIP l"
  "Data (handshake_packet l sp dp sn an fl) = []"
  "SrcPort (Header (handshake_packet l sp dp sn an fl)) = sp"
  "DstPort (Header (handshake_packet l sp dp sn an fl)) = dp"
  "SeqNum (Header (handshake_packet l sp dp sn an fl)) = sn"
  "AckNum (Header (handshake_packet l sp dp sn an fl)) = an"
  "Flags (Header (handshake_packet l sp dp sn an fl)) = fl"
  "WindowSize (Header (handshake_packet l sp dp sn an fl)) = 65535"
  by (simp_all add: handshake_packet_def tcp_hdr_ok_def MaxBufferSize_def)

lemma store_socket_simps [simp]:
  "TLocalIP (store_socket c s l) = TLocalIP l" "ListenersTable (store_socket c s l) = ListenersTable l"
  "map_of (SocketTable (store_socket c s l)) = (map_of (SocketTable l))(c \<mapsto> s)"
  by (simp_all add: store_socket_def update_conv')

lemma getNextSocketID_simps [simp]:
  "TLocalIP (snd (getNextSocketID l)) = TLocalIP l"
  "ListenersTable (snd (getNextSocketID l)) = ListenersTable l"
  "SocketTable (snd (getNextSocketID l)) = SocketTable l"
  by (simp_all add: getNextSocketID_def)

lemma MakeTCPSocket_simps [simp]:
  "InitSeqNum (MakeTCPSocket R i isn st conn risn) = isn"
  "RemoteISN (MakeTCPSocket R i isn st conn risn) = risn"
  "SConn (MakeTCPSocket R i isn st conn risn) = conn"
  "ConnState (MakeTCPSocket R i isn st conn risn) = st"
  "SocketID (MakeTCPSocket R i isn st conn risn) = i"
  by (simp_all add: MakeTCPSocket_def)

section \<open>The three-way handshake\<close>

text \<open>What each side ends up with: \<open>isn\<close> is its own initial number, \<open>risn\<close> its peer's.\<close>

definition opened :: "VTCPConn \<Rightarrow> u32 \<Rightarrow> u32 \<Rightarrow> 'b TCPSocket \<Rightarrow> bool" where
  "opened conn isn risn s \<longleftrightarrow>
     ConnState s = ESTABLISHED \<and> SConn s = conn \<and> InitSeqNum s = isn \<and> RemoteISN s = risn \<and>
     NextExpectedByte s = 1 \<and> RemoteWindowSize s = 65535 \<and> NextSequenceNumber s = isn + 1 \<and>
     NumberBytesSent s = 0 \<and> RTQueue s = [] \<and> EarlyArrivalQueue s = [] \<and>
     LargestAck s \<le> isn + 1 \<and> sock_inv s \<and> flight_inv s \<and> \<not> ZWPMode s"

definition mirror :: "VTCPConn \<Rightarrow> VTCPConn" where
  "mirror c = \<lparr>LocalIP = RemoteIP c, LocalPort = RemotePort c, RemoteIP = LocalIP c,
               RemotePort = LocalPort c\<rparr>"

lemma VConnect_start_sends:
  assumes "getUnusedPort l rnd = Some p" "conn = \<lparr>LocalIP = TLocalIP l, LocalPort = p, RemoteIP = ip,
      RemotePort = port\<rparr>" "map_of (SocketTable l) conn = None" "net_takes E ip"
  shows "VConnect_start E rnd isn l ip port =
    Some (store_socket conn (MakeTCPSocket (RPkg E) (socketIDCounter l) isn SYN_SENT conn 0)
            (snd (getNextSocketID l)),
      [Sent ip (MarshalTCP (TPkg E) (handshake_packet l p port isn 0 TCPFlagSyn))], Inr conn)"
  using assms
  by (simp add: VConnect_start_def getNextSocketID_def send_segment_taken Let_def store_socket_def)
    (simp add: handshake_packet_def)

lemma VAccept_syn_answers:
  assumes "Flags (Header p) = TCPFlagSyn" "conn = \<lparr>LocalIP = LIPAddress lst,
      LocalPort = LPortNumber lst, RemoteIP = SrcIP p, RemotePort = SrcPort (Header p)\<rparr>"
    and "synack = handshake_packet l (LPortNumber lst) (SrcPort (Header p)) isn
      (SeqNum (Header p) + 1) (TCPFlagSyn OR TCPFlagAck)"
    and "net_takes E (SrcIP p)"
  shows "VAccept_syn E isn lst l p =
    (store_socket conn ((MakeTCPSocket (RPkg E) (socketIDCounter l) isn SYN_RECEIVED conn
        (SeqNum (Header p)))\<lparr>NextExpectedByte := 1, ConnState := SYN_SENT\<rparr>)
        (snd (getNextSocketID l)),
     [Sent (SrcIP p) (MarshalTCP (TPkg E) synack)], Inr conn)"
  using assms
  by (simp add: VAccept_syn_def getNextSocketID_def send_segment_taken Let_def store_socket_def)
    (simp add: handshake_packet_def)

lemma VConnect_synack_answers:
  assumes "map_of (SocketTable l) conn = Some s" "Flags (Header p) = TCPFlagAck OR TCPFlagSyn"
    and "AckNum (Header p) = InitSeqNum s + 1"
    and "ack = handshake_packet l (LocalPort conn) (RemotePort conn) (AckNum (Header p))
      (SeqNum (Header p) + 1) TCPFlagAck"
    and "net_takes E (RemoteIP conn)"
  shows "VConnect_synack E l conn p =
    (store_socket conn (s\<lparr>RemoteISN := SeqNum (Header p), NextExpectedByte := 1,
        LargestAck := AckNum (Header p), ConnState := ESTABLISHED,
        RemoteWindowSize := WindowSize (Header p)\<rparr>) l,
     [Sent (RemoteIP conn) (MarshalTCP (TPkg E) ack)], Inr conn)"
  using assms by (simp add: VConnect_synack_def send_segment_taken Let_def)

text \<open>An empty segment of the connection \<open>conn\<close>.\<close>

definition segment_from :: "VTCPConn \<Rightarrow> TCPPacket \<Rightarrow> bool" where
  "segment_from conn p \<longleftrightarrow> tcp_hdr_ok (Header p) \<and> Data p = [] \<and> SrcIP p = LocalIP conn \<and>
     SrcPort (Header p) = LocalPort conn \<and> DstPort (Header p) = RemotePort conn"

text \<open>A connection as its handshake leaves it, with nothing in its buffers.\<close>

definition fresh_end :: "'b tcp_env \<Rightarrow> u32 \<Rightarrow> VTCPConn \<Rightarrow> u32 \<Rightarrow> u32 \<Rightarrow> 'b TCPSocket \<Rightarrow> bool" where
  "fresh_end E i conn isn risn s \<longleftrightarrow> opened conn isn risn s \<and> SocketID s = i \<and>
     ReadBuffer s = rb_New (RPkg E) MaxBufferSize \<and> WriteBuffer s = rb_New (RPkg E) MaxBufferSize"

text \<open>The calls of the two sides, given each other's segments.\<close>

lemma handshake_calls:
  assumes "TPkg EA = T" "TPkg EB = T" and net: "net_takes EA (TLocalIP lB)" "net_takes EB (TLocalIP lA)"
    and "LIPAddress lst = TLocalIP lB" "LPortNumber lst = port" and "getUnusedPort lA rnd = Some aport"
    and conn: "conn = \<lparr>LocalIP = TLocalIP lA, LocalPort = aport, RemoteIP = TLocalIP lB, RemotePort = port\<rparr>"
    and "map_of (SocketTable lA) conn = None"
  shows "\<exists>lA1 lB1 syn synack ack s1 s2 sA sB.
    lA1 = store_socket conn s1 (snd (getNextSocketID lA)) \<and>
    lB1 = store_socket (mirror conn) s2 (snd (getNextSocketID lB)) \<and>
    VConnect_start EA rnd isnA lA (TLocalIP lB) port =
      Some (lA1, [Sent (TLocalIP lB) (MarshalTCP T syn)], Inr conn) \<and>
    VAccept_syn EB isnB lst lB syn = (lB1, [Sent (TLocalIP lA) (MarshalTCP T synack)], Inr (mirror conn)) \<and>
    VConnect_synack EA lA1 conn synack =
      (store_socket conn sA lA1, [Sent (TLocalIP lB) (MarshalTCP T ack)], Inr conn) \<and>
    VAccept_ack lB1 (mirror conn) ack = (store_socket (mirror conn) sB lB1, Inr (mirror conn)) \<and>
    segment_from conn syn \<and> segment_from (mirror conn) synack \<and> segment_from conn ack \<and>
    fresh_end EA (socketIDCounter lA) conn isnA isnB sA \<and>
    fresh_end EB (socketIDCounter lB) (mirror conn) isnB isnA sB"
proof -
  let ?ipA = "TLocalIP lA" and ?ipB = "TLocalIP lB"
  define syn where "syn = handshake_packet lA aport port isnA 0 TCPFlagSyn"
  define sA where "sA = MakeTCPSocket (RPkg EA) (socketIDCounter lA) isnA SYN_SENT conn 0"
  define lA1 where "lA1 = store_socket conn sA (snd (getNextSocketID lA))"
  define synack where "synack = handshake_packet lB port aport isnB (isnA + 1) (TCPFlagSyn OR TCPFlagAck)"
  define sB where "sB = (MakeTCPSocket (RPkg EB) (socketIDCounter lB) isnB SYN_RECEIVED (mirror conn)
      isnA)\<lparr>NextExpectedByte := 1, ConnState := SYN_SENT\<rparr>"
  define lB1 where "lB1 = store_socket (mirror conn) sB (snd (getNextSocketID lB))"
  define ack where "ack = handshake_packet lA1 aport port (isnA + 1) (isnB + 1) TCPFlagAck"
  define sA2 where "sA2 = sA\<lparr>RemoteISN := isnB, NextExpectedByte := 1, LargestAck := isnA + 1,
      ConnState := ESTABLISHED, RemoteWindowSize := 65535\<rparr>"
  define sB2 where "sB2 = sB\<lparr>ConnState := ESTABLISHED, RemoteWindowSize := 65535\<rparr>"
  have ip: "TLocalIP lA1 = ?ipA" "TLocalIP lB1 = ?ipB" by (simp_all add: lA1_def lB1_def)
  have isn: "InitSeqNum sA = isnA" "InitSeqNum sB = isnB" "RemoteISN sB = isnA"
    by (simp_all add: sA_def sB_def)
  have start: "VConnect_start EA rnd isnA lA ?ipB port =
      Some (lA1, [Sent ?ipB (MarshalTCP T syn)], Inr conn)"
    using VConnect_start_sends [OF assms(7) conn assms(9) net(1), of isnA] assms(1)
    by (simp add: syn_def lA1_def sA_def)
  have accept: "VAccept_syn EB isnB lst lB syn =
      (lB1, [Sent ?ipA (MarshalTCP T synack)], Inr (mirror conn))"
    using VAccept_syn_answers [where conn = "mirror conn" and p = syn and lst = lst and l = lB and
        isn = isnB and E = EB, OF _ _ refl] net(2) assms(2,5,6)
    by (simp add: syn_def synack_def lB1_def sB_def mirror_def conn)
  have connected: "VConnect_synack EA lA1 conn synack =
      (store_socket conn sA2 lA1, [Sent ?ipB (MarshalTCP T ack)], Inr conn)"
    using VConnect_synack_answers [where conn = conn and s = sA and l = lA1 and p = synack and E = EA,
        OF _ _ _ refl] net(1) assms(1)
    by (simp add: synack_def ack_def lA1_def isn sA2_def conn or.commute)
  have accepted: "VAccept_ack lB1 (mirror conn) ack =
      (store_socket (mirror conn) sB2 lB1, Inr (mirror conn))"
    by (simp add: VAccept_ack_def lB1_def ack_def isn sB2_def)
  have segs: "segment_from conn syn" "segment_from (mirror conn) synack" "segment_from conn ack"
    by (simp_all add: segment_from_def syn_def synack_def ack_def ip conn mirror_def)
  have ends: "fresh_end EA (socketIDCounter lA) conn isnA isnB sA2"
    "fresh_end EB (socketIDCounter lB) (mirror conn) isnB isnA sB2"
    by (simp_all add: fresh_end_def opened_def sA2_def sB2_def sA_def sB_def MakeTCPSocket_def sock_inv_def
        flight_inv_def RTOMin_def RTOMax_def heap_upto_def)
  show ?thesis
    by (intro exI [of _ lA1] exI [of _ lB1] exI [of _ syn] exI [of _ synack] exI [of _ ack] exI [of _ sA]
        exI [of _ sB] exI [of _ sA2] exI [of _ sB2] conjI start accept connected accepted segs ends)
      (simp_all add: lA1_def lB1_def)
qed

text \<open>A segment of a connection, and the handler at its other end.\<close>

lemma TcpHandler_segment_from:
  assumes "tcp_pkgs_ok T" "segment_from conn p" "Src h = LocalIP conn" "Dst h = RemoteIP conn"
    "RemoteIP conn = TLocalIP l"
  shows "TcpHandler T l (MarshalTCP T p) h =
    Inr (case map_of (SocketTable l) (mirror conn) of
           Some s \<Rightarrow> ToSocket (mirror conn) p
         | None \<Rightarrow> (case map_of (ListenersTable l) (RemotePort conn) of
                      Some _ \<Rightarrow> ToListener (RemotePort conn) p
                    | None \<Rightarrow> NoListener (RemotePort conn)))"
  using TcpHandler_deliver [OF assms(1), of p h l "mirror conn"] assms(2-5)
  by (auto simp: segment_from_def mirror_def split: option.split)

text \<open>C11: The handshake completes and both ends agree. A host that connects to a port another layer
  listens on sends a SYN, which the other's handler gives to the listener; \<open>VAccept\<close> answers with a
  SYN-ACK, which reaches the connecting socket; its ACK reaches the accepting one. Both calls
  return, with mirrored connections, and each socket is established, knows its own and its
  peer's initial sequence number and expects byte one.\<close>

theorem handshake_completes:
  assumes "tcp_pkgs_ok T" "TPkg EA = T" "TPkg EB = T"
    and "net_takes EA (TLocalIP lB)" "net_takes EB (TLocalIP lA)"
    and "map_of (ListenersTable lB) port = Some lst" "LIPAddress lst = TLocalIP lB"
      "LPortNumber lst = port"
    and "getUnusedPort lA rnd = Some aport"
    and "conn = \<lparr>LocalIP = TLocalIP lA, LocalPort = aport, RemoteIP = TLocalIP lB, RemotePort = port\<rparr>"
    and "map_of (SocketTable lA) conn = None" "map_of (SocketTable lB) (mirror conn) = None"
    and "Src hA = TLocalIP lA" "Dst hA = TLocalIP lB" "Src hB = TLocalIP lB" "Dst hB = TLocalIP lA"
  shows "\<exists>lA1 lA2 lB1 lB2 syn synack ack sA sB.
    VConnect_start EA rnd isnA lA (TLocalIP lB) port =
      Some (lA1, [Sent (TLocalIP lB) syn], Inr conn) \<and>
    (\<exists>p. TcpHandler T lB syn hA = Inr (ToListener port p) \<and>
      VAccept_syn EB isnB lst lB p = (lB1, [Sent (TLocalIP lA) synack], Inr (mirror conn))) \<and>
    (\<exists>p. TcpHandler T lA1 synack hB = Inr (ToSocket conn p) \<and>
      VConnect_synack EA lA1 conn p = (lA2, [Sent (TLocalIP lB) ack], Inr conn)) \<and>
    (\<exists>p. TcpHandler T lB1 ack hA = Inr (ToSocket (mirror conn) p) \<and>
      VAccept_ack lB1 (mirror conn) p = (lB2, Inr (mirror conn))) \<and>
    map_of (SocketTable lA2) conn = Some sA \<and> opened conn isnA isnB sA \<and>
    map_of (SocketTable lB2) (mirror conn) = Some sB \<and> opened (mirror conn) isnB isnA sB"
proof -
  note T = assms(1) and conn = assms(10)
  have m: "mirror (mirror conn) = conn" "RemotePort conn = port" by (simp_all add: mirror_def conn)
  obtain lA1 lB1 syn synack ack s1 s2 sA sB where
    l1: "lA1 = store_socket conn s1 (snd (getNextSocketID lA))"
      "lB1 = store_socket (mirror conn) s2 (snd (getNextSocketID lB))" and
    calls: "VConnect_start EA rnd isnA lA (TLocalIP lB) port =
        Some (lA1, [Sent (TLocalIP lB) (MarshalTCP T syn)], Inr conn)"
      "VAccept_syn EB isnB lst lB syn = (lB1, [Sent (TLocalIP lA) (MarshalTCP T synack)], Inr (mirror conn))"
      "VConnect_synack EA lA1 conn synack =
        (store_socket conn sA lA1, [Sent (TLocalIP lB) (MarshalTCP T ack)], Inr conn)"
      "VAccept_ack lB1 (mirror conn) ack = (store_socket (mirror conn) sB lB1, Inr (mirror conn))" and
    segs: "segment_from conn syn" "segment_from (mirror conn) synack" "segment_from conn ack" and
    ends: "opened conn isnA isnB sA" "opened (mirror conn) isnB isnA sB"
    using handshake_calls [OF assms(2-5,7-9) conn assms(11), of isnA isnB] unfolding fresh_end_def by blast
  have toB: "TcpHandler T lB (MarshalTCP T syn) hA = Inr (ToListener port syn)"
    using TcpHandler_segment_from [OF T segs(1), of hA lB] assms(6,12-14) by (simp add: conn)
  have toA: "TcpHandler T lA1 (MarshalTCP T synack) hB = Inr (ToSocket conn synack)"
    using TcpHandler_segment_from [OF T segs(2), of hB lA1, unfolded m] assms(15,16)
    by (simp add: conn mirror_def l1(1))
  have toB': "TcpHandler T lB1 (MarshalTCP T ack) hA = Inr (ToSocket (mirror conn) ack)"
    using TcpHandler_segment_from [OF T segs(3), of hA lB1] assms(13,14) by (simp add: conn l1(2))
  show ?thesis
    by (intro exI conjI, rule calls(1), rule toB, rule calls(2), rule toA, rule calls(3), rule toB',
        rule calls(4), simp, rule ends(1), simp, rule ends(2))
qed

definition host_layer :: "Addr \<Rightarrow> (int \<times> u8 list) TCPLayer" where
  "host_layer ip = \<lparr>SocketTable = [], ListenersTable = [], TLocalIP = ip, UsedPorts = [],
     socketIDCounter = 0\<rparr>"

lemma unused_port_none_used: "unused_port [] rnd k = Some (random_port (rnd k))"
  by (subst unused_port.simps) simp

theorem handshake_completes_witness:
  "\<exists>lA1 effs lB1 synack syn ack lB2.
     VConnect_start sample_env (\<lambda>_. 5) 7 (host_layer (sample_ip 0 1)) (sample_ip 1 2) 80 =
       Some (lA1, effs, Inr \<lparr>LocalIP = sample_ip 0 1, LocalPort = 1029, RemoteIP = sample_ip 1 2,
         RemotePort = 80\<rparr>) \<and>
     VAccept_syn sample_env 9 \<lparr>LSocketID = 0, LIPAddress = sample_ip 1 2, LPortNumber = 80\<rparr>
       ((host_layer (sample_ip 1 2))\<lparr>ListenersTable :=
         [(80, \<lparr>LSocketID = 0, LIPAddress = sample_ip 1 2, LPortNumber = 80\<rparr>)]\<rparr>) syn =
       (lB1, [Sent (sample_ip 0 1) synack], Inr \<lparr>LocalIP = sample_ip 1 2, LocalPort = 80,
         RemoteIP = sample_ip 0 1, RemotePort = 1029\<rparr>) \<and>
     VAccept_ack lB1 \<lparr>LocalIP = sample_ip 1 2, LocalPort = 80, RemoteIP = sample_ip 0 1,
         RemotePort = 1029\<rparr> ack =
       (lB2, Inr \<lparr>LocalIP = sample_ip 1 2, LocalPort = 80, RemoteIP = sample_ip 0 1,
         RemotePort = 1029\<rparr>)"
proof -
  let ?c = "\<lparr>LocalIP = sample_ip 0 1, LocalPort = 1029, RemoteIP = sample_ip 1 2, RemotePort = 80\<rparr>"
  let ?lst = "\<lparr>LSocketID = 0, LIPAddress = sample_ip 1 2, LPortNumber = 80\<rparr>"
  let ?lA = "host_layer (sample_ip 0 1)"
  let ?lB = "(host_layer (sample_ip 1 2))\<lparr>ListenersTable := [(80, ?lst)]\<rparr>"
  let ?h = "\<lambda>s d. sample_header\<lparr>Src := s, Dst := d\<rparr>"
  have pk: "tcp_pkgs_ok (TPkg sample_env)" by (simp add: sample_env_def wire_tcp_ok)
  have net: "\<And>dst. net_takes sample_env dst" by simp
  have port: "getUnusedPort ?lA (\<lambda>_. 5) = Some 1029"
    by (simp add: getUnusedPort_def host_layer_def unused_port_none_used random_port_def)
  have m: "mirror ?c = \<lparr>LocalIP = sample_ip 1 2, LocalPort = 80, RemoteIP = sample_ip 0 1,
      RemotePort = 1029\<rparr>" by (simp add: mirror_def)
  from handshake_completes [where lst = ?lst and port = 80 and lA = ?lA and lB = ?lB and conn = ?c and
      isnA = 7 and isnB = 9 and hA = "?h (sample_ip 0 1) (sample_ip 1 2)" and
      hB = "?h (sample_ip 1 2) (sample_ip 0 1)", OF pk refl refl net net _ _ _ port]
  show ?thesis unfolding m by (simp add: host_layer_def) blast
qed

section \<open>The choice of a port\<close>

lemma random_port_ge: "1024 \<le> uint (random_port r)"
proof -
  have "unat (r mod 64512) < 64512" by (simp add: unat_mod)
  then have "unat (1024 + r mod 64512) = 1024 + unat (r mod 64512)"
    by (subst unat_add_lem [THEN iffD1]) simp_all
  then have "unat (random_port r) = 1024 + unat (r mod 64512)"
    using \<open>unat (r mod 64512) < 64512\<close>
    by (simp add: random_port_def unsigned_ucast_eq take_bit_nat_eq_self)
  then show ?thesis unfolding unat_eq_nat_uint by linarith
qed

section \<open>The tables of a layer\<close>

text \<open>What the socket calls, the handler's \<open>CloseSocket\<close> and the end of a connection do to the
  layer. A step of a connection changes its socket, but neither its ID nor its addresses.\<close>

datatype 'b layer_op =
    Listen u16
  | CloseListener VTCPListener
  | Accept_syn u32 VTCPListener TCPPacket
  | Accept_ack VTCPConn TCPPacket
  | Connect "nat \<Rightarrow> u32" u32 Addr u16
  | Connect_synack VTCPConn TCPPacket
  | Connect_closed VTCPConn
  | Connection VTCPConn "'b TCPSocket"
  | Remove VTCPConn

fun layer_step :: "'b tcp_env \<Rightarrow> 'b TCPLayer \<Rightarrow> 'b layer_op \<Rightarrow> 'b TCPLayer" where
  "layer_step E l (Listen port) = (case VListen l port of Inl e \<Rightarrow> l | Inr (l', _) \<Rightarrow> l')"
| "layer_step E l (CloseListener x) = (case VClose_listener l x of Inl e \<Rightarrow> l | Inr l' \<Rightarrow> l')"
| "layer_step E l (Accept_syn isn x p) = fst (VAccept_syn E isn x l p)"
| "layer_step E l (Accept_ack conn p) = fst (VAccept_ack l conn p)"
| "layer_step E l (Connect rnd isn ip port) =
     (case VConnect_start E rnd isn l ip port of None \<Rightarrow> l | Some (l', _) \<Rightarrow> l')"
| "layer_step E l (Connect_synack conn p) = fst (VConnect_synack E l conn p)"
| "layer_step E l (Connect_closed conn) = fst (VConnect_closed l conn)"
| "layer_step E l (Connection conn s) =
     (case map_of (SocketTable l) conn of
        None \<Rightarrow> l
      | Some old \<Rightarrow> if SocketID s = SocketID old \<and> SConn s = SConn old then store_socket conn s l else l)"
| "layer_step E l (Remove conn) = TimeWait_over l conn"

text \<open>When \<open>n\<close> IDs have been handed out: an ID is that of one socket or one listener, and each
  is filed under its own key.\<close>

definition named :: "nat \<Rightarrow> (VTCPConn \<rightharpoonup> 'b TCPSocket) \<Rightarrow> (u16 \<rightharpoonup> VTCPListener) \<Rightarrow> bool" where
  "named n T L \<longleftrightarrow>
     (\<forall>c s. T c = Some s \<longrightarrow> unat (SocketID s) < n \<and> SConn s = c) \<and>
     (\<forall>p x. L p = Some x \<longrightarrow> unat (LSocketID x) < n \<and> LPortNumber x = p) \<and>
     (\<forall>c s c' s'. T c = Some s \<longrightarrow> T c' = Some s' \<longrightarrow> SocketID s = SocketID s' \<longrightarrow> c = c') \<and>
     (\<forall>p x p' x'. L p = Some x \<longrightarrow> L p' = Some x' \<longrightarrow> LSocketID x = LSocketID x' \<longrightarrow> p = p') \<and>
     (\<forall>c s p x. T c = Some s \<longrightarrow> L p = Some x \<longrightarrow> SocketID s \<noteq> LSocketID x)"

definition layer_ok :: "nat \<Rightarrow> 'b TCPLayer \<Rightarrow> bool" where
  "layer_ok n l \<longleftrightarrow>
     distinct (map fst (SocketTable l)) \<and> distinct (map fst (ListenersTable l)) \<and>
     socketIDCounter l = of_nat n \<and> UsedPorts l = [] \<and>
     named n (map_of (SocketTable l)) (map_of (ListenersTable l))"

lemma named_new_socket:
  assumes "named n T L" "unat (SocketID s) = n" "SConn s = c"
  shows "named (Suc n) (T(c \<mapsto> s)) L"
proof -
  have T: "unat (SocketID s') < Suc n" "SConn s' = c'" "SocketID s' \<noteq> SocketID s" if "T c' = Some s'" for c' s'
    using assms(1,2) that unfolding named_def by (blast intro: less_SucI, blast, metis less_irrefl)
  have L: "unat (LSocketID x) < Suc n" "LPortNumber x = p" "LSocketID x \<noteq> SocketID s" if "L p = Some x" for p x
    using assms(1,2) that unfolding named_def by (blast intro: less_SucI, blast, metis less_irrefl)
  have "\<forall>c s c' s'. T c = Some s \<longrightarrow> T c' = Some s' \<longrightarrow> SocketID s = SocketID s' \<longrightarrow> c = c'"
    "\<forall>p x p' x'. L p = Some x \<longrightarrow> L p' = Some x' \<longrightarrow> LSocketID x = LSocketID x' \<longrightarrow> p = p'"
    "\<forall>c s p x. T c = Some s \<longrightarrow> L p = Some x \<longrightarrow> SocketID s \<noteq> LSocketID x"
    using assms(1) by (simp_all add: named_def)
  note uniq = this
  show ?thesis
    unfolding named_def
    using uniq T L assms(2,3) by (intro conjI) (simp_all, metis+)
qed

lemma named_new_listener:
  assumes "named n T L" "unat (LSocketID x) = n" "LPortNumber x = p"
  shows "named (Suc n) T (L(p \<mapsto> x))"
proof -
  have T: "unat (SocketID s) < Suc n" "SConn s = c" "SocketID s \<noteq> LSocketID x" if "T c = Some s" for c s
    using assms(1,2) that unfolding named_def by (blast intro: less_SucI, blast, metis less_irrefl)
  have L: "unat (LSocketID y) < Suc n" "LPortNumber y = q" "LSocketID y \<noteq> LSocketID x" if "L q = Some y" for q y
    using assms(1,2) that unfolding named_def by (blast intro: less_SucI, blast, metis less_irrefl)
  have "\<forall>c s c' s'. T c = Some s \<longrightarrow> T c' = Some s' \<longrightarrow> SocketID s = SocketID s' \<longrightarrow> c = c'"
    "\<forall>p x p' x'. L p = Some x \<longrightarrow> L p' = Some x' \<longrightarrow> LSocketID x = LSocketID x' \<longrightarrow> p = p'"
    "\<forall>c s p x. T c = Some s \<longrightarrow> L p = Some x \<longrightarrow> SocketID s \<noteq> LSocketID x"
    using assms(1) by (simp_all add: named_def)
  note uniq = this
  show ?thesis
    unfolding named_def
    using uniq T L assms(2,3) by (intro conjI) (simp_all, metis+)
qed

lemma named_update_socket:
  assumes "named n T L" "T c = Some old" "SocketID s = SocketID old" "SConn s = SConn old"
  shows "named n (T(c \<mapsto> s)) L"
  using assms unfolding named_def by (auto split: if_splits)

lemma named_delete: "named n T L \<Longrightarrow> named n (T(c := None)) L" "named n T L \<Longrightarrow> named n T (L(p := None))"
  unfolding named_def by (auto split: if_splits)

lemma layer_ok_Init: "Init_tcp st = Inr l \<Longrightarrow> layer_ok 0 l"
  by (auto simp: Init_tcp_def layer_ok_def named_def split: list.splits)

lemma layer_ok_counter: "layer_ok n l \<Longrightarrow> n < 2 ^ 32 \<Longrightarrow> unat (socketIDCounter l) = n"
  by (simp add: layer_ok_def unsigned_of_nat take_bit_nat_eq_self)

lemma layer_ok_new_socket:
  assumes "layer_ok n l" "n < 2 ^ 32" "SocketID s = socketIDCounter l" "SConn s = c"
  shows "layer_ok (Suc n) (store_socket c s (snd (getNextSocketID l)))"
  using assms(1) named_new_socket [of n _ _ s c] layer_ok_counter [OF assms(1,2)] assms(3,4)
  by (simp add: layer_ok_def store_socket_def getNextSocketID_def update_conv' distinct_update)

lemma layer_ok_new_listener:
  assumes "layer_ok n l" "n < 2 ^ 32" "VListen l port = Inr (l', x)"
  shows "layer_ok (Suc n) l'"
proof -
  let ?x = "\<lparr>LSocketID = socketIDCounter l, LIPAddress = TLocalIP l, LPortNumber = port\<rparr>"
  have "named (Suc n) (map_of (SocketTable l)) ((map_of (ListenersTable l))(port \<mapsto> ?x))"
    using assms(1) layer_ok_counter [OF assms(1,2)]
    by (intro named_new_listener) (simp_all add: layer_ok_def)
  then show ?thesis
    using assms(1,3)
    by (auto simp: layer_ok_def VListen_def getNextSocketID_def update_conv' distinct_update Let_def
        split: if_splits)
qed

lemma layer_ok_update_socket:
  assumes "layer_ok n l" "map_of (SocketTable l) c = Some old" "SocketID s = SocketID old"
    "SConn s = SConn old"
  shows "layer_ok n (store_socket c s l)"
  using assms(1) named_update_socket [of n _ _ c old s] assms(2-4)
  by (simp add: layer_ok_def store_socket_def update_conv' distinct_update)

lemma layer_ok_delete:
  assumes "layer_ok n l"
  shows "layer_ok n (l\<lparr>SocketTable := AList.delete c (SocketTable l)\<rparr>)"
    and "layer_ok n (l\<lparr>ListenersTable := AList.delete p (ListenersTable l)\<rparr>)"
  using assms by (auto simp: layer_ok_def delete_conv' distinct_delete intro: named_delete)

lemma layer_step_ok:
  assumes "layer_ok n l" "n < 2 ^ 32"
  shows "layer_ok n (layer_step E l x) \<or> layer_ok (Suc n) (layer_step E l x)"
proof (cases x)
  case (Listen port)
  then show ?thesis
    using layer_ok_new_listener [OF assms] assms(1) by (auto split: sum.split prod.split)
next
  case (CloseListener y)
  then show ?thesis using layer_ok_delete [OF assms(1)] assms(1) by (simp add: VClose_listener_def)
next
  case (Accept_syn isn y p)
  let ?c = "\<lparr>LocalIP = LIPAddress y, LocalPort = LPortNumber y, RemoteIP = SrcIP p,
    RemotePort = SrcPort (Header p)\<rparr>"
  have "layer_ok (Suc n) (store_socket ?c s (snd (getNextSocketID l)))"
    if "SocketID s = socketIDCounter l" "SConn s = ?c" for s
    using layer_ok_new_socket [OF assms that] .
  then show ?thesis
    using assms(1) Accept_syn
    by (simp add: VAccept_syn_def getNextSocketID_def Let_def split: prod.split option.split)
next
  case (Accept_ack conn p)
  then show ?thesis
    using layer_ok_update_socket [OF assms(1)] assms(1)
    by (simp add: VAccept_ack_def split: option.split)
next
  case (Connect rnd isn ip port)
  then show ?thesis
    using layer_ok_new_socket [OF assms] assms(1)
    by (simp add: VConnect_start_def getNextSocketID_def Let_def split: prod.split option.split)
next
  case (Connect_synack conn p)
  then show ?thesis
    using layer_ok_update_socket [OF assms(1)] assms(1)
    by (simp add: VConnect_synack_def Let_def split: prod.split option.split)
next
  case (Connection conn s)
  then show ?thesis
    using layer_ok_update_socket [OF assms(1)] assms(1) by (simp split: option.split)
qed (use layer_ok_delete [OF assms(1)] in \<open>simp_all add: VConnect_closed_def TimeWait_over_def\<close>)

text \<open>The layer with the number of operations it has seen: no more IDs than these are handed out.\<close>

interpretation layers: op_machine "\<lambda>(l, n) x. (layer_step E l x, Suc n)"
  "\<lambda>(l, n). n \<le> 2 ^ 32 \<longrightarrow> (\<exists>k \<le> n. layer_ok k l)" "\<lambda>_. True"
  for E :: "'b tcp_env"
proof unfold_locales
  fix st :: "'b TCPLayer \<times> nat" and x
  assume "case st of (l, n) \<Rightarrow> n \<le> 2 ^ 32 \<longrightarrow> (\<exists>k \<le> n. layer_ok k l)"
  moreover obtain l n where st: "st = (l, n)" by fastforce
  ultimately have inv: "n \<le> 2 ^ 32 \<longrightarrow> (\<exists>k \<le> n. layer_ok k l)" by simp
  have "\<exists>k \<le> Suc n. layer_ok k (layer_step E l x)" if "Suc n \<le> 2 ^ 32"
  proof -
    have "n \<le> 2 ^ 32" using that by (rule Suc_leD)
    then obtain k where k: "k \<le> n" "layer_ok k l" using inv by blast
    then have "k < 2 ^ 32" using that by simp
    from layer_step_ok [OF k(2) this, of E x] k(1) show ?thesis
      by (metis Suc_le_mono le_SucI)
  qed
  then show "case (case st of (l, n) \<Rightarrow> \<lambda>x. (layer_step E l x, Suc n)) x of
      (l, n) \<Rightarrow> n \<le> 2 ^ 32 \<longrightarrow> (\<exists>k \<le> n. layer_ok k l)"
    by (simp add: st)
qed

lemma count_steps:
  "foldl (\<lambda>(l, n) x. (layer_step E l x, Suc n)) (l, n) ops = (foldl (layer_step E) l ops, n + length ops)"
  by (induction ops arbitrary: l n) auto

lemma layer_run_ok:
  assumes "Init_tcp stack = Inr l" "length ops \<le> 2 ^ 32"
  shows "\<exists>k. layer_ok k (foldl (layer_step E) l ops)"
proof -
  have "case (l, 0) of (l, n) \<Rightarrow> n \<le> 2 ^ 32 \<longrightarrow> (\<exists>k \<le> n. layer_ok k l)"
    using layer_ok_Init [OF assms(1)] by auto
  from layers.run_inv [OF this, of ops E] have
    "length ops \<le> 2 ^ 32 \<longrightarrow> (\<exists>k \<le> length ops. layer_ok k (foldl (layer_step E) l ops))"
    unfolding count_steps by simp
  then show ?thesis using assms(2) by blast
qed

lemma layer_find_socket:
  assumes "layer_ok k l" "set (ord (SocketTable l)) = set (SocketTable l)" "map_of (SocketTable l) c = Some s"
  shows "GetSocketById ord l (uint (SocketID s)) = Some s"
proof -
  have nm: "named k (map_of (SocketTable l)) (map_of (ListenersTable l))"
    and keys: "distinct (map fst (SocketTable l))" using assms(1) by (simp_all add: layer_ok_def)
  have "find (\<lambda>x. uint (SocketID (snd x)) = uint (SocketID s)) (ord (SocketTable l)) = Some (c, s)"
  proof (rule find_unique)
    show "(c, s) \<in> set (ord (SocketTable l))" using assms(2,3) by (simp add: map_of_SomeD)
    fix y assume y: "y \<in> set (ord (SocketTable l))" "uint (SocketID (snd y)) = uint (SocketID s)"
    then have "map_of (SocketTable l) (fst y) = Some (snd y)" using assms(2) keys by simp
    moreover have "SocketID (snd y) = SocketID s" using y(2) by (rule word_uint_eqI)
    ultimately show "y = (c, s)" using assms(3) nm unfolding named_def
      by (metis option.inject prod.collapse)
  qed simp
  then show ?thesis by (simp add: GetSocketById_def)
qed

text \<open>C21: An ID names one socket. Up to 2^32 operations after \<open>Init\<close>, each socket in the table is filed
  under its own connection, \<open>GetSocketById\<close> finds exactly it by its ID in whatever order the map
  is visited, no listener has that ID, so \<open>cl\<close> never closes a listener in place of a socket, and
  a listener is found by its own.\<close>

theorem ids_name_sockets:
  assumes "Init_tcp stack = Inr l" and "length ops \<le> 2 ^ 32"
    and "l' = foldl (layer_step E) l ops" and "mset (ord (SocketTable l')) = mset (SocketTable l')"
    and "mset (lord (ListenersTable l')) = mset (ListenersTable l')"
  shows "(\<forall>c s. GetSocketByConn l' c = Some s \<longrightarrow> SConn s = c \<and>
      GetSocketById ord l' (uint (SocketID s)) = Some s \<and>
      GetListenerBySocketId lord l' (uint (SocketID s)) = None) \<and>
    (\<forall>p x. map_of (ListenersTable l') p = Some x \<longrightarrow>
      GetListenerBySocketId lord l' (uint (LSocketID x)) = Some x)"
proof -
  obtain k where ok: "layer_ok k l'" using layer_run_ok [OF assms(1,2)] assms(3) by blast
  then have nm: "named k (map_of (SocketTable l')) (map_of (ListenersTable l'))"
    and keys: "distinct (map fst (SocketTable l'))" "distinct (map fst (ListenersTable l'))"
    by (simp_all add: layer_ok_def)
  have sets: "set (ord (SocketTable l')) = set (SocketTable l')"
    "set (lord (ListenersTable l')) = set (ListenersTable l')"
    using assms(4,5) by (auto dest: mset_eq_setD)
  have lst: "find (\<lambda>x. LSocketID (snd x) = LSocketID s) (lord (ListenersTable l')) = Some (c, s)"
    if "map_of (ListenersTable l') c = Some s" for c s
  proof (rule find_unique)
    show "(c, s) \<in> set (lord (ListenersTable l'))" using that sets by (simp add: map_of_SomeD)
    fix y assume y: "y \<in> set (lord (ListenersTable l'))" "LSocketID (snd y) = LSocketID s"
    then have "map_of (ListenersTable l') (fst y) = Some (snd y)" using sets keys(2) by simp
    then show "y = (c, s)" using that y(2) nm unfolding named_def
      by (metis option.inject prod.collapse)
  qed simp
  have none: "find (\<lambda>x. LSocketID (snd x) = SocketID s) (lord (ListenersTable l')) = None"
    if "map_of (SocketTable l') c = Some s" for c s
  proof -
    have "LSocketID (snd y) \<noteq> SocketID s" if y: "y \<in> set (ListenersTable l')" for y
    proof -
      have "map_of (ListenersTable l') (fst y) = Some (snd y)" using y keys(2) by simp
      then show ?thesis using \<open>map_of (SocketTable l') c = Some s\<close> nm unfolding named_def by metis
    qed
    then show ?thesis unfolding find_None_iff using sets(2) by fastforce
  qed
  show ?thesis
  proof (intro conjI allI impI)
    fix c s assume "GetSocketByConn l' c = Some s"
    then have c: "map_of (SocketTable l') c = Some s" by (simp add: GetSocketByConn_def)
    show "SConn s = c" using c nm unfolding named_def by blast
    show "GetSocketById ord l' (uint (SocketID s)) = Some s" by (rule layer_find_socket [where ord = ord, OF ok sets(1) c])
    show "GetListenerBySocketId lord l' (uint (SocketID s)) = None"
      by (simp add: GetListenerBySocketId_def none [OF c])
  next
    fix p x assume "map_of (ListenersTable l') p = Some x"
    then show "GetListenerBySocketId lord l' (uint (LSocketID x)) = Some x"
      by (simp add: GetListenerBySocketId_def lst)
  qed
qed

theorem ids_name_sockets_witness:
  "\<exists>(l :: (int \<times> u8 list) TCPLayer) s. GetSocketByConn l sample_conn = Some s \<and> GetSocketById rev l 1 = Some s \<and>
     GetListenerBySocketId rev l 1 = None"
proof -
  let ?stack = "\<lparr>Name = ''h1'', NetLayer = h1, LnkLayer = \<lparr>LInterfaces = [h1_if0]\<rparr>\<rparr>"
  obtain l where l: "(Init_tcp ?stack :: (int \<times> u8 list) TCPLayer res) = Inr l"
    by (simp add: Init_tcp_def)
  let ?op = "Accept_syn 9 \<lparr>LSocketID = 0, LIPAddress = sample_ip 0 1, LPortNumber = 40000\<rparr>
    (handshake_packet (host_layer (sample_ip 1 2)) 80 40000 7 0 TCPFlagSyn)"
  let ?l = "foldl (layer_step sample_env) l [Listen 40000, ?op]"
  have len: "length [Listen 40000, ?op] \<le> 2 ^ 32" by simp
  have s: "GetSocketByConn ?l sample_conn = Some
      ((MakeTCPSocket list_rb 1 9 SYN_SENT sample_conn 7)\<lparr>NextExpectedByte := 1\<rparr>)"
    using l by (auto simp: Init_tcp_def VListen_def getNextSocketID_def VAccept_syn_def
        send_segment_def sample_env_def store_socket_def GetSocketByConn_def sample_conn_def
        host_layer_def MakeTCPSocket_def h1_if0_def sample_if_def Let_def)
  obtain L where L: "L = ?l" by simp
  note all = ids_name_sockets [where ord = rev and lord = rev, OF l len L mset_rev mset_rev,
      THEN conjunct1, rule_format, OF s [folded L]]
  have id: "uint (SocketID ((MakeTCPSocket list_rb 1 9 SYN_SENT sample_conn 7)
      \<lparr>NextExpectedByte := 1\<rparr>)) = 1" by simp
  show ?thesis using all s [folded L] unfolding id by blast
qed

text \<open>\<open>getUnusedPort\<close> always returns, after one draw, with a port of at least 1024. It must: no call
  ever enters a port in \<open>UsedPorts\<close>, so the draw is not checked against any port in use.\<close>

theorem port_drawn_once:
  assumes "Init_tcp stack = Inr l" and "length ops \<le> 2 ^ 32"
  shows "getUnusedPort (foldl (layer_step E) l ops) rnd = Some (random_port (rnd 0)) \<and>
    1024 \<le> uint (random_port (rnd 0)) \<and> UsedPorts (foldl (layer_step E) l ops) = []"
proof -
  have "UsedPorts (foldl (layer_step E) l ops) = []"
    using layer_run_ok [OF assms, of E] by (auto simp: layer_ok_def)
  then show ?thesis by (simp add: getUnusedPort_def unused_port_none_used random_port_ge)
qed

theorem port_drawn_once_witness:
  "getUnusedPort (layer_step sample_env (host_layer (sample_ip 0 1)) (Listen 1029)) (\<lambda>_. 5) = Some 1029"
proof -
  let ?stack = "\<lparr>Name = ''h1'', NetLayer = h1, LnkLayer = \<lparr>LInterfaces = [h1_if0]\<rparr>\<rparr>"
  have l: "Init_tcp ?stack = Inr (host_layer (sample_ip 0 1))"
    by (simp add: Init_tcp_def host_layer_def h1_if0_def sample_if_def)
  have "length [Listen 1029 :: (int \<times> u8 list) layer_op] \<le> 2 ^ 32" by simp
  from port_drawn_once [OF l this, of sample_env "\<lambda>_. 5"]
  show ?thesis by (simp add: random_port_def)
qed

end
