(* ===== verification/TcpTeardown.thy ===== *)
theory TcpTeardown
  imports TcpHandshake
begin

text \<open>
  What a connection does over time: which state changes its steps make, what an acknowledgment
  removes from the retransmission queue and what stays there, and what the socket calls answer
  once a connection closes.
\<close>

section \<open>State changes\<close>

text \<open>The moves of the closing part of RFC 793's diagram that the code makes.\<close>

inductive closes :: "TCPState \<Rightarrow> TCPState \<Rightarrow> bool" where
  user_close: "closes ESTABLISHED FIN_WAIT_1"
| peer_close: "closes ESTABLISHED CLOSE_WAIT"
| close_after_peer: "closes CLOSE_WAIT LAST_ACK"
| fin_acked: "closes FIN_WAIT_1 FIN_WAIT_2"
| simultaneous: "closes FIN_WAIT_1 CLOSING"
| fin_and_ack: "closes FIN_WAIT_1 TIME_WAIT"
| peer_fin: "closes FIN_WAIT_2 TIME_WAIT"
| last_ack: "closes LAST_ACK CLOSED"

inductive_simps closes_from [simp]: "closes CLOSING t" "closes TIME_WAIT t" "closes CLOSED t"
  "closes SYN_SENT t" "closes SYN_RECEIVED t" "closes LISTEN t"

lemma closes_higher: "closes s t \<Longrightarrow> s < t \<or> t = CLOSED"
  by (induction rule: closes.induct) (simp_all add: less_TCPState_def)

lemma closes_into_ESTABLISHED: "closes\<^sup>*\<^sup>* s ESTABLISHED \<Longrightarrow> s = ESTABLISHED"
  by (erule rtranclp.cases) (auto elim: closes.cases)

lemma closes_out_of_CLOSING: "closes\<^sup>*\<^sup>* CLOSING t \<Longrightarrow> t = CLOSING"
  by (erule converse_rtranclpE) auto

lemmas closes_steps = closes.intros [THEN r_into_rtranclp [of closes]]

section \<open>How a step changes a socket\<close>

text \<open>What a segment in the queue is, whatever becomes of its retransmission mark.\<close>

definition segs :: "'b TCPSocket \<Rightarrow> (int \<times> TCPPacket) set" where
  "segs s = (\<lambda>it. (Priority it, Value it)) ` set (RTQueue s)"

definition covered :: "'b TCPSocket \<Rightarrow> int \<times> TCPPacket \<Rightarrow> bool" where
  "covered s x \<longleftrightarrow> fst x + int (length (Data (snd x))) \<le> uint (LargestAck s)"

text \<open>The number under which the code files a segment is the one in its header.\<close>

definition numbered :: "int \<times> TCPPacket \<Rightarrow> bool" where
  "numbered x \<longleftrightarrow> fst x = uint (SeqNum (Header (snd x)))"

text \<open>The socket moves on: it keeps its name, its state follows the diagram, acknowledgments do not
  go back, a queued segment stays until the code's test lets it go, and a new one is filed under
  its own number.\<close>

definition evolves :: "'b TCPSocket \<Rightarrow> 'b TCPSocket \<Rightarrow> bool" where
  "evolves s t \<longleftrightarrow> SocketID t = SocketID s \<and> SConn t = SConn s \<and> InitSeqNum t = InitSeqNum s \<and>
     closes\<^sup>*\<^sup>* (ConnState s) (ConnState t) \<and> LargestAck s \<le> LargestAck t \<and>
     (\<forall>x \<in> segs s. x \<in> segs t \<or> covered t x) \<and> (\<forall>x \<in> segs t. x \<in> segs s \<or> numbered x)"

lemma evolves_refl [simp]: "evolves s s"
  by (simp add: evolves_def)

lemma evolves_trans: "evolves s t \<Longrightarrow> evolves t u \<Longrightarrow> evolves s u"
  unfolding evolves_def covered_def
  by (auto intro: rtranclp_trans order_trans simp: word_le_def)

lemma evolves_same:
  "SocketID t = SocketID s \<Longrightarrow> SConn t = SConn s \<Longrightarrow> InitSeqNum t = InitSeqNum s \<Longrightarrow>
     ConnState t = ConnState s \<Longrightarrow> LargestAck t = LargestAck s \<Longrightarrow> RTQueue t = RTQueue s \<Longrightarrow>
     evolves s t"
  by (simp add: evolves_def segs_def)

lemma evolves_state:
  "closes\<^sup>*\<^sup>* (ConnState s) st \<Longrightarrow> evolves s (s\<lparr>ConnState := st\<rparr>)"
  by (simp add: evolves_def segs_def)

lemma closes_early_fin: "closes\<^sup>*\<^sup>* (ConnState s) (ConnState (fst (early_fin s)))"
  by (simp add: early_fin_def closes_steps split: TCPState.split)

lemma evolves_WriteSegment [simp]: "evolves s (WriteSegment E s p)"
  by (rule evolves_same) (simp_all add: WriteSegment_def Let_def split: prod.split)

lemma evolves_early_fin: "evolves s (fst (early_fin s))"
proof -
  have "fst (early_fin s) = s\<lparr>ConnState := ConnState (fst (early_fin s))\<rparr>"
    by (simp add: early_fin_def split: TCPState.split)
  then show ?thesis using evolves_state [OF closes_early_fin, of s] by simp
qed

lemma evolves_take_early: "evolves s (fst (take_early E s it))"
  by (simp add: take_early_def evolves_early_fin)

lemma evolves_drain: "evolves s (fst (drain E s))"
proof (induction E s rule: drain.induct)
  case (1 E s)
  let ?q = "EarlyArrivalQueue s"
  show ?case
  proof (cases "0 < length ?q \<and> uint (NextExpectedByte s) = Priority (?q ! 0)")
    case True
    obtain s1 effs where r: "take_early E s (?q ! 0) = (s1, effs)" by fastforce
    have s1: "evolves s s1" using evolves_take_early [of s E "?q ! 0"] by (simp add: r)
    have q1: "EarlyArrivalQueue s1 = ?q"
      using EarlyArrivalQueue_take_early [of E s "?q ! 0"] by (simp add: r)
    show ?thesis
    proof (cases "heap_Pop ?q")
      case (Inl e)
      then have "drain E s = (s1, effs)"
        using True q1 by (subst drain.simps) (simp add: r Let_def)
      then show ?thesis using s1 by simp
    next
      case (Inr y)
      then obtain x q where pop: "heap_Pop ?q = Inr (x, q)" by (cases y) simp
      let ?s2 = "s1\<lparr>EarlyArrivalQueue := q\<rparr>"
      have "evolves s1 ?s2" by (rule evolves_same) simp_all
      moreover have "evolves ?s2 (fst (drain E ?s2))"
        using True pop 1 [of "take_early E s (?q ! 0)" "(x, q)"] q1 by (simp add: r)
      ultimately show ?thesis
        using drain_step [OF _ _ pop r] True s1 evolves_trans by (metis fst_conv)
    qed
  qed (simp add: drain_stop)
qed

lemma evolves_push: "evolves s (s\<lparr>EarlyArrivalQueue := q\<rparr>)"
  by (rule evolves_same) simp_all

lemma evolves_receive_text: "evolves s (fst (receive_text E s p))"
  using evolves_trans [OF evolves_WriteSegment [of s E p] evolves_drain [of "WriteSegment E s p" E]]
  by (simp add: receive_text_def Let_def evolves_push)

lemma evolves_handle_text: "evolves s (fst (handle_text E s p))"
  using evolves_receive_text [of s E p]
  by (cases "receive_text E s p") (simp add: handle_text_def)

lemma evolves_handle_fin: "evolves s (fst (handle_fin E s p))"
proof -
  have "evolves s (fst (fin_transition s p))"
    by (simp add: fin_transition_def evolves_state closes_steps split: TCPState.split)
  then show ?thesis by (simp add: handle_fin_def Let_def evolves_push)
qed

text \<open>Acknowledgments.\<close>

lemma drop_acked_id [simp]: "SocketID (drop_acked E now it q s) = SocketID s"
  by (simp add: drop_acked_def update_RTO_def Let_def)

lemma evolves_drop_acked:
  assumes "RTQueue s = it # q" "acked_prefix_item s it"
  shows "evolves s (drop_acked E now it q s)"
proof -
  have "closes\<^sup>*\<^sup>* (ConnState s) (ConnState (drop_acked E now it q s))"
    by (simp add: closes_steps)
  moreover have "\<forall>x \<in> segs s. x \<in> segs (drop_acked E now it q s) \<or> covered (drop_acked E now it q s) x"
    using assms by (auto simp: segs_def covered_def acked_prefix_item_def)
  moreover have "segs (drop_acked E now it q s) \<subseteq> segs s" using assms(1) by (auto simp: segs_def)
  ultimately show ?thesis by (auto simp: evolves_def)
qed

lemma evolves_ack_loop: "evolves s (fst (ack_loop E now s))"
proof (induction "RTQueue s" arbitrary: s)
  case Nil
  then show ?case by (simp add: ack_loop_Nil)
next
  case (Cons it q)
  have q: "RTQueue s = it # q" using Cons.hyps(2) by simp
  have closed: "evolves s (s\<lparr>ConnState := CLOSED, IsClosed := True\<rparr>)" if "ConnState s = LAST_ACK"
    using that by (simp add: evolves_def segs_def closes_steps)
  have "evolves s (fst (ack_loop E now (drop_acked E now it q s)))" if "acked_prefix_item s it"
    by (rule evolves_trans [OF evolves_drop_acked [OF q that, of E now]]) (simp add: Cons.hyps(1))
  then show ?case using closed by (simp add: ack_loop_Cons [OF q])
qed

lemma evolves_handle_ack: "evolves s (fst (handle_ack E now s p))"
proof -
  obtain s3 b where s3: "ack_loop E now (note_ack s (AckNum (Header p))) = (s3, b)" by fastforce
  have loop: "evolves (note_ack s (AckNum (Header p))) s3"
    using evolves_ack_loop [of "note_ack s (AckNum (Header p))" E now] by (simp add: s3)
  have "evolves s s3" if "LargestAck s < AckNum (Header p)"
    by (rule evolves_trans [OF _ loop]) (use that in \<open>simp add: evolves_def segs_def note_ack_def\<close>)
  moreover have "evolves s3 (s3\<lparr>RTTimer := 0\<rparr>)" by (rule evolves_same) simp_all
  ultimately have "evolves s s3" "evolves s (s3\<lparr>RTTimer := 0\<rparr>)" if "LargestAck s < AckNum (Header p)"
    using that evolves_trans by blast+
  then show ?thesis by (simp add: handle_ack_eq [OF s3])
qed

lemma evolves_handle_window: "evolves s (fst (handle_window s p))"
  by (rule evolves_same) (simp_all add: handle_window_def Let_def)

lemma evolves_HandleTCPPacket: "evolves s (fst (HandleTCPPacket E now s p))"
proof (cases "Flags (Header p) = TCPFlagAck")
  case True
  obtain s1 e1 b where a: "handle_ack E now s p = (s1, e1, b)" by (metis prod_cases3)
  obtain s2 e2 where w: "handle_window s1 p = (s2, e2)" by fastforce
  obtain s3 e3 where t: "handle_text E s2 p = (s3, e3)" by fastforce
  have "evolves s s1" "evolves s1 s2" "evolves s2 s3"
    using evolves_handle_ack [of s E now p] evolves_handle_window [of s1 p]
      evolves_handle_text [of s2 E p] by (simp_all add: a w t)
  moreover from this have "evolves s s3" using evolves_trans by blast
  ultimately show ?thesis using True by (simp add: HandleTCPPacket_def a w t)
qed (simp add: HandleTCPPacket_def evolves_handle_fin)

text \<open>The other threads and the calls.\<close>

lemma evolves_sent_segment: "evolves s (sent_segment now p k s)"
  by (auto simp: evolves_def segs_def numbered_def sent_segment_def enqueue_def Let_def)

lemma evolves_send_loop: "evolves s (fst (send_loop E now s payload sz))"
proof (induction "unat sz" arbitrary: s payload sz rule: less_induct)
  case less
  show ?case
  proof (cases "0 < sz")
    case False
    then have "sz = 0" by (simp add: word_greater_zero_iff)
    then show ?thesis by (simp add: send_loop_done)
  next
    case True
    let ?k = "segment_len sz"
    let ?p = "data_packet E s (take ?k payload)"
    let ?s = "sent_segment now ?p (of_nat ?k) s"
    have "unat (sz - of_nat ?k) < unat sz"
      using segment_len_pos [OF True] segment_size(3) [OF True] by (simp add: unat_size_minus)
    from less.hyps [OF this, of ?s "drop ?k payload"]
    have "evolves s (fst (send_loop E now ?s (drop ?k payload) (sz - of_nat ?k)))"
      by (rule evolves_trans [OF evolves_sent_segment])
    then show ?thesis
      unfolding send_loop_step [OF True] Let_def by (simp split: prod.split option.split)
  qed
qed

lemma evolves_SendFinPacket: "evolves s (fst (SendFinPacket E now s))"
  by (auto simp: SendFinPacket_def Let_def evolves_def segs_def numbered_def enqueue_def
      split: prod.split option.split)

lemma evolves_read_payload: "evolves s (fst (read_payload E s n))"
  by (rule evolves_same) (simp_all add: read_payload_def split: prod.split)

lemma evolves_HandleVWrite_turn: "evolves s (fst (HandleVWrite_turn E now s))"
proof -
  define sz :: u32 where "sz = word_of_int (min (uint (RemoteWindowSize s))
    (rb_Length (RPkg E) (WriteBuffer s)))"
  obtain s1 payload where rp: "read_payload E s (uint sz) = (s1, payload)" by fastforce
  obtain s2 e2 where sl: "send_loop E now s1 payload sz = (s2, e2)" by fastforce
  have "evolves s s1" using evolves_read_payload [of s E "uint sz"] by (simp add: rp)
  moreover have "evolves s1 s2" using evolves_send_loop [of s1 E now payload sz] by (simp add: sl)
  ultimately have s2: "evolves s s2" by (rule evolves_trans)
  have zwp: "evolves s (fst (enter_ZWP E s))"
    by (rule evolves_same) (simp_all add: enter_ZWP_def read_payload_def Let_def split: prod.split)
  obtain f ef er where fin: "SendFinPacket E now s = (f, ef, er)" by (metis prod_cases3)
  have "HandleVWrite_turn E now s =
     (if rb_IsEmpty (RPkg E) (WriteBuffer s)
      then if ConnState s \<noteq> ESTABLISHED then (f, ef, Finished) else (s, [], Waiting)
      else if 0 < uint (RemoteWindowSize s) - uint (BytesInFlight s)
           then if sz = 0 then (s, [], Running) else (s2, e2, Running)
           else enter_ZWP E s)"
    by (simp add: HandleVWrite_turn_def Let_def fin rp sl flip: sz_def)
  then show ?thesis using s2 zwp evolves_SendFinPacket [of s E now] by (simp add: fin)
qed

lemma evolves_HandleRT_expired: "evolves s (fst (HandleRT_expired E s))"
  by (cases "RTQueue s")
    (auto simp: HandleRT_expired_def evolves_def segs_def Let_def split: prod.split)

lemma evolves_VClose_socket: "VClose_socket s = Inr (s', b) \<Longrightarrow> evolves s s'"
  by (auto simp: VClose_socket_def closes_steps intro!: evolves_state split: TCPState.splits)

lemma conn_step_evolves: "conn_step E c c' \<Longrightarrow> evolves (csock c) (csock c')"
proof (induction rule: conn_step.induct)
  case (packet c now p s' effs)
  then show ?case using evolves_HandleTCPPacket [of "csock c" E now p] by simp
next
  case (turn c now s' effs w)
  then show ?case using evolves_HandleVWrite_turn [of "csock c" E now] by simp
next
  case (stop c b)
  then show ?case by (simp add: evolves_same ZWP_stop_def)
next
  case (idle c)
  then show ?case by (simp add: evolves_same HandleRT_idle_def)
next
  case (expired c s' effs)
  then show ?case using evolves_HandleRT_expired [of "csock c" E] by simp
next
  case (reading c n s' r)
  then show ?case
    by (auto simp: VRead_turn_def intro!: evolves_same split: if_splits prod.splits option.splits)
next
  case (writing c data s' r')
  then show ?case
    by (auto simp: VWrite_turn_def intro!: evolves_same split: if_splits prod.splits)
next
  case (closing c s' b)
  then show ?case using evolves_VClose_socket by simp
qed

lemma run_evolves: "(conn_step E)\<^sup>*\<^sup>* c c' \<Longrightarrow> evolves (csock c) (csock c')"
  by (induction rule: rtranclp_induct) (auto intro: conn_step_evolves evolves_trans)

section \<open>What is acknowledged\<close>

text \<open>Sequence numbers by RFC 793, stated apart from the code: a segment takes one for each byte of its
  data and one for a FIN, from the number in its header on. An acknowledgment names the first number that
  is still missing, so a segment is entirely acknowledged when all of its numbers are below.\<close>

definition numbers :: "TCPPacket \<Rightarrow> u32 list" where
  "numbers p = map (\<lambda>k. SeqNum (Header p) + of_nat k) [0..<length (Data p) + (if is_fin p then 1 else 0)]"

definition acknowledged :: "u32 \<Rightarrow> TCPPacket \<Rightarrow> bool" where
  "acknowledged a p \<longleftrightarrow> (\<forall>n \<in> set (numbers p). n < a)"

text \<open>The number after the data, which a FIN takes.\<close>

definition after_data :: "TCPPacket \<Rightarrow> u32" where
  "after_data p = SeqNum (Header p) + of_nat (length (Data p))"

lemma length_numbers: "length (numbers p) = length (Data p) + (if is_fin p then 1 else 0)"
  by (simp add: numbers_def)

lemma uint_number:
  assumes "uint (w :: u32) + int k < 2 ^ 32"
  shows "uint (w + of_nat k) = uint w + int k"
proof -
  have "0 \<le> uint w" by simp
  then have "int k < 2 ^ 32" using assms by linarith
  then have "k < 2 ^ 32" by simp
  then have "uint (of_nat k :: u32) = int k" by (simp add: unsigned_of_nat take_bit_nat_eq_self)
  then show ?thesis using assms by (subst uint_add_lem [THEN iffD1]) simp_all
qed

lemma acknowledged_iff:
  assumes "uint (SeqNum (Header p)) + int (length (numbers p)) < 2 ^ 32" "numbers p \<noteq> []"
  shows "acknowledged a p \<longleftrightarrow> uint (SeqNum (Header p)) + int (length (numbers p)) \<le> uint a"
proof -
  let ?w = "SeqNum (Header p)" and ?n = "length (numbers p)"
  have nums: "numbers p = map (\<lambda>k. ?w + of_nat k) [0..<?n]" by (simp add: numbers_def)
  have u: "uint (?w + of_nat k) = uint ?w + int k" if "k < ?n" for k
    using assms(1) that by (intro uint_number) simp
  have "set (numbers p) = (\<lambda>k. ?w + of_nat k) ` {0..<?n}" by (subst nums) simp
  then have "acknowledged a p \<longleftrightarrow> (\<forall>k < ?n. uint ?w + int k < uint a)"
    using u by (auto simp: acknowledged_def word_less_def)
  also have "\<dots> \<longleftrightarrow> uint ?w + int ?n \<le> uint a"
  proof
    assume l: "\<forall>k < ?n. uint ?w + int k < uint a"
    have "?n - 1 < ?n" using assms(2) by simp
    with l have "uint ?w + int (?n - 1) < uint a" by blast
    then show "uint ?w + int ?n \<le> uint a" using assms(2) by (cases "numbers p") simp_all
  qed simp
  finally show ?thesis .
qed

text \<open>What the code's test says about numbers.\<close>

lemma covered_acknowledged:
  assumes "covered s (n, p)" "numbered (n, p)"
  shows "acknowledged (LargestAck s) p \<or> (is_fin p \<and> LargestAck s = after_data p)"
proof -
  let ?w = "SeqNum (Header p)" and ?d = "length (Data p)"
  have le: "uint ?w + int ?d \<le> uint (LargestAck s)" using assms by (simp add: covered_def numbered_def)
  have lt: "uint (LargestAck s) < 2 ^ 32" using uint_lt2p [of "LargestAck s"] by simp
  have u: "uint (?w + of_nat k) = uint ?w + int k" if "k \<le> ?d" for k
    using le lt that by (intro uint_number) simp
  have "?w + of_nat k < LargestAck s" if "k < ?d" for k
    using u [of k] le that by (simp add: word_less_def)
  moreover have "after_data p < LargestAck s \<or> LargestAck s = after_data p"
    using u [of ?d] le by (auto simp: word_less_def after_data_def word_uint_eq_iff)
  ultimately show ?thesis by (auto simp: acknowledged_def numbers_def after_data_def less_Suc_eq)
qed

text \<open>C8: No unacknowledged byte is forgotten. From a connection with nothing to retransmit on, however the
  packet handler, the sender, the retransmitter and the application interleave, a segment that is
  queued for retransmission stays queued until the largest acknowledgment received is above each
  of its sequence numbers. There is one exception, the FIN: it also goes when the acknowledgment asks for
  it, that is when the data before it, but not the FIN itself, are acknowledged.\<close>

theorem segments_kept_until_acked:
  assumes "(conn_step E)\<^sup>*\<^sup>* c0 c" and "RTQueue (csock c0) = []"
    and "(conn_step E)\<^sup>*\<^sup>* c c'" and "it \<in> set (RTQueue (csock c))"
  shows "(\<exists>it' \<in> set (RTQueue (csock c')). Priority it' = Priority it \<and> Value it' = Value it) \<or>
    acknowledged (LargestAck (csock c')) (Value it) \<or>
    (is_fin (Value it) \<and> LargestAck (csock c') = after_data (Value it))"
proof -
  let ?x = "(Priority it, Value it)"
  have x: "?x \<in> segs (csock c)" using assms(4) by (auto simp: segs_def)
  then have "numbered ?x" using run_evolves [OF assms(1)] assms(2) by (auto simp: evolves_def segs_def)
  moreover have "?x \<in> segs (csock c') \<or> covered (csock c') ?x"
    using run_evolves [OF assms(3)] x by (simp add: evolves_def)
  ultimately show ?thesis using covered_acknowledged [of "csock c'"] by (auto simp: segs_def)
qed

text \<open>The sample connection after a turn of its sender, and acknowledgments for it.\<close>

definition sample_sent :: "(int \<times> u8 list) TCPSocket" where
  "sample_sent = fst (HandleVWrite_turn sample_env 7 sample_socket)"

definition sample_ack :: "u32 \<Rightarrow> TCPPacket" where
  "sample_ack n = \<lparr>SrcIP = sample_ip 1 2, Header = \<lparr>SrcPort = 80, DstPort = 40000, SeqNum = 5001,
     AckNum = n, DataOffset = 20, Flags = TCPFlagAck, WindowSize = 2000, TChecksum = 0,
     UrgentPointer = 0\<rparr>, Data = []\<rparr>"

lemma packet_run:
  "(conn_step E)\<^sup>*\<^sup>* (start_conn s) ((start_conn s)\<lparr>csock := fst (HandleTCPPacket E now s p),
     cstop := StopZWP \<in> set (snd (HandleTCPPacket E now s p))\<rparr>)"
  by (rule r_into_rtranclp, rule conn_step.packet [where now = now and p = p])
    (simp_all add: start_conn_def)

lemma turn_run:
  "(conn_step E)\<^sup>*\<^sup>* (start_conn s) ((start_conn s)\<lparr>csock := fst (HandleVWrite_turn E now s),
     cwriter := snd (snd (HandleVWrite_turn E now s))\<rparr>)"
  by (rule r_into_rtranclp, rule conn_step.turn [where effs = "fst (snd (HandleVWrite_turn E now s))" and now = now])
    (simp_all add: start_conn_def)

theorem segments_kept_until_acked_witness:
  "\<exists>it \<in> set (RTQueue (fst (HandleTCPPacket sample_env 9 sample_sent (sample_ack 1003)))).
     Data (Value it) = [1, 2, 3]"
proof -
  let ?c = "(start_conn sample_socket)\<lparr>csock := sample_sent,
    cwriter := snd (snd (HandleVWrite_turn sample_env 7 sample_socket))\<rparr>"
  let ?t = "HandleTCPPacket sample_env 9 sample_sent (sample_ack 1003)"
  have run: "(conn_step sample_env)\<^sup>*\<^sup>* (start_conn sample_socket) ?c"
    using turn_run [of sample_env sample_socket 7] by (simp add: sample_sent_def)
  have step: "(conn_step sample_env)\<^sup>*\<^sup>* ?c (?c\<lparr>csock := fst ?t, cstop := StopZWP \<in> set (snd ?t)\<rparr>)"
    by (rule r_into_rtranclp, rule conn_step.packet [where now = 9 and p = "sample_ack 1003"])
      (simp_all add: start_conn_def)
  have empty: "RTQueue (csock (start_conn sample_socket)) = []"
    by (simp add: start_conn_def sample_socket_def MakeTCPSocket_def)
  have it: "RTQueue (csock ?c) ! 0 \<in> set (RTQueue (csock ?c))" by (rule nth_mem) code_simp
  have "Data (Value (RTQueue sample_sent ! 0)) = [1, 2, 3]" "\<not> is_fin (Value (RTQueue sample_sent ! 0))"
    "\<not> acknowledged (LargestAck (fst ?t)) (Value (RTQueue sample_sent ! 0))" by code_simp+
  with segments_kept_until_acked [OF run empty step it] show ?thesis
    by (simp add: start_conn_def) metis
qed

text \<open>A FIN takes a sequence number but has no data, so the code's test lets it go one number too early. In
  \<open>FIN_WAIT_1\<close> and \<open>LAST_ACK\<close> the loop takes that for the acknowledgment of the FIN.\<close>

lemma ack_loop_to_fin:
  assumes "RTQueue s = q @ [fin]" "\<forall>it \<in> set q. acked_prefix_item s it \<and> \<not> is_fin (Value it)"
    "acked_prefix_item s fin" "is_fin (Value fin)"
  shows "(ConnState s = FIN_WAIT_1 \<longrightarrow> RTQueue (fst (ack_loop E now s)) = [] \<and>
      ConnState (fst (ack_loop E now s)) = FIN_WAIT_2 \<and> \<not> snd (ack_loop E now s)) \<and>
    (ConnState s = LAST_ACK \<longrightarrow> ConnState (fst (ack_loop E now s)) = CLOSED \<and>
      IsClosed (fst (ack_loop E now s)) \<and> snd (ack_loop E now s)) \<and>
    LargestAck (fst (ack_loop E now s)) = LargestAck s \<and> SConn (fst (ack_loop E now s)) = SConn s"
  using assms
proof (induction q arbitrary: s)
  case Nil
  then have q: "RTQueue s = fin # []" by simp
  show ?case using Nil by (simp add: ack_loop_Cons [OF q] ack_loop_Nil)
next
  case (Cons it q)
  then have q: "RTQueue s = it # q @ [fin]" by simp
  have "acked_prefix_item (drop_acked E now it (q @ [fin]) s) = acked_prefix_item s"
    by (simp add: acked_prefix_item_def fun_eq_iff)
  then show ?case
    using Cons.IH [of "drop_acked E now it (q @ [fin]) s"] Cons.prems by (simp add: ack_loop_Cons [OF q])
qed

text \<open>C36: A FIN can be forgotten before it is acknowledged. Let data and then a FIN be queued for
  retransmission, and the peer acknowledge the data but not yet the FIN. In \<open>FIN_WAIT_1\<close> the queue is then
  empty and the state \<open>FIN_WAIT_2\<close>; in \<open>LAST_ACK\<close> the connection is closed and its socket
  removed. The FIN is not acknowledged, and if it was lost nothing sends it again.\<close>

theorem unacknowledged_fin_forgotten:
  assumes "RTQueue s = q @ [fin]" and "is_fin (Value fin)" and "Data (Value fin) = []"
    and "\<forall>it \<in> set q. \<not> is_fin (Value it) \<and> Priority it + int (length (Data (Value it))) \<le> Priority fin"
    and "Priority fin = uint (SeqNum (Header (Value fin)))"
    and "Flags (Header p) = TCPFlagAck" "Data p = []" "AckNum (Header p) = SeqNum (Header (Value fin))"
    and "LargestAck s < AckNum (Header p)" "AckNum (Header p) \<le> NextSequenceNumber s"
    and "HandleTCPPacket E now s p = (s', effs)"
  shows "\<not> acknowledged (LargestAck s') (Value fin) \<and>
    (ConnState s = FIN_WAIT_1 \<longrightarrow> RTQueue s' = [] \<and> ConnState s' = FIN_WAIT_2) \<and>
    (ConnState s = LAST_ACK \<longrightarrow> ConnState s' = CLOSED \<and> IsClosed s' \<and> effs = [DeleteConn (SConn s)])"
proof -
  let ?n = "note_ack s (AckNum (Header p))"
  obtain s1 b where a: "ack_loop E now ?n = (s1, b)" by fastforce
  have "\<forall>it \<in> set q. acked_prefix_item ?n it \<and> \<not> is_fin (Value it)" "acked_prefix_item ?n fin"
    using assms(3-5,8) by (auto simp: acked_prefix_item_def)
  then have loop: "ConnState s = FIN_WAIT_1 \<longrightarrow> RTQueue s1 = [] \<and> ConnState s1 = FIN_WAIT_2 \<and> \<not> b"
    "ConnState s = LAST_ACK \<longrightarrow> ConnState s1 = CLOSED \<and> IsClosed s1 \<and> b"
    "LargestAck s1 = SeqNum (Header (Value fin))" "SConn s1 = SConn s"
    using ack_loop_to_fin [of ?n q fin E now, unfolded a] assms(1,2,8) by simp_all
  obtain s2 e2 where w: "handle_window (if RTQueue s1 = [] \<and> OngoingRTTimer s1 then s1\<lparr>RTTimer := 0\<rparr> else s1) p = (s2, e2)"
    by fastforce
  then have s2: "RTQueue s2 = RTQueue s1" "ConnState s2 = ConnState s1" "LargestAck s2 = LargestAck s1"
    by (auto simp: handle_window_def Let_def split: if_splits)
  have s': "s' = (if b then s1 else s2)" "b \<longrightarrow> effs = [DeleteConn (SConn s1)]"
    using assms(6,7,9-11) w by (auto simp: HandleTCPPacket_def handle_ack_eq [OF a] handle_text_def split: if_splits)
  then have "LargestAck s' = SeqNum (Header (Value fin))" using s2(3) loop(3) by simp
  moreover have "SeqNum (Header (Value fin)) \<in> set (numbers (Value fin))" using assms(2,3) by (simp add: numbers_def)
  ultimately have "\<not> acknowledged (LargestAck s') (Value fin)" by (auto simp: acknowledged_def)
  then show ?thesis using loop s2 s' by auto
qed

text \<open>The sample connection after its data and \<open>VClose\<close>: bytes 1001 to 1003 and the FIN 1004 are out.\<close>

definition sample_closing :: "(int \<times> u8 list) TCPSocket" where
  "sample_closing = fst (HandleVWrite_turn sample_env 8 (sample_sent\<lparr>ConnState := FIN_WAIT_1\<rparr>))"

theorem unacknowledged_fin_forgotten_witness:
  "NextSequenceNumber sample_closing = 1005 \<and>
   RTQueue (fst (HandleTCPPacket sample_env 9 sample_closing (sample_ack 1004))) = [] \<and>
   ConnState (fst (HandleTCPPacket sample_env 9 sample_closing (sample_ack 1004))) = FIN_WAIT_2"
proof -
  let ?q = "[RTQueue sample_closing ! 0]" and ?fin = "RTQueue sample_closing ! 1"
  have two: "length (RTQueue sample_closing) = 2" by code_simp
  then have q: "RTQueue sample_closing = ?q @ [?fin]" by (intro nth_equalityI) (auto simp: nth_Cons' less_2_cases_iff)
  have fin: "is_fin (Value ?fin)" "Data (Value ?fin) = []"
    "\<forall>it \<in> set ?q. \<not> is_fin (Value it) \<and> Priority it + int (length (Data (Value it))) \<le> Priority ?fin"
    "Priority ?fin = uint (SeqNum (Header (Value ?fin)))" by code_simp+
  have p: "Flags (Header (sample_ack 1004)) = TCPFlagAck" "Data (sample_ack 1004) = []"
    "AckNum (Header (sample_ack 1004)) = SeqNum (Header (Value ?fin))"
    "LargestAck sample_closing < AckNum (Header (sample_ack 1004))"
    "AckNum (Header (sample_ack 1004)) \<le> NextSequenceNumber sample_closing"
    "ConnState sample_closing = FIN_WAIT_1" "NextSequenceNumber sample_closing = 1005" by code_simp+
  from unacknowledged_fin_forgotten [OF q fin p(1-5) surjective_pairing, of sample_env 9] p(6,7)
  show ?thesis by simp
qed

text \<open>C14: A connection closes along the diagram. Every step of its threads and calls takes the state
  along moves of RFC 793's closing sequences, and over any run a connection that left ESTABLISHED
  does not come back to it; one that reached CLOSING stays there for good, the acknowledgment of
  its FIN being ignored in that state, so its socket is never removed.\<close>

theorem closing_follows_diagram:
  assumes "(conn_step E)\<^sup>*\<^sup>* c c'"
  shows "closes\<^sup>*\<^sup>* (ConnState (csock c)) (ConnState (csock c')) \<and>
    (ConnState (csock c') = ESTABLISHED \<longrightarrow> ConnState (csock c) = ESTABLISHED) \<and>
    (ConnState (csock c) = CLOSING \<longrightarrow> ConnState (csock c') = CLOSING) \<and>
    SConn (csock c') = SConn (csock c) \<and> SocketID (csock c') = SocketID (csock c)"
proof -
  have ev: "evolves (csock c) (csock c')" by (rule run_evolves [OF assms])
  then have star: "closes\<^sup>*\<^sup>* (ConnState (csock c)) (ConnState (csock c'))" by (simp add: evolves_def)
  then have "ConnState (csock c') = ESTABLISHED \<longrightarrow> ConnState (csock c) = ESTABLISHED"
    "ConnState (csock c) = CLOSING \<longrightarrow> ConnState (csock c') = CLOSING"
    using closes_into_ESTABLISHED closes_out_of_CLOSING by metis+
  then show ?thesis using star ev by (simp add: evolves_def)
qed

theorem closing_follows_diagram_witness:
  "ConnState (fst (HandleTCPPacket sample_env 9 (sample_sent\<lparr>ConnState := CLOSING\<rparr>) (sample_ack 1004))) =
     CLOSING"
  using closing_follows_diagram [OF packet_run [of sample_env "sample_sent\<lparr>ConnState := CLOSING\<rparr>" 9
      "sample_ack 1004"]] by (simp add: start_conn_def)

section \<open>What an acknowledgment removes\<close>

lemma ack_loop_queue:
  assumes "ConnState s \<noteq> LAST_ACK"
  shows "RTQueue (fst (ack_loop E now s)) = dropWhile (acked_prefix_item s) (RTQueue s) \<and>
    snd (ack_loop E now s) = False \<and> LargestAck (fst (ack_loop E now s)) = LargestAck s"
  using assms
proof (induction "RTQueue s" arbitrary: s)
  case Nil
  then show ?case by (simp add: ack_loop_Nil)
next
  case (Cons it q)
  have q: "RTQueue s = it # q" using Cons.hyps(2) by simp
  have "acked_prefix_item (drop_acked E now it q s) = acked_prefix_item s"
    by (simp add: acked_prefix_item_def fun_eq_iff)
  then show ?case
    using Cons.hyps(1) [of "drop_acked E now it q s"] Cons.prems q
    by (simp add: ack_loop_Cons [OF q])
qed

lemma ack_removes:
  assumes "sock_inv s" "flight_inv s" and "Flags (Header p) = TCPFlagAck"
    and "LargestAck s < AckNum (Header p)" "AckNum (Header p) \<le> NextSequenceNumber s"
    and "ConnState s \<noteq> LAST_ACK" and "HandleTCPPacket E now s p = (s', effs)"
  shows "RTQueue s' = dropWhile (\<lambda>it. Priority it + int (length (Data (Value it))) \<le>
      uint (AckNum (Header p))) (RTQueue s) \<and>
    LargestAck s' = AckNum (Header p) \<and>
    BytesInFlight s' = of_nat (sum_list (map (\<lambda>it. length (Data (Value it))) (RTQueue s')) +
      (if ZWPMode s then 1 else 0))"
proof -
  let ?n = "note_ack s (AckNum (Header p))"
  obtain s1 b where a: "ack_loop E now ?n = (s1, b)" by fastforce
  have q: "RTQueue s1 = dropWhile (acked_prefix_item ?n) (RTQueue s)" "\<not> b"
      "LargestAck s1 = AckNum (Header p)"
    using ack_loop_queue [of ?n E now] assms(6) by (simp_all add: a)
  let ?s1 = "if RTQueue s1 = [] \<and> OngoingRTTimer s1 then s1\<lparr>RTTimer := 0\<rparr> else s1"
  have ha: "handle_ack E now s p = (?s1, [], False)"
    using handle_ack_eq [OF a] assms(4,5) q(2) by simp
  obtain s2 e2 where w: "handle_window ?s1 p = (s2, e2)" by fastforce
  obtain s3 e3 where t: "handle_text E s2 p = (s3, e3)" by fastforce
  have s': "s' = s3" using assms(3,7) by (simp add: HandleTCPPacket_def ha w t)
  have "RTQueue s2 = RTQueue s1" "LargestAck s2 = LargestAck s1"
      "EarlyArrivalQueue s2 = EarlyArrivalQueue s1"
    using w by (auto simp: handle_window_def Let_def split: if_splits)
  moreover have "sock_inv s1"
    using handle_ack_inv [OF assms(1,2), of E now p] ha by (auto simp: sock_inv_def split: if_splits)
  ultimately have s2: "RTQueue s2 = RTQueue s1" "LargestAck s2 = AckNum (Header p)"
      "heap_ok (EarlyArrivalQueue s2)" using q(3) by (simp_all add: sock_inv_def)
  have "RTQueue s3 = RTQueue s2" "LargestAck s3 = LargestAck s2"
    using handle_text_frame [OF s2(3), of E p] t by (simp_all add: same_sender_def)
  moreover have "flight_inv s' \<and> ZWPMode s' = ZWPMode s"
    using HandleTCPPacket_inv [OF assms(1,2,7)] by simp
  moreover have "acked_prefix_item ?n = (\<lambda>it. Priority it + int (length (Data (Value it))) \<le>
      uint (AckNum (Header p)))" by (simp add: acked_prefix_item_def fun_eq_iff)
  ultimately show ?thesis
    using q(1) s2 s' by (simp add: flight_inv_def data_bytes_def)
qed

text \<open>A retransmission queue as the sender fills it before sequence numbers pass 2^32: segments filed
  under their numbers, each with a number to acknowledge, one after the other.\<close>

definition in_sequence :: "TCPSegmentItem list \<Rightarrow> bool" where
  "in_sequence q \<longleftrightarrow>
     (\<forall>it \<in> set q. Priority it = uint (SeqNum (Header (Value it))) \<and> numbers (Value it) \<noteq> [] \<and>
        Priority it + int (length (numbers (Value it))) < 2 ^ 32) \<and>
     sorted_wrt (\<lambda>x y. Priority x + int (length (numbers (Value x))) \<le> Priority y) q"

lemma in_sequence_Cons:
  "in_sequence (it # q) \<Longrightarrow> in_sequence q"
  "in_sequence (it # q) \<Longrightarrow> y \<in> set q \<Longrightarrow> Priority it + int (length (numbers (Value it))) \<le> Priority y"
  by (auto simp: in_sequence_def)

lemma in_sequence_acknowledged:
  "in_sequence q \<Longrightarrow> it \<in> set q \<Longrightarrow>
     acknowledged a (Value it) \<longleftrightarrow> Priority it + int (length (numbers (Value it))) \<le> uint a"
proof -
  assume "in_sequence q" "it \<in> set q"
  then have n: "Priority it = uint (SeqNum (Header (Value it)))" "numbers (Value it) \<noteq> []"
    "Priority it + int (length (numbers (Value it))) < 2 ^ 32" by (auto simp: in_sequence_def)
  show "acknowledged a (Value it) \<longleftrightarrow> Priority it + int (length (numbers (Value it))) \<le> uint a"
    using acknowledged_iff [OF n(3) [unfolded n(1)] n(2)] by (simp add: n(1))
qed

text \<open>On such a queue the code's test, from the front, is the specification, but for a FIN that is asked for.\<close>

lemma code_test_acknowledged:
  assumes "in_sequence q" "it \<in> set q" "is_fin (Value it) \<longrightarrow> a \<noteq> after_data (Value it)"
  shows "Priority it + int (length (Data (Value it))) \<le> uint a \<longleftrightarrow> acknowledged a (Value it)"
proof -
  have n: "Priority it = uint (SeqNum (Header (Value it)))"
    "Priority it + int (length (numbers (Value it))) < 2 ^ 32" using assms(1,2) by (auto simp: in_sequence_def)
  then have "uint (after_data (Value it)) = Priority it + int (length (Data (Value it)))"
    unfolding after_data_def by (subst uint_number) (simp_all add: length_numbers)
  then have "uint a \<noteq> Priority it + int (length (Data (Value it)))" if "is_fin (Value it)"
    using assms(3) that by (metis word_uint_eq_iff)
  then show ?thesis
    using in_sequence_acknowledged [OF assms(1,2), of a] by (auto simp: length_numbers)
qed

lemma dropWhile_acknowledged:
  "in_sequence q \<Longrightarrow> dropWhile (\<lambda>it. acknowledged a (Value it)) q = filter (\<lambda>it. \<not> acknowledged a (Value it)) q"
proof (induction q)
  case (Cons it q)
  have "\<not> acknowledged a (Value y)" if "\<not> acknowledged a (Value it)" "y \<in> set q" for y
    using in_sequence_acknowledged [OF Cons.prems, of it a] in_sequence_acknowledged [OF Cons.prems, of y a]
      in_sequence_Cons(2) [OF Cons.prems that(2)] that by simp
  then show ?case
    using Cons.IH in_sequence_Cons(1) [OF Cons.prems] by (auto simp: filter_id_conv)
qed simp


text \<open>Two segments are out, bytes 1001 to 1003 and bytes 1004 and 1005; the peer acknowledges the first and half
  of the second.\<close>

definition sample_two :: "(int \<times> u8 list) TCPSocket" where
  "sample_two = fst (HandleVWrite_turn sample_env 8 (sample_sent\<lparr>WriteBuffer := (65535, [4, 5])\<rparr>))"


section \<open>The calls on a closing connection\<close>

lemma map_of_store [simp]: "map_of (SocketTable (store_socket c s l)) c = Some s"
  by simp

lemma calls_refused:
  assumes "map_of (SocketTable l) conn = Some s" "ESTABLISHED < ConnState s"
  shows "VRead E l conn n = (l, Done (Inl (Error ''socket is closing'')))"
    and "VWrite E l conn data = (l, Done (Inl (Error ''socket is closing'')), data)"
  using assms by (simp_all add: VRead_def VWrite_def)

text \<open>C34: Once \<open>VClose\<close> has begun to close an open connection, every further \<open>VRead\<close>, \<open>VWrite\<close> and
  \<open>VClose\<close> on it is answered with an error and changes nothing; the socket stays in the table.\<close>

theorem closed_calls_fail:
  assumes "VClose l conn = Inr (l', False)"
  shows "VRead E l' conn n = (l', Done (Inl (Error ''socket is closing''))) \<and>
    VWrite E l' conn data = (l', Done (Inl (Error ''socket is closing'')), data) \<and>
    VClose l' conn = Inl (Error ''error: connection closing'') \<and> GetSocketByConn l' conn \<noteq> None"
proof -
  obtain s s' where s: "map_of (SocketTable l) conn = Some s" "VClose_socket s = Inr (s', False)"
      "l' = store_socket conn s' l"
    using assms by (auto simp: VClose_def split: option.splits sum.splits)
  then have st: "ConnState s' = FIN_WAIT_1 \<or> ConnState s' = LAST_ACK"
    by (auto simp: VClose_socket_def split: TCPState.splits)
  then have "ESTABLISHED < ConnState s'" by (auto simp: less_TCPState_def)
  moreover have "map_of (SocketTable l') conn = Some s'" by (simp add: s(3))
  ultimately show ?thesis
    using calls_refused [of l' conn s'] st
    by (auto simp: VClose_def VClose_socket_def GetSocketByConn_def)
qed

definition one_conn :: "(int \<times> u8 list) TCPSocket \<Rightarrow> (int \<times> u8 list) TCPLayer" where
  "one_conn s = store_socket sample_conn s (host_layer (sample_ip 0 1))"

theorem closed_calls_fail_witness:
  "\<exists>l'. VClose (one_conn sample_socket) sample_conn = Inr (l', False) \<and>
     VClose l' sample_conn = Inl (Error ''error: connection closing'')"
proof -
  have "VClose (one_conn sample_socket) sample_conn = Inr (store_socket sample_conn
      (sample_socket\<lparr>ConnState := FIN_WAIT_1\<rparr>) (one_conn sample_socket), False)"
    by (simp add: VClose_def one_conn_def VClose_socket_def sample_socket_def)
  from closed_calls_fail [OF this] this show ?thesis by blast
qed

text \<open>Data not read before the peer's FIN is lost to the application. A FIN in sequence moves an
  established connection to CLOSE-WAIT and keeps the read buffer, whatever it holds; but from then
  on \<open>VRead\<close> refuses every call before it looks at the buffer.\<close>

theorem fin_cuts_off_unread_data:
  assumes "ConnState s = ESTABLISHED" and "is_fin p" "Flags (Header p) \<noteq> TCPFlagAck"
    and "SeqNum (Header p) - RemoteISN s = NextExpectedByte s"
    and "HandleTCPPacket E now s p = (s', effs)"
  shows "ReadBuffer s' = ReadBuffer s \<and> ConnState s' = CLOSE_WAIT \<and>
    VRead E (store_socket conn s' l) conn n =
      (store_socket conn s' l, Done (Inl (Error ''socket is closing'')))"
proof -
  have "s' = s\<lparr>ConnState := CLOSE_WAIT\<rparr>"
    using assms by (auto simp: HandleTCPPacket_def handle_fin_def fin_transition_def Let_def)
  then show ?thesis
    using calls_refused(1) [of "store_socket conn s' l" conn s'] by (simp add: less_TCPState_def)
qed

text \<open>The peer's FIN for the sample connection, in the form \<open>SendFinPacket\<close> gives it.\<close>

definition sample_fin :: TCPPacket where
  "sample_fin = (sample_ack 1001)\<lparr>Header := (Header (sample_ack 1001))\<lparr>Flags := TCPFlagFin\<rparr>\<rparr>"

theorem fin_cuts_off_unread_data_witness:
  "\<exists>s'. ReadBuffer s' = (65535, [104, 105]) \<and>
     snd (VRead sample_env (one_conn s') sample_conn 10) = Done (Inl (Error ''socket is closing''))"
proof -
  let ?s = "sample_socket\<lparr>ReadBuffer := (65535, [104, 105])\<rparr>"
  have fin: "ConnState ?s = ESTABLISHED" "is_fin sample_fin" "Flags (Header sample_fin) \<noteq> TCPFlagAck"
      "SeqNum (Header sample_fin) - RemoteISN ?s = NextExpectedByte ?s" by code_simp+
  from fin_cuts_off_unread_data [OF fin surjective_pairing, of sample_env 9 sample_conn
      "host_layer (sample_ip 0 1)" 10]
  show ?thesis
    by (intro exI [of _ "fst (HandleTCPPacket sample_env 9 ?s sample_fin)"]) (simp add: one_conn_def)
qed

section \<open>Sequence numbers past 2^32\<close>

text \<open>The sample connection with an initial number just below 2^32, after a turn of its sender: the
  three bytes it sends take the numbers 2^32 - 2, 2^32 - 1 and 0.\<close>

definition wrap_sent :: "(int \<times> u8 list) TCPSocket" where
  "wrap_sent = fst (HandleVWrite_turn sample_env 7 (sample_socket\<lparr>InitSeqNum := 4294967293,
     NextSequenceNumber := 4294967294\<rparr>))"

text \<open>C37: A segment that runs past sequence number 2^32 is never acknowledged. Its last byte is compared as
  a 64-bit integer with an acknowledgment of 32 bits, so whatever the peer answers, and however the
  threads and the calls interleave, the segment stays in the retransmission queue for ever, and is
  sent again each time the timer expires while it is the oldest.\<close>

theorem wrapping_segment_never_acknowledged:
  assumes "(conn_step E)\<^sup>*\<^sup>* c c'" and "it \<in> set (RTQueue (csock c))"
    and "2 ^ 32 \<le> Priority it + int (length (Data (Value it)))"
  shows "\<exists>it' \<in> set (RTQueue (csock c')). Priority it' = Priority it \<and> Value it' = Value it"
proof -
  have "(Priority it, Value it) \<in> segs (csock c)" using assms(2) by (auto simp: segs_def)
  then have "(Priority it, Value it) \<in> segs (csock c') \<or> covered (csock c') (Priority it, Value it)"
    using run_evolves [OF assms(1)] by (simp add: evolves_def)
  moreover have "\<not> covered (csock c') (Priority it, Value it)"
    using assms(3) uint_lt2p [of "LargestAck (csock c')"] by (simp add: covered_def)
  ultimately show ?thesis by (auto simp: segs_def)
qed

text \<open>The peer has received all three bytes and acknowledges them with number 1: they stay queued.\<close>

theorem wrapping_segment_never_acknowledged_witness:
  "\<exists>it \<in> set (RTQueue (fst (HandleTCPPacket sample_env 9 wrap_sent (sample_ack 1)))).
     Data (Value it) = [1, 2, 3]"
proof -
  have it: "RTQueue (csock (start_conn wrap_sent)) ! 0 \<in> set (RTQueue (csock (start_conn wrap_sent)))"
    by (rule nth_mem) code_simp
  have data: "Data (Value (RTQueue wrap_sent ! 0)) = [1, 2, 3]"
    and wraps: "2 ^ 32 \<le> Priority (RTQueue (csock (start_conn wrap_sent)) ! 0) +
      int (length (Data (Value (RTQueue (csock (start_conn wrap_sent)) ! 0))))" by code_simp+
  from wrapping_segment_never_acknowledged [OF packet_run [where E = sample_env and now = 9 and
      p = "sample_ack 1"] it wraps] data
  show ?thesis by (elim bexE) (rule bexI, simp_all add: start_conn_def)
qed

end
