(* ===== verification/TcpStream.thy ===== *)
theory TcpStream
  imports TcpMachine
begin

text \<open>
  Reassembly: whatever the network does to the segments of the peer's stream (loss, duplication,
  reordering), what the application reads is a prefix of that stream. The condition is that no
  segment lies beyond the receive buffer; the last section shows what happens otherwise.
\<close>

section \<open>Segments of a stream\<close>

text \<open>The peer's stream starts one after its initial sequence number.\<close>

definition seg_off :: "u32 \<Rightarrow> TCPPacket \<Rightarrow> nat" where
  "seg_off isn p = unat (SeqNum (Header p) - isn)"

definition segment_of :: "u8 list \<Rightarrow> u32 \<Rightarrow> TCPPacket \<Rightarrow> bool" where
  "segment_of stream isn p \<longleftrightarrow> 1 \<le> seg_off isn p \<and>
     seg_off isn p - 1 + length (Data p) \<le> length stream \<and>
     Data p = take (length (Data p)) (drop (seg_off isn p - 1) stream)"

text \<open>The segment ends inside the buffer: \<open>room\<close> bytes after the start of the stream.\<close>

definition fits_in :: "int \<Rightarrow> u32 \<Rightarrow> TCPPacket \<Rightarrow> bool" where
  "fits_in room isn p \<longleftrightarrow> int (seg_off isn p - 1 + length (Data p)) \<le> room"

definition item_ok :: "u8 list \<Rightarrow> u32 \<Rightarrow> int \<Rightarrow> TCPSegmentItem \<Rightarrow> bool" where
  "item_ok stream isn room it \<longleftrightarrow> is_fin (Value it) \<or>
     segment_of stream isn (Value it) \<and> fits_in room isn (Value it) \<and>
     Priority it = int (seg_off isn (Value it))"

lemma item_ok_Index [simp]: "item_ok stream isn room (it\<lparr>Index := i\<rparr>) = item_ok stream isn room it"
  by (simp add: item_ok_def)

lemma item_ok_mono: "item_ok stream isn room it \<Longrightarrow> room \<le> room' \<Longrightarrow> item_ok stream isn room' it"
  by (auto simp: item_ok_def fits_in_def)

section \<open>The invariant\<close>

text \<open>
  What has been read and what is buffered is the stream up to the next expected byte; \<open>bytes\<close>,
  \<open>okb\<close> and \<open>cap\<close> are the view of the ring buffer in \<open>ringbuffer_ok\<close>.
\<close>

definition recv_inv ::
  "('b \<Rightarrow> bool) \<Rightarrow> ('b \<Rightarrow> u8 list) \<Rightarrow> ('b \<Rightarrow> int) \<Rightarrow> u8 list \<Rightarrow> 'b TCPSocket \<Rightarrow> u8 list \<Rightarrow> bool" where
  "recv_inv okb bytes cap stream s consumed \<longleftrightarrow>
     okb (ReadBuffer s) \<and> 1 \<le> unat (NextExpectedByte s) \<and>
     unat (NextExpectedByte s) - 1 \<le> length stream \<and>
     consumed @ bytes (ReadBuffer s) = take (unat (NextExpectedByte s) - 1) stream \<and>
     heap_ok (EarlyArrivalQueue s) \<and>
     (\<forall>it \<in># contents (EarlyArrivalQueue s).
        item_ok stream (RemoteISN s) (int (length consumed) + cap (ReadBuffer s)) it)"

text \<open>The receiving part of a socket; the sending half of the handler does not touch it.\<close>

definition receiver :: "'b TCPSocket \<Rightarrow> 'b \<times> u32 \<times> PriorityQueue \<times> u32" where
  "receiver s = (ReadBuffer s, NextExpectedByte s, EarlyArrivalQueue s, RemoteISN s)"

lemma recv_inv_receiver:
  "receiver s = receiver t \<Longrightarrow>
     recv_inv okb bytes cap stream s consumed = recv_inv okb bytes cap stream t consumed"
  by (simp add: receiver_def recv_inv_def)

lemma ack_loop_receiver: "receiver (fst (ack_loop E now s)) = receiver s"
proof (induction "RTQueue s" arbitrary: s)
  case Nil
  then show ?case by (simp add: ack_loop_Nil)
next
  case (Cons it q)
  have q: "RTQueue s = it # q" using Cons.hyps(2) by simp
  have "receiver (fst (ack_loop E now (drop_acked E now it q s))) =
      receiver (drop_acked E now it q s)"
    by (rule Cons.hyps(1)) simp
  then show ?case by (simp add: ack_loop_Cons [OF q] receiver_def)
qed

lemma handle_ack_receiver: "receiver (fst (handle_ack E now s p)) = receiver s"
proof -
  obtain s3 b where s3: "ack_loop E now (note_ack s (AckNum (Header p))) = (s3, b)" by fastforce
  have "receiver s3 = receiver s"
    using ack_loop_receiver [of E now "note_ack s (AckNum (Header p))"] s3
    by (simp add: receiver_def)
  then show ?thesis by (simp add: handle_ack_eq [OF s3] receiver_def)
qed

lemma handle_window_receiver: "receiver (fst (handle_window s p)) = receiver s"
  by (simp add: handle_window_def Let_def receiver_def)

section \<open>Writing a segment\<close>

lemma ringbuffer_laws:
  assumes "ringbuffer_ok R okb bytes cap" "okb b"
  shows "rb_Free R b = cap b - int (length (bytes b))"
    and "rb_IsEmpty R b \<longleftrightarrow> bytes b = []"
    and "rb_Length R b = int (length (bytes b))"
    and "rb_IsFull R b \<longleftrightarrow> int (length (bytes b)) = cap b"
    and "int (length (bytes b)) \<le> cap b"
  using assms by (simp_all add: ringbuffer_ok_def)

lemma ringbuffer_write:
  assumes "ringbuffer_ok R okb bytes cap" "okb b" "rb_Write R b p = (b', n, err)"
  shows "okb b' \<and> cap b' = cap b \<and> n = min (int (length p)) (rb_Free R b) \<and>
    bytes b' = bytes b @ take (nat n) p \<and> (err = None \<longleftrightarrow> int (length p) \<le> rb_Free R b)"
proof -
  have "\<forall>p. case rb_Write R b p of (b', n, err) \<Rightarrow>
      okb b' \<and> cap b' = cap b \<and> n = min (int (length p)) (rb_Free R b) \<and>
      bytes b' = bytes b @ take (nat n) p \<and> (err = None \<longleftrightarrow> int (length p) \<le> rb_Free R b) \<and>
      (0 < rb_Free R b \<longrightarrow> err \<in> {None, Some (ErrTooManyDataToWrite R)})"
    using assms(1) [unfolded ringbuffer_ok_def, THEN conjunct2, THEN spec, THEN mp, OF assms(2)]
    by (elim conjE) assumption
  from this [rule_format, of p] show ?thesis by (simp add: assms(3))
qed

lemma ringbuffer_read:
  assumes "ringbuffer_ok R okb bytes cap" "okb b" "0 \<le> n" "rb_Read R b n = (b', out, err)"
  shows "okb b' \<and> cap b' = cap b \<and> out = take (nat n) (bytes b) \<and>
    bytes b' = drop (nat n) (bytes b) \<and> (err = None \<longleftrightarrow> n = 0 \<or> bytes b \<noteq> [])"
proof -
  have "\<forall>n \<ge> 0. case rb_Read R b n of (b', out, err) \<Rightarrow>
      okb b' \<and> cap b' = cap b \<and> out = take (nat n) (bytes b) \<and>
      bytes b' = drop (nat n) (bytes b) \<and> (err = None \<longleftrightarrow> n = 0 \<or> bytes b \<noteq> [])"
    using assms(1) [unfolded ringbuffer_ok_def, THEN conjunct2, THEN spec, THEN mp, OF assms(2)]
    by (elim conjE) assumption
  from this [rule_format, OF assms(3)] show ?thesis by (simp add: assms(4))
qed

lemma WriteSegment_fits:
  assumes rb: "ringbuffer_ok (RPkg E) okb bytes cap" and ok: "okb (ReadBuffer s)"
    and fits: "int (length (Data p)) \<le> cap (ReadBuffer s) - int (length (bytes (ReadBuffer s)))"
  shows "\<exists>b'. WriteSegment E s p = s\<lparr>ReadBuffer := b',
      NextExpectedByte := NextExpectedByte s + of_nat (length (Data p))\<rparr> \<and>
    okb b' \<and> cap b' = cap (ReadBuffer s) \<and> bytes b' = bytes (ReadBuffer s) @ Data p"
proof -
  obtain b' n err where w: "rb_Write (RPkg E) (ReadBuffer s) (Data p) = (b', n, err)"
    by (metis prod_cases3)
  have "okb b'" "cap b' = cap (ReadBuffer s)" "n = int (length (Data p))" "err = None"
      "bytes b' = bytes (ReadBuffer s) @ Data p"
    using ringbuffer_write [OF rb ok w] ringbuffer_laws(1) [OF rb ok] fits by simp_all
  then show ?thesis by (intro exI [of _ b']) (simp add: WriteSegment_def w Let_def)
qed

lemma WriteSegment_recv:
  assumes rb: "ringbuffer_ok (RPkg E) okb bytes cap" and short: "length stream < 2 ^ 32 - 1"
    and inv: "recv_inv okb bytes cap stream s consumed"
    and seg: "segment_of stream (RemoteISN s) p"
      "fits_in (int (length consumed) + cap (ReadBuffer s)) (RemoteISN s) p"
    and nxt: "NextExpectedByte s = SeqNum (Header p) - RemoteISN s"
  shows "recv_inv okb bytes cap stream (WriteSegment E s p) consumed"
    and "unat (NextExpectedByte (WriteSegment E s p)) = unat (NextExpectedByte s) + length (Data p)"
    and "cap (ReadBuffer (WriteSegment E s p)) = cap (ReadBuffer s)"
    and "RemoteISN (WriteSegment E s p) = RemoteISN s"
proof -
  let ?n = "unat (NextExpectedByte s)" and ?l = "length (Data p)"
  have off: "seg_off (RemoteISN s) p = ?n" by (simp add: seg_off_def nxt)
  have pre: "okb (ReadBuffer s)" "1 \<le> ?n" "consumed @ bytes (ReadBuffer s) = take (?n - 1) stream"
    using inv by (simp_all add: recv_inv_def)
  have le: "?n - 1 + ?l \<le> length stream" "Data p = take ?l (drop (?n - 1) stream)"
    using seg(1) [unfolded segment_of_def off] by blast+
  have "length consumed + length (bytes (ReadBuffer s)) = ?n - 1"
    using arg_cong [OF pre(3), of length] le(1) by simp
  then have "int ?l \<le> cap (ReadBuffer s) - int (length (bytes (ReadBuffer s)))"
    using seg(2) by (simp add: fits_in_def off)
  from WriteSegment_fits [where s = s, OF rb pre(1) this] obtain b' where
    w: "WriteSegment E s p = s\<lparr>ReadBuffer := b', NextExpectedByte := NextExpectedByte s + of_nat ?l\<rparr>"
    and b': "okb b'" "cap b' = cap (ReadBuffer s)" "bytes b' = bytes (ReadBuffer s) @ Data p" by blast
  show "cap (ReadBuffer (WriteSegment E s p)) = cap (ReadBuffer s)"
    and "RemoteISN (WriteSegment E s p) = RemoteISN s"
    by (simp_all add: w b'(2))
  have "?n + ?l < 2 ^ 32" using le(1) pre(2) short by simp
  then show n: "unat (NextExpectedByte (WriteSegment E s p)) = ?n + ?l"
    by (simp add: w unat_word_ariths unsigned_of_nat take_bit_nat_eq_self)
  have "consumed @ bytes b' = take (?n - 1 + ?l) stream"
    using pre(3) le(2) by (simp add: b'(3) take_add flip: append_assoc)
  moreover have "?n - 1 + ?l = ?n + ?l - 1" using pre(2) by simp
  ultimately show "recv_inv okb bytes cap stream (WriteSegment E s p) consumed"
    using inv b' le(1) pre(2) n by (simp add: recv_inv_def w del: One_nat_def)
qed

section \<open>Handling a packet\<close>

text \<open>Changes that leave the receiving part alone, or put a queue of admissible items.\<close>

lemma recv_inv_queue:
  assumes "recv_inv okb bytes cap stream s consumed" "heap_ok q"
    and "\<And>it. it \<in># contents q \<Longrightarrow> item_ok stream (RemoteISN s)
           (int (length consumed) + cap (ReadBuffer s)) it"
  shows "recv_inv okb bytes cap stream (s\<lparr>EarlyArrivalQueue := q\<rparr>) consumed"
  using assms by (simp add: recv_inv_def)

lemma early_fin_receiver: "receiver (fst (early_fin s)) = receiver s"
  by (simp add: early_fin_def receiver_def split: TCPState.split)

lemma drain_recv:
  assumes rb: "ringbuffer_ok (RPkg E) okb bytes cap" and short: "length stream < 2 ^ 32 - 1"
  shows "recv_inv okb bytes cap stream s consumed \<Longrightarrow>
    recv_inv okb bytes cap stream (fst (drain E s)) consumed \<and>
    unat (NextExpectedByte s) \<le> unat (NextExpectedByte (fst (drain E s)))"
proof (induction "length (EarlyArrivalQueue s)" arbitrary: s rule: less_induct)
  case less
  note inv = less.prems
  let ?q = "EarlyArrivalQueue s" and ?it = "EarlyArrivalQueue s ! 0"
  show ?case
  proof (cases "0 < length ?q \<and> uint (NextExpectedByte s) = Priority ?it")
    case False
    then show ?thesis using inv by (simp add: drain_stop)
  next
    case True
    obtain s1 effs where r: "take_early E s ?it = (s1, effs)" by fastforce
    have heap: "heap_ok ?q" and items: "\<And>it. it \<in># contents ?q \<Longrightarrow>
        item_ok stream (RemoteISN s) (int (length consumed) + cap (ReadBuffer s)) it"
      using inv by (simp_all add: recv_inv_def)
    obtain x q where pop: "heap_Pop ?q = Inr (x, q)" "heap_ok q"
        "contents ?q = add_mset (x\<lparr>Index := 0\<rparr>) (contents q)"
      using early.pop_front [OF heap] True by blast
    have "?it\<lparr>Index := 0\<rparr> \<in># contents ?q" using True by (simp add: contents_def)
    from items [OF this]
    have it: "item_ok stream (RemoteISN s) (int (length consumed) + cap (ReadBuffer s)) ?it"
      by simp
    have s1: "recv_inv okb bytes cap stream s1 consumed \<and> RemoteISN s1 = RemoteISN s \<and>
        cap (ReadBuffer s1) = cap (ReadBuffer s) \<and> EarlyArrivalQueue s1 = ?q \<and>
        unat (NextExpectedByte s) \<le> unat (NextExpectedByte s1)"
    proof (cases "is_fin (Value ?it)")
      case True
      then have "s1 = fst (early_fin s)" using r by (simp add: take_early_def)
      then have "receiver s1 = receiver s" by (simp add: early_fin_receiver)
      with recv_inv_receiver [OF this] inv show ?thesis by (simp add: receiver_def)
    next
      case data: False
      then have seg: "segment_of stream (RemoteISN s) (Value ?it)"
          "fits_in (int (length consumed) + cap (ReadBuffer s)) (RemoteISN s) (Value ?it)"
          "Priority ?it = int (seg_off (RemoteISN s) (Value ?it))"
        using it by (simp_all add: item_ok_def)
      then have "uint (NextExpectedByte s) = uint (SeqNum (Header (Value ?it)) - RemoteISN s)"
        using True by (simp add: seg_off_def)
      then have "NextExpectedByte s = SeqNum (Header (Value ?it)) - RemoteISN s"
        by (rule word_uint_eqI)
      moreover have "s1 = WriteSegment E s (Value ?it)" using data r by (simp add: take_early_def)
      ultimately show ?thesis using WriteSegment_recv [OF rb short inv seg(1,2)] by simp
    qed
    let ?s2 = "s1\<lparr>EarlyArrivalQueue := q\<rparr>"
    have "recv_inv okb bytes cap stream ?s2 consumed"
      using s1 pop items by (intro recv_inv_queue) auto
    moreover have "length q < length ?q" using heap_Pop_length [OF pop(1)] by simp
    ultimately have "recv_inv okb bytes cap stream (fst (drain E ?s2)) consumed \<and>
        unat (NextExpectedByte ?s2) \<le> unat (NextExpectedByte (fst (drain E ?s2)))"
      by (intro less.hyps) simp_all
    then show ?thesis using drain_step [OF _ _ pop(1) r] True s1 by simp
  qed
qed

lemma receive_text_recv:
  assumes rb: "ringbuffer_ok (RPkg E) okb bytes cap" and short: "length stream < 2 ^ 32 - 1"
    and inv: "recv_inv okb bytes cap stream s consumed"
    and seg: "segment_of stream (RemoteISN s) p"
      "fits_in (int (length consumed) + cap (ReadBuffer s)) (RemoteISN s) p"
  shows "recv_inv okb bytes cap stream (fst (receive_text E s p)) consumed \<and>
    unat (NextExpectedByte s) \<le> unat (NextExpectedByte (fst (receive_text E s p))) \<and>
    (NextExpectedByte s = SeqNum (Header p) - RemoteISN s \<and>
       int (length (Data p)) \<le> rb_Free (RPkg E) (ReadBuffer s) \<longrightarrow>
     unat (NextExpectedByte s) + length (Data p) \<le>
       unat (NextExpectedByte (fst (receive_text E s p))))"
proof -
  consider (now) "NextExpectedByte s = SeqNum (Header p) - RemoteISN s"
      "int (length (Data p)) \<le> rb_Free (RPkg E) (ReadBuffer s)"
    | (early) "NextExpectedByte s < SeqNum (Header p) - RemoteISN s"
    | (drop) "\<not> NextExpectedByte s < SeqNum (Header p) - RemoteISN s"
        "\<not> (NextExpectedByte s = SeqNum (Header p) - RemoteISN s \<and>
            int (length (Data p)) \<le> rb_Free (RPkg E) (ReadBuffer s))"
    by blast
  then show ?thesis
  proof cases
    case now
    note w = WriteSegment_recv [OF rb short inv seg now(1)]
    have "receive_text E s p = drain E (WriteSegment E s p)"
      using now by (simp add: receive_text_def Let_def)
    then show ?thesis using drain_recv [OF rb short w(1)] w(2) by (intro conjI impI; simp)
  next
    case early
    have "receive_text E s p =
        (s\<lparr>EarlyArrivalQueue := heap_Push (EarlyArrivalQueue s) (early_item s p)\<rparr>, [])"
      using early by (auto simp: receive_text_def Let_def)
    moreover have "recv_inv okb bytes cap stream
        (s\<lparr>EarlyArrivalQueue := heap_Push (EarlyArrivalQueue s) (early_item s p)\<rparr>) consumed"
    proof (rule recv_inv_queue [OF inv])
      show "heap_ok (heap_Push (EarlyArrivalQueue s) (early_item s p))"
        using inv by (intro early.push_inv) (simp add: recv_inv_def)
      have "item_ok stream (RemoteISN s) (int (length consumed) + cap (ReadBuffer s)) (early_item s p)"
        using seg by (simp add: item_ok_def early_item_def seg_off_def)
      then show "item_ok stream (RemoteISN s) (int (length consumed) + cap (ReadBuffer s)) it"
        if "it \<in># contents (heap_Push (EarlyArrivalQueue s) (early_item s p))" for it
        using that inv by (auto simp: contents_Push recv_inv_def)
    qed
    moreover have "NextExpectedByte s \<noteq> SeqNum (Header p) - RemoteISN s" using early by auto
    ultimately show ?thesis by simp
  next
    case drop
    then have "receive_text E s p = (s, [])" by (auto simp: receive_text_def Let_def)
    then show ?thesis using inv drop(2) by auto
  qed
qed

lemma handle_fin_recv:
  assumes inv: "recv_inv okb bytes cap stream s consumed" and fin: "is_fin p"
  shows "recv_inv okb bytes cap stream (fst (handle_fin E s p)) consumed"
proof (cases "NextExpectedByte s < SeqNum (Header p) - RemoteISN s")
  case True
  have "recv_inv okb bytes cap stream
      (s\<lparr>EarlyArrivalQueue := heap_Push (EarlyArrivalQueue s) (early_item s p)\<rparr>) consumed"
  proof (rule recv_inv_queue [OF inv])
    show "heap_ok (heap_Push (EarlyArrivalQueue s) (early_item s p))"
      using inv by (intro early.push_inv) (simp add: recv_inv_def)
    show "item_ok stream (RemoteISN s) (int (length consumed) + cap (ReadBuffer s)) it"
      if "it \<in># contents (heap_Push (EarlyArrivalQueue s) (early_item s p))" for it
      using that inv fin by (auto simp: contents_Push recv_inv_def item_ok_def early_item_def)
  qed
  then show ?thesis using True by (auto simp: handle_fin_def Let_def)
next
  case False
  have "receiver (fst (fin_transition s p)) = receiver s"
    by (simp add: fin_transition_def receiver_def split: TCPState.split)
  with recv_inv_receiver [OF this] inv False show ?thesis by (simp add: handle_fin_def Let_def)
qed

text \<open>What a packet must satisfy: data are a segment of the stream that ends inside the buffer.\<close>

definition packet_ok :: "('b \<Rightarrow> int) \<Rightarrow> u8 list \<Rightarrow> 'b TCPSocket \<Rightarrow> u8 list \<Rightarrow> TCPPacket \<Rightarrow> bool" where
  "packet_ok cap stream s consumed p \<longleftrightarrow>
     (Flags (Header p) = TCPFlagAck \<and> Data p \<noteq> [] \<longrightarrow>
        segment_of stream (RemoteISN s) p \<and>
        fits_in (int (length consumed) + cap (ReadBuffer s)) (RemoteISN s) p)"

lemma HandleTCPPacket_recv:
  assumes rb: "ringbuffer_ok (RPkg E) okb bytes cap" and short: "length stream < 2 ^ 32 - 1"
    and inv: "recv_inv okb bytes cap stream s consumed"
    and ok: "packet_ok cap stream s consumed p"
  shows "recv_inv okb bytes cap stream (fst (HandleTCPPacket E now s p)) consumed"
proof (cases "Flags (Header p) = TCPFlagAck")
  case ack: True
  obtain s1 e1 b where a: "handle_ack E now s p = (s1, e1, b)" by (metis prod_cases3)
  obtain s2 e2 where w: "handle_window s1 p = (s2, e2)" by fastforce
  obtain s3 e3 where t: "handle_text E s2 p = (s3, e3)" by fastforce
  obtain s4 e4 where tx: "receive_text E s2 p = (s4, e4)" by fastforce
  have r: "receiver s1 = receiver s" "receiver s2 = receiver s"
    using handle_ack_receiver [of E now s p] handle_window_receiver [of s1 p] a w by simp_all
  then have inv2: "recv_inv okb bytes cap stream s2 consumed"
      and inv1: "recv_inv okb bytes cap stream s1 consumed"
    using inv recv_inv_receiver by blast+
  have eq: "RemoteISN s2 = RemoteISN s" "ReadBuffer s2 = ReadBuffer s"
    using r(2) by (simp_all add: receiver_def)
  have "recv_inv okb bytes cap stream s3 consumed"
  proof (cases "Data p = []")
    case True
    then show ?thesis using t inv2 by (simp add: handle_text_def)
  next
    case False
    then have "s3 = s4" using t tx by (simp add: handle_text_def)
    moreover have "segment_of stream (RemoteISN s2) p"
        "fits_in (int (length consumed) + cap (ReadBuffer s2)) (RemoteISN s2) p"
      using ok ack False by (simp_all add: packet_ok_def eq)
    from receive_text_recv [OF rb short inv2 this] have
      "recv_inv okb bytes cap stream s4 consumed" by (simp add: tx)
    ultimately show ?thesis by simp
  qed
  then show ?thesis using ack inv1 by (simp add: HandleTCPPacket_def a w t)
next
  case False
  then show ?thesis using inv handle_fin_recv [OF inv] by (simp add: HandleTCPPacket_def)
qed

section \<open>Runs of the receiver\<close>

text \<open>Packets arrive and the application reads; what it has read is kept beside the socket.\<close>

datatype recv_event = Arrive int TCPPacket | ReadBytes int

primrec recv_step ::
  "'b tcp_env \<Rightarrow> 'b TCPSocket \<times> u8 list \<Rightarrow> recv_event \<Rightarrow> 'b TCPSocket \<times> u8 list" where
  "recv_step E st (Arrive now p) = (fst (HandleTCPPacket E now (fst st) p), snd st)"
| "recv_step E st (ReadBytes n) =
     (case VRead_turn E (fst st) n of
        (s', Done (Inr out)) \<Rightarrow> (s', snd st @ out)
      | (s', _) \<Rightarrow> (s', snd st))"

primrec recv_event_ok :: "('b \<Rightarrow> int) \<Rightarrow> u8 list \<Rightarrow> 'b TCPSocket \<times> u8 list \<Rightarrow> recv_event \<Rightarrow> bool" where
  "recv_event_ok cap stream st (Arrive now p) \<longleftrightarrow> packet_ok cap stream (fst st) (snd st) p"
| "recv_event_ok cap stream st (ReadBytes n) \<longleftrightarrow> 0 \<le> n"

fun recv_run_ok ::
  "'b tcp_env \<Rightarrow> ('b \<Rightarrow> int) \<Rightarrow> u8 list \<Rightarrow> 'b TCPSocket \<times> u8 list \<Rightarrow> recv_event list \<Rightarrow> bool" where
  "recv_run_ok E cap stream st [] \<longleftrightarrow> True"
| "recv_run_ok E cap stream st (x # xs) \<longleftrightarrow>
     recv_event_ok cap stream st x \<and> recv_run_ok E cap stream (recv_step E st x) xs"

lemma VRead_turn_recv:
  assumes rb: "ringbuffer_ok (RPkg E) okb bytes cap"
    and inv: "recv_inv okb bytes cap stream s consumed" and n: "0 \<le> n"
  shows "case recv_step E (s, consumed) (ReadBytes n) of
    (s', consumed') \<Rightarrow> recv_inv okb bytes cap stream s' consumed'"
proof (cases "rb_IsEmpty (RPkg E) (ReadBuffer s)")
  case True
  then show ?thesis using inv by (simp add: VRead_turn_def)
next
  case False
  have ok: "okb (ReadBuffer s)" using inv by (simp add: recv_inv_def)
  obtain b' out err where r: "rb_Read (RPkg E) (ReadBuffer s) n = (b', out, err)"
    by (metis prod_cases3)
  note rd = ringbuffer_read [OF rb ok n r]
  have "bytes (ReadBuffer s) \<noteq> []" using False ringbuffer_laws(2) [OF rb ok] by simp
  with rd have err: "err = None" by simp
  have split: "out @ bytes b' = bytes (ReadBuffer s)" using rd by simp
  have "\<forall>it \<in># contents (EarlyArrivalQueue s). item_ok stream (RemoteISN s)
      (int (length (consumed @ out)) + cap b') it"
  proof
    fix it assume "it \<in># contents (EarlyArrivalQueue s)"
    then have "item_ok stream (RemoteISN s) (int (length consumed) + cap (ReadBuffer s)) it"
      using inv by (simp add: recv_inv_def)
    then show "item_ok stream (RemoteISN s) (int (length (consumed @ out)) + cap b') it"
      by (rule item_ok_mono) (use rd in simp)
  qed
  moreover have "(consumed @ out) @ bytes b' = take (unat (NextExpectedByte s) - 1) stream"
    using inv split by (simp add: recv_inv_def)
  moreover have "recv_step E (s, consumed) (ReadBytes n) = (s\<lparr>ReadBuffer := b'\<rparr>, consumed @ out)"
    using False r err by (simp add: VRead_turn_def)
  ultimately show ?thesis using inv rd by (simp add: recv_inv_def)
qed

lemma recv_run_inv:
  assumes rb: "ringbuffer_ok (RPkg E) okb bytes cap" and short: "length stream < 2 ^ 32 - 1"
  shows "recv_inv okb bytes cap stream (fst st) (snd st) \<Longrightarrow> recv_run_ok E cap stream st events \<Longrightarrow>
    recv_inv okb bytes cap stream (fst (foldl (recv_step E) st events))
      (snd (foldl (recv_step E) st events))"
proof (induction events arbitrary: st)
  case (Cons x xs)
  have "recv_inv okb bytes cap stream (fst (recv_step E st x)) (snd (recv_step E st x))"
  proof (cases x)
    case (Arrive now p)
    then show ?thesis
      using HandleTCPPacket_recv [OF rb short Cons.prems(1)] Cons.prems(2) by simp
  next
    case (ReadBytes n)
    then show ?thesis
      using VRead_turn_recv [OF rb Cons.prems(1), of n] Cons.prems(2)
      by (simp add: split_beta)
  qed
  with Cons show ?case by simp
qed simp

text \<open>C4: The stream is delivered reliably and in order. On a freshly established connection, let
  packets arrive in any order, any number of times or not at all, interleaved with reads of any
  size, as long as every data segment carries bytes of the peer's stream and ends inside the
  receive buffer; then what the application has read, followed by what is buffered, is the
  stream up to the next expected byte: nothing is lost, repeated, reordered or made up.\<close>

theorem stream_delivered_in_order:
  assumes "ringbuffer_ok (RPkg E) okb bytes cap" and "length stream < 2 ^ 32 - 1"
    and "okb (ReadBuffer s)" "bytes (ReadBuffer s) = []" "NextExpectedByte s = 1"
      "EarlyArrivalQueue s = []"
    and "recv_run_ok E cap stream (s, []) events"
    and "foldl (recv_step E) (s, []) events = (s', consumed)"
  shows "consumed @ bytes (ReadBuffer s') = take (unat (NextExpectedByte s') - 1) stream"
proof -
  have "recv_inv okb bytes cap stream s []"
    using assms(3-6) by (simp add: recv_inv_def heap_upto_def contents_def)
  with recv_run_inv [OF assms(1,2), of "(s, [])" events] assms(7,8)
  have "recv_inv okb bytes cap stream s' consumed" by simp
  then show ?thesis by (simp add: recv_inv_def)
qed

definition sample_segment :: "u32 \<Rightarrow> u8 list \<Rightarrow> TCPPacket" where
  "sample_segment seq d = \<lparr>SrcIP = sample_ip 1 2,
     Header = \<lparr>SrcPort = 80, DstPort = 40000, SeqNum = 5000 + seq, AckNum = 1001,
       DataOffset = TCPHeaderLen, Flags = TCPFlagAck, WindowSize = 2000, TChecksum = 0,
       UrgentPointer = 0\<rparr>, Data = d\<rparr>"

text \<open>The second half of the stream comes first, twice; a read follows.\<close>

definition sample_arrivals :: "recv_event list" where
  "sample_arrivals =
     [Arrive 1 (sample_segment 4 [13, 14]), Arrive 2 (sample_segment 4 [13, 14]),
      Arrive 3 (sample_segment 1 [10, 11, 12]), ReadBytes 4]"

theorem stream_delivered_in_order_witness:
  "snd (foldl (recv_step sample_env) (sample_socket, []) sample_arrivals) = [10, 11, 12, 13] \<and>
   snd (foldl (recv_step sample_env) (sample_socket, []) sample_arrivals) @
     snd (ReadBuffer (fst (foldl (recv_step sample_env) (sample_socket, []) sample_arrivals))) =
     take (unat (NextExpectedByte (fst (foldl (recv_step sample_env) (sample_socket, [])
       sample_arrivals))) - 1) [10, 11, 12, 13, 14]"
proof -
  have rb: "ringbuffer_ok (RPkg sample_env) (\<lambda>(c, xs). int (length xs) \<le> c) snd fst"
    using list_rb_ok by (simp add: sample_env_def)
  have short: "length ([10, 11, 12, 13, 14] :: u8 list) < 2 ^ 32 - 1" by simp
  have start: "(\<lambda>(c, xs). int (length xs) \<le> c) (ReadBuffer sample_socket)"
      "snd (ReadBuffer sample_socket) = []" "NextExpectedByte sample_socket = 1"
      "EarlyArrivalQueue sample_socket = []" by code_simp+
  have run: "recv_run_ok sample_env fst [10, 11, 12, 13, 14] (sample_socket, []) sample_arrivals"
    by code_simp
  have "snd (foldl (recv_step sample_env) (sample_socket, []) sample_arrivals) = [10, 11, 12, 13]"
    by code_simp
  with stream_delivered_in_order [OF rb short start run surjective_pairing] show ?thesis by simp
qed

section \<open>Acknowledging\<close>

lemma ack_loop_closed: "snd (ack_loop E now s) \<Longrightarrow> ConnState s = LAST_ACK"
proof (induction "RTQueue s" arbitrary: s)
  case Nil
  then show ?case by (simp add: ack_loop_Nil)
next
  case (Cons it q)
  have q: "RTQueue s = it # q" using Cons.hyps(2) by simp
  show ?case
    using Cons.hyps(1) [of "drop_acked E now it q s"] Cons.prems
    by (auto simp: ack_loop_Cons [OF q] split: if_splits)
qed

lemma handle_ack_goes_on:
  assumes "AckNum (Header p) \<le> NextSequenceNumber s" "ConnState s \<noteq> LAST_ACK"
  shows "\<exists>s1. handle_ack E now s p = (s1, [], False)"
proof -
  obtain s3 b where s3: "ack_loop E now (note_ack s (AckNum (Header p))) = (s3, b)" by fastforce
  then have "\<not> b" using ack_loop_closed [of E now "note_ack s (AckNum (Header p))"] assms(2) by auto
  with assms(1) show ?thesis by (auto simp: handle_ack_eq [OF s3])
qed

lemma ack_loop_SConn: "SConn (fst (ack_loop E now s)) = SConn s"
proof (induction "RTQueue s" arbitrary: s)
  case Nil
  then show ?case by (simp add: ack_loop_Nil)
next
  case (Cons it q)
  have q: "RTQueue s = it # q" using Cons.hyps(2) by simp
  show ?case
    using Cons.hyps(1) [of "drop_acked E now it q s"] by (simp add: ack_loop_Cons [OF q])
qed

lemma handle_ack_SConn: "SConn (fst (handle_ack E now s p)) = SConn s"
proof -
  obtain s3 b where s3: "ack_loop E now (note_ack s (AckNum (Header p))) = (s3, b)" by fastforce
  then show ?thesis
    using ack_loop_SConn [of E now "note_ack s (AckNum (Header p))"]
    by (simp add: handle_ack_eq [OF s3])
qed

text \<open>C22: The next segment of the stream is taken and acknowledged: when it arrives in order and fits
  the buffer, the next expected byte moves past it (and past whatever early arrivals it joins
  up), and the last thing the handler does is to send an acknowledgment of exactly that
  byte, with the free space as the window.\<close>

theorem in_order_segment_acknowledged:
  assumes "ringbuffer_ok (RPkg E) okb bytes cap" and "length stream < 2 ^ 32 - 1"
    and "recv_inv okb bytes cap stream s consumed"
    and "Flags (Header p) = TCPFlagAck" "Data p \<noteq> []" "segment_of stream (RemoteISN s) p"
    and "SeqNum (Header p) - RemoteISN s = NextExpectedByte s"
    and "int (length (Data p)) \<le> rb_Free (RPkg E) (ReadBuffer s)"
    and "AckNum (Header p) \<le> NextSequenceNumber s" "ConnState s \<noteq> LAST_ACK"
    and "net_takes E (RemoteIP (SConn s))"
    and "HandleTCPPacket E now s p = (s', effs)"
  shows "unat (NextExpectedByte s) + length (Data p) \<le> unat (NextExpectedByte s') \<and>
    (\<exists>rest ack. effs = rest @ [Sent (RemoteIP (SConn s)) (MarshalTCP (TPkg E) ack)] \<and>
       Flags (Header ack) = TCPFlagAck \<and> Data ack = [] \<and>
       AckNum (Header ack) = NextExpectedByte s' + RemoteISN s \<and>
       WindowSize (Header ack) = word_of_int (rb_Free (RPkg E) (ReadBuffer s')))"
proof -
  obtain s1 where a: "handle_ack E now s p = (s1, [], False)"
    using handle_ack_goes_on [OF assms(9,10)] by blast
  obtain s2 e2 where w: "handle_window s1 p = (s2, e2)" by fastforce
  obtain s4 e4 where tx: "receive_text E s2 p = (s4, e4)" by fastforce
  have r2: "receiver s2 = receiver s"
    using handle_ack_receiver [of E now s p] handle_window_receiver [of s1 p] a w by simp
  then have eq: "RemoteISN s2 = RemoteISN s" "ReadBuffer s2 = ReadBuffer s"
      "NextExpectedByte s2 = NextExpectedByte s" by (simp_all add: receiver_def)
  have inv2: "recv_inv okb bytes cap stream s2 consumed"
    using assms(3) recv_inv_receiver [OF r2] by blast
  have ok: "okb (ReadBuffer s)"
    and pre: "consumed @ bytes (ReadBuffer s) = take (unat (NextExpectedByte s) - 1) stream"
      "unat (NextExpectedByte s) - 1 \<le> length stream"
    using assms(3) by (simp_all add: recv_inv_def)
  have "length consumed + length (bytes (ReadBuffer s)) = unat (NextExpectedByte s) - 1"
    using arg_cong [OF pre(1), of length] pre(2) by simp
  then have fits: "fits_in (int (length consumed) + cap (ReadBuffer s)) (RemoteISN s) p"
    using assms(8) ringbuffer_laws(1) [OF assms(1) ok] by (simp add: fits_in_def seg_off_def assms(7))
  have adv: "unat (NextExpectedByte s) + length (Data p) \<le> unat (NextExpectedByte s4)"
    using receive_text_recv [OF assms(1,2) inv2, of p] assms(6,7,8) fits
    by (simp add: eq tx)
  have "SConn s2 = SConn s"
    using handle_ack_SConn [of E now s p] a w by (auto simp: handle_window_def Let_def split: if_splits)
  moreover have "heap_ok (EarlyArrivalQueue s2)" using inv2 by (simp add: recv_inv_def)
  from receive_text_frame [OF this, of E p] have "SConn s4 = SConn s2" "RemoteISN s4 = RemoteISN s2"
    by (simp_all add: tx same_sender_def)
  ultimately have conn: "SConn s4 = SConn s" "RemoteISN s4 = RemoteISN s" using eq by simp_all
  let ?ack = "ack_packet E s4 (NextExpectedByte s4 + RemoteISN s)"
  have "HandleTCPPacket E now s p =
      (s4, e2 @ e4 @ [Sent (RemoteIP (SConn s)) (MarshalTCP (TPkg E) ?ack)])"
    using assms(4,5,11) by (simp add: HandleTCPPacket_def a w tx handle_text_def
        send_segment_taken conn)
  then have "s' = s4" "effs = (e2 @ e4) @ [Sent (RemoteIP (SConn s)) (MarshalTCP (TPkg E) ?ack)]"
    using assms(12) by simp_all
  moreover have "Flags (Header ?ack) = TCPFlagAck" "Data ?ack = []"
      "AckNum (Header ?ack) = NextExpectedByte s4 + RemoteISN s"
      "WindowSize (Header ?ack) = word_of_int (rb_Free (RPkg E) (ReadBuffer s4))"
    by (simp_all add: ack_packet_def socket_header_def)
  ultimately show ?thesis using adv by blast
qed

theorem in_order_segment_acknowledged_witness:
  "\<exists>s' effs. HandleTCPPacket sample_env 1 sample_socket (sample_segment 1 [10, 11, 12]) = (s', effs) \<and>
     4 \<le> unat (NextExpectedByte s') \<and> effs \<noteq> []"
proof -
  have rb: "ringbuffer_ok (RPkg sample_env) (\<lambda>(c, xs). int (length xs) \<le> c) snd fst"
    using list_rb_ok by (simp add: sample_env_def)
  have short: "length ([10, 11, 12, 13, 14] :: u8 list) < 2 ^ 32 - 1" by simp
  have inv: "recv_inv (\<lambda>(c, xs). int (length xs) \<le> c) snd fst [10, 11, 12, 13, 14] sample_socket []"
    by (simp add: recv_inv_def sample_socket_def MakeTCPSocket_def list_rb_def heap_upto_def
        contents_def MaxBufferSize_def)
  have p: "Flags (Header (sample_segment 1 [10, 11, 12])) = TCPFlagAck"
      "Data (sample_segment 1 [10, 11, 12]) \<noteq> []"
      "segment_of [10, 11, 12, 13, 14] (RemoteISN sample_socket) (sample_segment 1 [10, 11, 12])"
      "SeqNum (Header (sample_segment 1 [10, 11, 12])) - RemoteISN sample_socket =
         NextExpectedByte sample_socket"
      "int (length (Data (sample_segment 1 [10, 11, 12]))) \<le>
         rb_Free (RPkg sample_env) (ReadBuffer sample_socket)"
      "AckNum (Header (sample_segment 1 [10, 11, 12])) \<le> NextSequenceNumber sample_socket"
      "ConnState sample_socket \<noteq> LAST_ACK" by code_simp+
  have net: "net_takes sample_env (RemoteIP (SConn sample_socket))" by simp
  have len: "unat (NextExpectedByte sample_socket) + length (Data (sample_segment 1 [10, 11, 12])) = 4"
    by code_simp
  from in_order_segment_acknowledged [OF rb short inv p net surjective_pairing, of 1]
  show ?thesis unfolding len by (metis append_is_Nil_conv list.discI surjective_pairing)
qed

text \<open>A receiver with room for four bytes, and the stream 1, 2, 3, 4, 5 in two segments.\<close>

definition small_receiver :: "(int \<times> u8 list) TCPSocket" where
  "small_receiver = sample_socket\<lparr>ReadBuffer := (4, [])\<rparr>"

definition overflow_events :: "recv_event list" where
  "overflow_events =
     [Arrive 1 (sample_segment 3 [3, 4, 5]), Arrive 2 (sample_segment 1 [1, 2]), ReadBytes 4,
      Arrive 3 (sample_segment 3 [3, 4, 5]), ReadBytes 4]"

text \<open>A segment beyond the buffer corrupts the stream. Early arrivals are queued without looking
  at the window and later written without looking at the free space; the ring buffer stores
  what fits, the next expected byte does not move, and when the segment is sent again its first
  bytes are delivered a second time: here the application reads 1, 2, 3, 4, 3, 4, 5.\<close>

theorem overflow_repeats_bytes:
  "segment_of [1, 2, 3, 4, 5] (RemoteISN small_receiver) (sample_segment 3 [3, 4, 5]) \<and>
   segment_of [1, 2, 3, 4, 5] (RemoteISN small_receiver) (sample_segment 1 [1, 2]) \<and>
   snd (foldl (recv_step sample_env) (small_receiver, []) overflow_events) = [1, 2, 3, 4, 3, 4, 5]"
  by (intro conjI) code_simp+

end
