(* ===== verification/Command.thy ===== *)
theory Command
  imports TcpTeardown TcpStream NetText
begin

text \<open>
  The command line (\<open>pkg/cli/cli.go\<close>, \<open>tcp.PrintSockets\<close>): a line is cut at single spaces and
  dispatched to one handler. A handler returns the node, what it printed, sent and started, and
  whether the command line goes on or waits in a socket call. The global \<open>tcp\<close> is \<open>None\<close> until
  \<open>tcp.Init\<close> has run, and always on a router. Files, random numbers and the orders of map
  iteration come from \<open>shell_env\<close>.
\<close>

section \<open>The node and its environment\<close>

datatype app = TestProtocolApp | RIPApp | TCPApp

record 'b Node =
  Stack :: "app IPStack"
  Layer :: "'b TCPLayer option"

datatype task =
    ConnectTo Addr u16
  | AcceptFrom VTCPListener
  | SendFileOn VTCPConn "u8 list" string
  | ReceiveFileFrom VTCPListener string

datatype effect =
    Printed string
  | Packet "app net_out"
  | Segment tcp_effect
  | StartTask task
  | StopListener VTCPListener
  | CloseSignal VTCPConn
  | Truncated string
  | Delivered delivery

datatype waiting =
    ForSynAck VTCPConn "u8 list" string
  | ForSpace VTCPConn "u8 list"
  | ForData VTCPConn int
  | ForPort

datatype reply = Prompt | Blocked waiting

type_synonym 'b reaction = "('b Node \<times> effect list \<times> reply) res"

record 'b shell_env =
  NetPkgs :: net_pkgs
  RangeOrder :: "nat \<Rightarrow> FwdTable \<Rightarrow> FwdTable"
  NeighborOrder :: "(Addr \<times> AddrPort) list \<Rightarrow> (Addr \<times> AddrPort) list"
  SocketOrder :: "(VTCPConn \<times> 'b TCPSocket) list \<Rightarrow> (VTCPConn \<times> 'b TCPSocket) list"
  ListenerOrder :: "(u16 \<times> VTCPListener) list \<Rightarrow> (u16 \<times> VTCPListener) list"
  TcpEnv :: "'b tcp_env"
  RandPort :: "nat \<Rightarrow> u32"
  RandISN :: u32
  ReadFile :: "string \<Rightarrow> u8 list res"
  OpenFile :: "string \<Rightarrow> go_error option"
  Now :: int
  UpdateOrders :: "nat \<Rightarrow> nat \<Rightarrow> FwdTable \<Rightarrow> FwdTable"

text \<open>Segments go out through the node's own stack.\<close>

definition node_env :: "'b shell_env \<Rightarrow> 'b Node \<Rightarrow> 'b tcp_env" where
  "node_env S h = (TcpEnv S)\<lparr>Net := tcp_net (NetPkgs S) (RangeOrder S) (Stack h)\<rparr>"

section \<open>Printing\<close>

definition pad_right :: "nat \<Rightarrow> string \<Rightarrow> string" where
  "pad_right n s = s @ replicate (n - length s) CHR '' ''"

definition show_int :: "int \<Rightarrow> string" where
  "show_int i = (if i < 0 then CHR ''-'' # show_nat (nat (- i)) else show_nat (nat i))"

definition newline :: string where "newline = [CHR 0x0A]"

definition bytes_of :: "string \<Rightarrow> u8 list" where
  "bytes_of s = map (\<lambda>c. of_nat (of_char c)) s"

definition text_of :: "u8 list \<Rightarrow> string" where
  "text_of bs = map (\<lambda>b. char_of (unat b)) bs"

lemma length_bytes_of [simp]: "length (bytes_of s) = length s"
  by (simp add: bytes_of_def)

lemma text_of_bytes_of [simp]: "text_of (bytes_of s) = s"
proof -
  have "char_of (unat (of_nat (of_char c) :: u8)) = c" for c :: char
    by (simp add: unsigned_of_nat char_of_take_bit_eq)
  then show ?thesis by (simp add: text_of_def bytes_of_def comp_def)
qed

text \<open>A handler prints an error and goes on; a panic ends the program.\<close>

definition report :: "go_error \<Rightarrow> (string \<Rightarrow> 'a) \<Rightarrow> 'a res" where
  "report e k = (case e of Panic p \<Rightarrow> Inl (Panic p) | Error m \<Rightarrow> Inr (k m))"

text \<open>The value \<open>strconv.Atoi\<close> returns next to an error: 0, or the bound that was passed.\<close>

definition AtoiValue :: "string \<Rightarrow> int" where
  "AtoiValue s =
     (case Atoi s of
        Inr n \<Rightarrow> n
      | Inl _ \<Rightarrow>
          (if s \<noteq> [] \<and> hd s = CHR ''-''
           then (if numeric (tl s) then - (2 ^ 63) else 0)
           else (if numeric (if s \<noteq> [] \<and> hd s = CHR ''+'' then tl s else s) then 2 ^ 63 - 1 else 0)))"

section \<open>Commands of every node\<close>

definition HandleSend :: "'b shell_env \<Rightarrow> string list \<Rightarrow> 'b Node \<Rightarrow> 'b reaction" where
  "HandleSend S words h =
     (let allWords = go_join CHR '' '' (drop 2 words)
      in case ParseAddr (words ! 1) of
           Inl e \<Rightarrow> report e (\<lambda>m. (h, [Printed (''Could not parse addr  '' @ m @ newline)], Prompt))
         | Inr destIP \<Rightarrow>
             (case SendIP (NetPkgs S) (RangeOrder S) (Stack h) destIP 0 (bytes_of allWords) of
                Inl e \<Rightarrow> report e (\<lambda>m. (h, [Printed (''Error sending packet  '' @ m @ newline)], Prompt))
              | Inr out \<Rightarrow> Inr (h, [Packet out], Prompt)))"

definition ListInterfaces :: "app IPStack \<Rightarrow> string" where
  "ListInterfaces st =
     pad_right 6 ''Name'' @ '' '' @ pad_right 15 ''Addr/Prefix'' @ '' State'' @ newline @
     replicate 33 CHR ''-'' @ newline @
     concat (map (\<lambda>i. pad_right 6 (InterfaceName i) @ '' '' @ show_addr (AssignedIP i) @ ''/'' @
       show_nat (Bits (AssignedPrefix i)) @ ''     '' @ ToString (IState i) @ newline)
       (LInterfaces (LnkLayer st)))"

definition ListNeighbors ::
  "((Addr \<times> AddrPort) list \<Rightarrow> (Addr \<times> AddrPort) list) \<Rightarrow> app IPStack \<Rightarrow> string" where
  "ListNeighbors ord st =
     pad_right 6 ''Iface'' @ pad_right 15 ''VIP'' @ pad_right 15 ''UDPAddr'' @ newline @
     concat (map (\<lambda>i. if IState i = INTERFACEUP
       then concat (map (\<lambda>(neighborIP, udpAddr). pad_right 6 (InterfaceName i) @
              pad_right 15 (show_addr neighborIP) @ pad_right 15 (show_addrport udpAddr) @ newline)
              (ord (INeighbors i)))
       else []) (LInterfaces (LnkLayer st)))"

definition route_row :: "FwdTableEntry \<times> FwdTableValue \<Rightarrow> string" where
  "route_row x =
     (let value = snd x;
          via = (case NextHop value of None \<Rightarrow> [] | Some a \<Rightarrow> show_addr a);
          (routeType, nextHop, cost) =
            (case RouteType value of
               LocalRoute \<Rightarrow> (''L'', (case Interface value of None \<Rightarrow> []
                                    | Some i \<Rightarrow> ''LOCAL:'' @ InterfaceName i), ''0'')
             | StaticRoute \<Rightarrow> (''S'', via, ''-'')
             | RIPRoute \<Rightarrow> (''R'', via, show_nat (unat (Cost value))))
      in routeType @ ''  '' @ pad_right 15 (show_prefix (EAssignedPrefix (fst x))) @ ''  '' @
         pad_right 14 nextHop @ ''  '' @ cost @ newline)"

definition ListRoutes :: "(nat \<Rightarrow> FwdTable \<Rightarrow> FwdTable) \<Rightarrow> app IPStack \<Rightarrow> string" where
  "ListRoutes rng st =
     ''T       Prefix         Next hop       Cost'' @ newline @
     concat (map route_row (rng 0 (FwdTable (NetLayer st))))"

definition switched_node :: "'b Node \<Rightarrow> app IPStack res \<Rightarrow> 'b reaction" where
  "switched_node h r =
     (case r of
        Inl e \<Rightarrow> Inl e
      | Inr st \<Rightarrow> Inr (h\<lparr>Stack := st\<rparr>, [], Prompt))"

section \<open>Commands on sockets\<close>

definition HandleSendSocket :: "'b shell_env \<Rightarrow> string list \<Rightarrow> 'b Node \<Rightarrow> 'b reaction" where
  "HandleSendSocket S words h =
     (case Atoi (words ! 1) of
        Inl e \<Rightarrow> Inr (h, [Printed (''Invalid socket Id: '' @ words ! 1)], Prompt)
      | Inr socketId \<Rightarrow>
          (case Layer h of
             None \<Rightarrow> Inl (Panic NilDereference)
           | Some l \<Rightarrow>
               (case GetSocketById (SocketOrder S) l socketId of
                  None \<Rightarrow> Inr (h, [Printed (''socketId '' @ show_int socketId @ '' doesn't exist'' @
                                 newline)], Prompt)
                | Some socket \<Rightarrow>
                    (let allWords = go_join CHR '' '' (drop 2 words)
                     in case VWrite (node_env S h) l (SConn socket) (bytes_of allWords) of
                          (l', Wait, rest) \<Rightarrow>
                            Inr (h\<lparr>Layer := Some l'\<rparr>, [], Blocked (ForSpace (SConn socket) rest))
                        | (l', Done (Inl e), rest) \<Rightarrow>
                            report e (\<lambda>m. (h\<lparr>Layer := Some l'\<rparr>, [Printed (m @ newline)], Prompt))
                        | (l', Done (Inr bytesWritten), rest) \<Rightarrow>
                            Inr (h\<lparr>Layer := Some l'\<rparr>, [Printed (''Sent '' @ show_int bytesWritten @
                                   '' bytes'' @ newline)], Prompt)))))"

text \<open>
  A socket ID that is no number is reported and then used with its value 0; a negative number of
  bytes makes \<open>make\<close> panic. The buffer it allocates is assumed to fit into memory.
\<close>

definition HandleReceiveSocket :: "'b shell_env \<Rightarrow> string list \<Rightarrow> 'b Node \<Rightarrow> 'b reaction" where
  "HandleReceiveSocket S words h =
     (let socketId = AtoiValue (words ! 1);
          warn = (case Atoi (words ! 1) of
                    Inl e \<Rightarrow> [Printed (''Invalid socket Id: '' @ words ! 1)] | Inr _ \<Rightarrow> [])
      in case Atoi (words ! 2) of
           Inl e \<Rightarrow> Inr (h, warn @ [Printed (''Invalid bytesToRead: '' @ words ! 2 @ newline)], Prompt)
         | Inr bytesToRead \<Rightarrow>
             if bytesToRead < 0 then Inl (Panic MakeSliceLen)
             else
               (case Layer h of
                  None \<Rightarrow> Inl (Panic NilDereference)
                | Some l \<Rightarrow>
                    (case GetSocketById (SocketOrder S) l socketId of
                       None \<Rightarrow> Inr (h, warn @ [Printed (''socketId '' @ show_int socketId @
                                      '' doesn't exist'' @ newline)], Prompt)
                     | Some socket \<Rightarrow>
                         (case VRead (node_env S h) l (SConn socket) bytesToRead of
                            (l', Wait) \<Rightarrow>
                              Inr (h\<lparr>Layer := Some l'\<rparr>, warn,
                                   Blocked (ForData (SConn socket) bytesToRead))
                          | (l', Done (Inl e)) \<Rightarrow>
                              report e (\<lambda>m. (h\<lparr>Layer := Some l'\<rparr>,
                                warn @ [Printed (''Error while reading: '' @ m @ newline),
                                        Printed (''Read 0 bytes: '' @ newline)], Prompt))
                          | (l', Done (Inr payload)) \<Rightarrow>
                              Inr (h\<lparr>Layer := Some l'\<rparr>,
                                warn @ [Printed (''Read '' @ show_nat (length payload) @ '' bytes: '' @
                                          text_of payload @ newline)], Prompt)))))"

text \<open>The port is cut to 16 bits.\<close>

definition HandleConnect :: "string list \<Rightarrow> 'b Node \<Rightarrow> 'b reaction" where
  "HandleConnect words h =
     (case ParseAddr (words ! 1) of
        Inl e \<Rightarrow> Inr (h, [], Prompt)
      | Inr destIP \<Rightarrow>
          (case Atoi (words ! 2) of
             Inl e \<Rightarrow> Inr (h, [Printed (''Invalid TCP port'' @ newline)], Prompt)
           | Inr port \<Rightarrow> Inr (h, [StartTask (ConnectTo destIP (word_of_int port))], Prompt)))"

definition HandleAccept :: "string list \<Rightarrow> 'b Node \<Rightarrow> 'b reaction" where
  "HandleAccept words h =
     (let port = AtoiValue (words ! 1);
          warn = (case Atoi (words ! 1) of Inl e \<Rightarrow> [Printed ''Invalid TCP port''] | Inr _ \<Rightarrow> [])
      in case Layer h of
           None \<Rightarrow> Inl (Panic NilDereference)
         | Some l \<Rightarrow>
             (case VListen l (word_of_int port) of
                Inl e \<Rightarrow> report e (\<lambda>m. (h, warn @ [Printed (m @ newline)], Prompt))
              | Inr (l', listener) \<Rightarrow>
                  Inr (h\<lparr>Layer := Some l'\<rparr>, warn @ [StartTask (AcceptFrom listener)], Prompt)))"

definition PrintSockets :: "'b shell_env \<Rightarrow> 'b TCPLayer \<Rightarrow> string" where
  "PrintSockets S l =
     ''SID      LAddr LPort      RAddr RPort       Status'' @ newline @
     replicate 50 CHR ''-'' @ newline @
     concat (map (\<lambda>(port, listener). show_nat (unat (LSocketID listener)) @ ''    0.0.0.0 '' @
         show_nat (unat port) @ ''    0.0.0.0 0       LISTEN'' @ newline)
       (ListenerOrder S (ListenersTable l))) @
     concat (map (\<lambda>(conn, sock). show_nat (unat (SocketID sock)) @ ''      '' @
         show_addr (LocalIP conn) @ '' '' @ show_nat (unat (LocalPort conn)) @ ''      '' @
         show_addr (RemoteIP conn) @ '' '' @ show_nat (unat (RemotePort conn)) @ ''       '' @
         ConvertStateToString (ConnState sock) @ newline)
       (SocketOrder S (SocketTable l))) @ newline"

definition ListSockets :: "'b shell_env \<Rightarrow> 'b Node \<Rightarrow> 'b reaction" where
  "ListSockets S h =
     (case Layer h of
        None \<Rightarrow> Inl (Panic NilDereference)
      | Some l \<Rightarrow> Inr (h, [Printed (PrintSockets S l)], Prompt))"

text \<open>Closing a listener prints its error, also when there is none.\<close>

definition HandleClose :: "'b shell_env \<Rightarrow> string list \<Rightarrow> 'b Node \<Rightarrow> 'b reaction" where
  "HandleClose S words h =
     (case Atoi (words ! 1) of
        Inl e \<Rightarrow> report e (\<lambda>m. (h, [Printed (m @ newline)], Prompt))
      | Inr socketId \<Rightarrow>
          (case Layer h of
             None \<Rightarrow> Inl (Panic NilDereference)
           | Some l \<Rightarrow>
               (case GetListenerBySocketId (ListenerOrder S) l socketId of
                  Some listener \<Rightarrow>
                    (case VClose_listener l listener of
                       Inl e \<Rightarrow> report e (\<lambda>m. (h, [Printed (m @ newline)], Prompt))
                     | Inr l' \<Rightarrow> Inr (h\<lparr>Layer := Some l'\<rparr>,
                                   [StopListener listener, Printed (''<nil>'' @ newline)], Prompt))
                | None \<Rightarrow>
                    (case GetSocketById (SocketOrder S) l socketId of
                       None \<Rightarrow> Inr (h, [Printed (''error: socket does not exist'' @ newline)], Prompt)
                     | Some socket \<Rightarrow>
                         (case VClose l (SConn socket) of
                            Inl e \<Rightarrow> report e (\<lambda>m. (h, [Printed (m @ newline)], Prompt))
                          | Inr (l', signalled) \<Rightarrow>
                              Inr (h\<lparr>Layer := Some l'\<rparr>,
                                if signalled then [CloseSignal (SConn socket)] else [], Prompt))))))"

section \<open>Sending and receiving files\<close>

text \<open>
  \<open>VConnect\<close> runs in the command line, which therefore waits for the SYN-ACK. After an error the
  goroutine that should write the file is started all the same and dereferences a nil connection.
\<close>

definition HandleSendFile :: "'b shell_env \<Rightarrow> string list \<Rightarrow> 'b Node \<Rightarrow> 'b reaction" where
  "HandleSendFile S words h =
     (case ReadFile S (words ! 1) of
        Inl e \<Rightarrow> report e (\<lambda>m. (h, [Printed (m @ newline)], Prompt))
      | Inr payload \<Rightarrow>
          (case ParseAddr (words ! 2) of
             Inl e \<Rightarrow> report e (\<lambda>m. (h, [Printed (m @ newline)], Prompt))
           | Inr destIP \<Rightarrow>
               (case Atoi (words ! 3) of
                  Inl e \<Rightarrow> report e (\<lambda>m. (h, [Printed (m @ newline)], Prompt))
                | Inr port \<Rightarrow>
                    (case Layer h of
                       None \<Rightarrow> Inl (Panic NilDereference)
                     | Some l \<Rightarrow>
                         (case VConnect_start (node_env S h) (RandPort S) (RandISN S) l destIP
                                 (word_of_int port) of
                            None \<Rightarrow> Inr (h, [], Blocked ForPort)
                          | Some (l', effs, Inl e) \<Rightarrow> Inl (Panic NilDereference)
                          | Some (l', effs, Inr conn) \<Rightarrow>
                              Inr (h\<lparr>Layer := Some l'\<rparr>, map Segment effs,
                                   Blocked (ForSynAck conn payload (words ! 1))))))))"

definition SendFile_connected ::
  "'b shell_env \<Rightarrow> 'b Node \<Rightarrow> VTCPConn \<Rightarrow> u8 list \<Rightarrow> string \<Rightarrow> TCPPacket \<Rightarrow> 'b reaction" where
  "SendFile_connected S h conn payload name packet =
     (case Layer h of
        None \<Rightarrow> Inl (Panic NilDereference)
      | Some l \<Rightarrow>
          (case VConnect_synack (node_env S h) l conn packet of
             (l', effs, Inl e) \<Rightarrow> Inl (Panic NilDereference)
           | (l', effs, Inr conn') \<Rightarrow>
               Inr (h\<lparr>Layer := Some l'\<rparr>,
                    map Segment effs @ [StartTask (SendFileOn conn' payload name)], Prompt)))"

text \<open>The goroutine once \<open>VWrite\<close> has returned: it reports and closes; an error of \<open>VClose\<close> is dropped.\<close>

definition SendFile_written ::
  "'b TCPLayer \<Rightarrow> VTCPConn \<Rightarrow> string \<Rightarrow> int res \<Rightarrow> ('b TCPLayer \<times> effect list) res" where
  "SendFile_written l conn name result =
     (let l' = (case VClose l conn of Inl e \<Rightarrow> l | Inr (l', signalled) \<Rightarrow> l')
      in case result of
           Inl e \<Rightarrow> report e (\<lambda>m. (l', [Printed (m @ newline)]))
         | Inr bytesWritten \<Rightarrow>
             Inr (l', [Printed (''Wrote '' @ show_int bytesWritten @ '' bytes from file '' @ name @
                        newline)]))"

definition HandleReceiveFile :: "'b shell_env \<Rightarrow> string list \<Rightarrow> 'b Node \<Rightarrow> 'b reaction" where
  "HandleReceiveFile S words h =
     (let filename = words ! 1
      in case OpenFile S filename of
           Some e \<Rightarrow> report e (\<lambda>m. (h, [Printed (m @ newline)], Prompt))
         | None \<Rightarrow>
             (case Atoi (words ! 2) of
                Inl e \<Rightarrow> report e (\<lambda>m. (h, [Truncated filename, Printed (m @ newline)], Prompt))
              | Inr port \<Rightarrow>
                  (case Layer h of
                     None \<Rightarrow> Inl (Panic NilDereference)
                   | Some l \<Rightarrow>
                       (case VListen l (word_of_int port) of
                          Inl e \<Rightarrow> report e (\<lambda>m. (h, [Truncated filename, Printed (m @ newline)], Prompt))
                        | Inr (l', tcpListener) \<Rightarrow>
                            Inr (h\<lparr>Layer := Some l'\<rparr>,
                                 [Truncated filename, StartTask (ReceiveFileFrom tcpListener filename)],
                                 Prompt)))))"

text \<open>
  The goroutine of \<open>rf\<close>. What \<open>VAccept\<close> returned: an error ends it; no connection and no error,
  which is its answer to a closed listener, panics, as does a connection that is not in the table.
\<close>

definition ReceiveFile_accepted :: "'b TCPLayer \<Rightarrow> VTCPConn option res \<Rightarrow> VTCPConn option res" where
  "ReceiveFile_accepted l result =
     (case result of
        Inl e \<Rightarrow> report e (\<lambda>m. None)
      | Inr None \<Rightarrow> Inl (Panic NilDereference)
      | Inr (Some tcpConn) \<Rightarrow>
          (case GetSocketByConn l tcpConn of
             None \<Rightarrow> Inl (Panic NilDereference)
           | Some tcpSocket \<Rightarrow> Inr (Some tcpConn)))"

definition MaxFileSize :: int where "MaxFileSize = 10000000"

text \<open>
  A turn of its loop. \<open>AtLoop\<close> looks at the state and calls \<open>VRead\<close>, which looks at the state again;
  \<open>InRead\<close> is a \<open>VRead\<close> that waits, and does not look at the state before it reads. \<open>data\<close> is what
  has been read, \<open>buffer[:totalBytesRead]\<close>. The line \<open>rf: \<close> with the error that ends the loop is not kept. The
  source holds a pointer to the socket, the model looks it up: they differ only for a socket that has been
  removed from the table, where a \<open>VRead\<close> that waits ends here.
\<close>

datatype file_mode = AtLoop | InRead | Ended

definition after_read :: "u8 list \<Rightarrow> u8 list res turn \<Rightarrow> file_mode \<times> u8 list" where
  "after_read data r =
     (case r of
        Wait \<Rightarrow> (InRead, data)
      | Done (Inl e) \<Rightarrow> (Ended, data)
      | Done (Inr payload) \<Rightarrow> (AtLoop, data @ payload))"

definition ReceiveFile_turn ::
  "'b tcp_env \<Rightarrow> 'b TCPLayer \<Rightarrow> VTCPConn \<Rightarrow> file_mode \<Rightarrow> u8 list
     \<Rightarrow> 'b TCPLayer \<times> file_mode \<times> u8 list" where
  "ReceiveFile_turn E l tcpConn mode data =
     (case map_of (SocketTable l) tcpConn of
        None \<Rightarrow> (l, Ended, data)
      | Some tcpSocket \<Rightarrow>
          (let room = MaxFileSize - int (length data)
           in case mode of
                AtLoop \<Rightarrow>
                  if ConnState tcpSocket = ESTABLISHED
                  then (case VRead E l tcpConn room of (l', r) \<Rightarrow> (l', after_read data r))
                  else (l, Ended, data)
              | InRead \<Rightarrow>
                  (case VRead_turn E tcpSocket room of
                     (socket', r) \<Rightarrow> (store_socket tcpConn socket' l, after_read data r))
              | Ended \<Rightarrow> (l, Ended, data)))"

text \<open>After the loop: the file is written in one piece, with the result \<open>written\<close>, then the connection
  and the listener are closed. After an error of the write neither is.\<close>

definition ReceiveFile_end ::
  "'b TCPLayer \<Rightarrow> VTCPConn \<Rightarrow> VTCPListener \<Rightarrow> int res \<Rightarrow> ('b TCPLayer \<times> effect list) res" where
  "ReceiveFile_end l tcpConn tcpListener written =
     (case written of
        Inl e \<Rightarrow> report e (\<lambda>m. (l, [Printed (''sender closed connection'' @ newline), Printed (m @ newline)]))
      | Inr totalBytesWritten \<Rightarrow>
          (let closed = (case VClose l tcpConn of
                 Inl e \<Rightarrow> report e (\<lambda>m. (l, [Printed (m @ newline)]))
               | Inr (l', signalled) \<Rightarrow> Inr (l', if signalled then [CloseSignal tcpConn] else []))
           in case closed of
                Inl e \<Rightarrow> Inl e
              | Inr (l1, effs1) \<Rightarrow>
                  (let done_effs = Printed (''sender closed connection'' @ newline) #
                         Printed (''Total bytes written to file: '' @ show_int totalBytesWritten @ newline) #
                         effs1
                   in case VClose_listener l1 tcpListener of
                        Inl e \<Rightarrow> report e (\<lambda>m. (l1, done_effs @ [Printed (m @ newline)]))
                      | Inr l2 \<Rightarrow> Inr (l2, done_effs @ [StopListener tcpListener]))))"

section \<open>Dispatch\<close>

definition HandleInput :: "'b shell_env \<Rightarrow> string \<Rightarrow> bool \<Rightarrow> 'b Node \<Rightarrow> 'b reaction" where
  "HandleInput S command tcpRepl h =
     (let words = go_split CHR '' '' command; n = length words; w = words ! 0
      in if 3 \<le> n \<and> w = ''send'' then HandleSend S words h
         else if n = 1 \<and> w = ''li'' then Inr (h, [Printed (ListInterfaces (Stack h))], Prompt)
         else if n = 1 \<and> w = ''ln''
         then Inr (h, [Printed (ListNeighbors (NeighborOrder S) (Stack h))], Prompt)
         else if n = 1 \<and> w = ''lr''
         then Inr (h, [Printed (ListRoutes (RangeOrder S) (Stack h))], Prompt)
         else if w = ''down''
         then (if n \<noteq> 2
               then Inr (h, [Printed (''Invalid usage. Use 'down <ifname>'' @ [CHR 0x27] @ newline)], Prompt)
               else switched_node h (HandleDownCommand words (Stack h)))
         else if w = ''up''
         then (if n \<noteq> 2
               then Inr (h, [Printed (''Invalid usage. Use 'up <ifname>'' @ [CHR 0x27] @ newline)], Prompt)
               else switched_node h (HandleUpCommand words (Stack h)))
         else if tcpRepl
         then (if n = 3 \<and> w = ''c'' then HandleConnect words h
               else if n = 2 \<and> w = ''a'' then HandleAccept words h
               else if n = 1 \<and> w = ''ls'' then ListSockets S h
               else if 3 \<le> n \<and> w = ''s'' then HandleSendSocket S words h
               else if n = 3 \<and> w = ''r'' then HandleReceiveSocket S words h
               else if n = 2 \<and> w = ''cl'' then HandleClose S words h
               else if n = 4 \<and> w = ''sf'' then HandleSendFile S words h
               else if n = 3 \<and> w = ''rf'' then HandleReceiveFile S words h
               else Inr (h, [], Prompt))
         else Inr (h, [Printed (''Invalid commaind'' @ newline)], Prompt))"

section \<open>What a command can change\<close>

lemma VWrite_loop_frame:
  "VWrite_loop E s rest n = (s', r, rest') \<Longrightarrow> SocketID s' = SocketID s \<and> SConn s' = SConn s"
proof (induction E s rest n rule: VWrite_loop.induct)
  case (1 E s rest n)
  have turn: "SocketID s1 = SocketID s \<and> SConn s1 = SConn s" if "VWrite_turn E s rest = (s1, t)" for s1 t
    using that by (auto simp: VWrite_turn_def split: if_splits prod.splits)
  show ?case
  proof (cases "rest = []")
    case True
    then show ?thesis using "1.prems" by (subst (asm) VWrite_loop.simps) simp
  next
    case False
    obtain s1 t where t: "VWrite_turn E s rest = (s1, t)" by fastforce
    show ?thesis
      using "1.prems" turn [OF t] False t "1.IH" [OF False t [symmetric]]
      by (subst (asm) VWrite_loop.simps) (auto split: turn.splits sum.splits if_splits)
  qed
qed

text \<open>One operation of the layer, or none; the commands on sockets leave the stack alone.\<close>

definition one_layer_op :: "'b shell_env \<Rightarrow> 'b Node \<Rightarrow> 'b Node \<Rightarrow> bool" where
  "one_layer_op S h h' \<longleftrightarrow> Stack h' = Stack h \<and>
     (Layer h' = Layer h \<or>
      (\<exists>l x. Layer h = Some l \<and> Layer h' = Some (layer_step (node_env S h) l x)))"

lemma one_layer_op_refl [simp]: "one_layer_op S h h"
  by (simp add: one_layer_op_def)

lemma one_layer_opI:
  "Layer h = Some l \<Longrightarrow> one_layer_op S h (h\<lparr>Layer := Some l\<rparr>)"
  "Layer h = Some l \<Longrightarrow> one_layer_op S h (h\<lparr>Layer := Some (layer_step (node_env S h) l x)\<rparr>)"
  by (auto simp: one_layer_op_def)

definition socket_change :: "'b TCPLayer \<Rightarrow> 'b TCPLayer \<Rightarrow> bool" where
  "socket_change l l' \<longleftrightarrow> l' = l \<or> (\<exists>c s s'. map_of (SocketTable l) c = Some s \<and>
     SocketID s' = SocketID s \<and> SConn s' = SConn s \<and> l' = store_socket c s' l)"

lemma socket_change_op: "socket_change l l' \<Longrightarrow> l' = l \<or> (\<exists>x. l' = layer_step E l x)"
proof (unfold socket_change_def, elim disjE exE conjE)
  fix c s s'
  assume "map_of (SocketTable l) c = Some s" "SocketID s' = SocketID s" "SConn s' = SConn s"
    "l' = store_socket c s' l"
  then have "l' = layer_step E l (Connection c s')" by simp
  then show ?thesis by blast
qed simp

lemma socket_change_store:
  "map_of (SocketTable l) c = Some s \<Longrightarrow> SocketID s' = SocketID s \<Longrightarrow> SConn s' = SConn s \<Longrightarrow>
   socket_change l (store_socket c s' l)"
  unfolding socket_change_def by blast

lemma socket_change_refl [simp]: "socket_change l l"
  by (simp add: socket_change_def)

lemma VWrite_change: "VWrite E l c data = (l', r, rest) \<Longrightarrow> socket_change l l'"
  by (auto simp: VWrite_def split: option.splits if_splits prod.splits
      dest!: VWrite_loop_frame intro: socket_change_store)

lemma VRead_change: "VRead E l c n = (l', r) \<Longrightarrow> socket_change l l'"
  by (auto simp: VRead_def VRead_turn_def split: option.splits if_splits prod.splits
      intro!: socket_change_store)

lemma VClose_change: "VClose l c = Inr (l', b) \<Longrightarrow> socket_change l l'"
  by (auto simp: VClose_def VClose_socket_def split: option.splits sum.splits TCPState.splits
      intro!: socket_change_store)

lemma VWrite_layer: "VWrite E' l c data = (l', r, rest) \<Longrightarrow> l' = l \<or> (\<exists>x. l' = layer_step E l x)"
  by (rule socket_change_op [OF VWrite_change])

lemma VRead_layer: "VRead E' l c n = (l', r) \<Longrightarrow> l' = l \<or> (\<exists>x. l' = layer_step E l x)"
  by (rule socket_change_op [OF VRead_change])

lemma VClose_layer: "VClose l c = Inr (l', b) \<Longrightarrow> l' = l \<or> (\<exists>x. l' = layer_step E l x)"
  by (rule socket_change_op [OF VClose_change])

lemma VListen_layer: "VListen l port = Inr (l', x) \<Longrightarrow> \<exists>x. l' = layer_step E' l x"
  by (rule exI [of _ "Listen port"]) simp

lemma VClose_listener_layer: "VClose_listener l y = Inr l' \<Longrightarrow> \<exists>x. l' = layer_step E' l x"
  by (rule exI [of _ "CloseListener y"]) simp

lemma VConnect_start_layer: "VConnect_start E rnd isn l ip port = Some (l', r) \<Longrightarrow> \<exists>x. l' = layer_step E l x"
  by (rule exI [of _ "Connect rnd isn ip port"]) simp

lemma report_Inr: "report e k = Inr x \<longleftrightarrow> (\<exists>m. e = Error m \<and> x = k m)"
  by (cases e) (auto simp: report_def)

lemma printing_commands:
  "HandleSend S words h = Inr (h', effs, r) \<Longrightarrow> h' = h"
  "HandleConnect words h = Inr (h', effs, r) \<Longrightarrow> h' = h"
  "ListSockets S h = Inr (h', effs, r) \<Longrightarrow> h' = h"
  by (auto simp: HandleSend_def HandleConnect_def ListSockets_def Let_def report_Inr
      split: sum.splits option.splits)

lemma HandleSendSocket_op: "HandleSendSocket S words h = Inr (h', effs, r) \<Longrightarrow> one_layer_op S h h'"
  by (auto simp: HandleSendSocket_def Let_def report_Inr
      split: sum.splits option.splits prod.splits turn.splits
      dest!: VWrite_layer [where E = "node_env S h"] intro: one_layer_opI)

lemma HandleReceiveSocket_op: "HandleReceiveSocket S words h = Inr (h', effs, r) \<Longrightarrow> one_layer_op S h h'"
  by (auto simp: HandleReceiveSocket_def Let_def report_Inr
      split: sum.splits option.splits prod.splits turn.splits if_splits
      dest!: VRead_layer [where E = "node_env S h"] intro: one_layer_opI)

lemma HandleAccept_op: "HandleAccept words h = Inr (h', effs, r) \<Longrightarrow> one_layer_op S h h'"
  by (auto simp: HandleAccept_def Let_def report_Inr split: sum.splits option.splits
      dest!: VListen_layer [where E' = "node_env S h"] intro: one_layer_opI)

lemma HandleClose_op: "HandleClose S words h = Inr (h', effs, r) \<Longrightarrow> one_layer_op S h h'"
  by (auto simp: HandleClose_def report_Inr split: sum.splits option.splits
      dest!: VClose_layer [where E = "node_env S h"] VClose_listener_layer [where E' = "node_env S h"] intro: one_layer_opI)

lemma HandleSendFile_op: "HandleSendFile S words h = Inr (h', effs, r) \<Longrightarrow> one_layer_op S h h'"
  by (auto simp: HandleSendFile_def report_Inr split: sum.splits option.splits
      dest!: VConnect_start_layer intro: one_layer_opI)

lemma HandleReceiveFile_op: "HandleReceiveFile S words h = Inr (h', effs, r) \<Longrightarrow> one_layer_op S h h'"
  by (auto simp: HandleReceiveFile_def Let_def report_Inr split: sum.splits option.splits
      dest!: VListen_layer [where E' = "node_env S h"] intro: one_layer_opI)

lemmas commands_op = HandleSendSocket_op HandleReceiveSocket_op HandleAccept_op HandleClose_op
  HandleSendFile_op HandleReceiveFile_op

lemma HandleInput_op:
  assumes "HandleInput S command tcpRepl h = Inr (h', effs, r)"
  shows "one_layer_op S h h' \<or>
    (\<exists>name st s'. switch_interface (Stack h) name st = Inr s' \<and> h' = h\<lparr>Stack := s'\<rparr>)"
proof -
  have switch: "\<exists>name st s'. switch_interface (Stack h) name st = Inr s' \<and> h' = h\<lparr>Stack := s'\<rparr>"
    if "switched_node h (HandleDownCommand words (Stack h)) = Inr (h', effs, r) \<or>
        switched_node h (HandleUpCommand words (Stack h)) = Inr (h', effs, r)" for words
    using that
    by (auto simp: switched_node_def HandleDownCommand_def HandleUpCommand_def
        split: sum.splits if_splits)
  show ?thesis
    using assms switch commands_op
    by (auto simp: HandleInput_def Let_def split: if_splits dest: printing_commands)
qed

section \<open>What the commands do\<close>

text \<open>A file that cannot be written leaves its connection and its listener open.\<close>

lemma failed_write_leaves_open:
  "ReceiveFile_end l conn listener (Inl (Error m)) = Inr (l', effs) \<Longrightarrow> l' = l \<and> StopListener listener \<notin> set effs"
  by (auto simp: ReceiveFile_end_def report_def)

text \<open>Closing the listener of a waiting \<open>rf\<close> ends the program.\<close>

lemma closed_listener_crashes: "ReceiveFile_accepted l VAccept_stopped = Inl (Panic NilDereference)"
  by (simp add: ReceiveFile_accepted_def VAccept_stopped_def)

text \<open>\<open>r\<close> with a negative number of bytes ends the program.\<close>

lemma negative_count_panics:
  "go_split CHR '' '' command = [''r'', a, b] \<Longrightarrow> Atoi b = Inr n \<Longrightarrow> n < 0 \<Longrightarrow>
   HandleInput S command True h = Inl (Panic MakeSliceLen)"
  by (simp add: HandleInput_def HandleReceiveSocket_def Let_def)

text \<open>\<open>c\<close> with a port above 65535 connects to another port.\<close>

lemma port_is_cut:
  "ParseAddr a = Inr ip \<Longrightarrow> Atoi p = Inr (port + 65536) \<Longrightarrow>
   HandleConnect [''c'', a, p] h = Inr (h, [StartTask (ConnectTo ip (word_of_int port))], Prompt)"
proof -
  have "(word_of_int (port + 65536) :: u16) = word_of_int port" by simp
  then show "ParseAddr a = Inr ip \<Longrightarrow> Atoi p = Inr (port + 65536) \<Longrightarrow>
   HandleConnect [''c'', a, p] h = Inr (h, [StartTask (ConnectTo ip (word_of_int port))], Prompt)"
    by (simp add: HandleConnect_def)
qed

text \<open>C32: The goroutine of \<open>rf\<close> neither loses nor repeats nor reorders a byte while it runs: what it
  has collected, followed by what is unread, stays the same. But it stops as soon as it finds the
  connection no longer established when it comes back to the head of its loop, whatever is still
  unread then, and what it has collected up to there becomes the file: data that arrived together
  with the FIN are missing from it, unless a \<open>VRead\<close> was already waiting for them.\<close>

theorem receive_file_turn_exact:
  assumes rb: "ringbuffer_ok (RPkg E) okb bytes cap"
    and s: "map_of (SocketTable l) c = Some s" "okb (ReadBuffer s)"
    and room: "int (length data) \<le> MaxFileSize"
    and turn: "ReceiveFile_turn E l c mode data = (l', mode', data')"
  shows "\<exists>s'. map_of (SocketTable l') c = Some s' \<and>
    data' @ bytes (ReadBuffer s') = data @ bytes (ReadBuffer s) \<and> int (length data') \<le> MaxFileSize \<and>
    (mode' = Ended \<longleftrightarrow> mode = Ended \<or> mode = AtLoop \<and> ConnState s \<noteq> ESTABLISHED \<or>
       mode = InRead \<and> bytes (ReadBuffer s) = [] \<and> ConnState s \<noteq> ESTABLISHED) \<and>
    (mode' = Ended \<longrightarrow> data' = data)"
proof -
  let ?n = "MaxFileSize - int (length data)"
  have read: "\<exists>s'. t = s' \<and> snd (after_read data r) @ bytes (ReadBuffer s') = data @ bytes (ReadBuffer s) \<and>
      int (length (snd (after_read data r))) \<le> MaxFileSize \<and>
      (fst (after_read data r) = Ended \<longleftrightarrow> bytes (ReadBuffer s) = [] \<and> ConnState s \<noteq> ESTABLISHED) \<and>
      (fst (after_read data r) = Ended \<longrightarrow> snd (after_read data r) = data)"
    if "VRead_turn E s ?n = (t, r)" for t r
  proof (cases "bytes (ReadBuffer s) = []")
    case True
    then show ?thesis using that ringbuffer_laws(2) [OF rb s(2)] room
      by (auto simp: VRead_turn_def after_read_def split: if_splits)
  next
    case False
    obtain b' out err where r: "rb_Read (RPkg E) (ReadBuffer s) ?n = (b', out, err)"
      by (metis prod_cases3)
    from ringbuffer_read [OF rb s(2) _ r] room False
    have "err = None" "out = take (nat ?n) (bytes (ReadBuffer s))" "bytes b' = drop (nat ?n) (bytes (ReadBuffer s))"
      by simp_all
    then show ?thesis using that ringbuffer_laws(2) [OF rb s(2)] room False r
      by (auto simp: VRead_turn_def after_read_def)
  qed
  show ?thesis
  proof (cases mode)
    case AtLoop
    show ?thesis
    proof (cases "ConnState s = ESTABLISHED")
      case True
      obtain t r where t: "VRead_turn E s ?n = (t, r)" by fastforce
      then have "l' = store_socket c t l" "mode' = fst (after_read data r)" "data' = snd (after_read data r)"
        using turn s(1) True AtLoop
        by (auto simp: ReceiveFile_turn_def Let_def VRead_def less_TCPState_def)
      then show ?thesis using read [OF t] True AtLoop by auto
    next
      case False
      then show ?thesis using turn s(1) AtLoop room by (auto simp: ReceiveFile_turn_def Let_def)
    qed
  next
    case InRead
    obtain t r where t: "VRead_turn E s ?n = (t, r)" by fastforce
    then have "l' = store_socket c t l" "mode' = fst (after_read data r)" "data' = snd (after_read data r)"
      using turn s(1) InRead by (auto simp: ReceiveFile_turn_def Let_def)
    then show ?thesis using read [OF t] InRead by auto
  next
    case Ended
    then show ?thesis using turn s(1) room by (auto simp: ReceiveFile_turn_def Let_def)
  qed
qed

text \<open>A FIN that comes in with unread data: the loop ends and the two bytes are not in the file.\<close>

theorem receive_file_turn_exact_witness:
  "\<exists>l'. ReceiveFile_turn sample_env
     (one_conn (sample_socket\<lparr>ReadBuffer := (65535, [104, 105]), ConnState := CLOSE_WAIT\<rparr>)) sample_conn
     AtLoop [111] = (l', Ended, [111])"
proof -
  let ?s = "sample_socket\<lparr>ReadBuffer := (65535, [104, 105]), ConnState := CLOSE_WAIT\<rparr>"
  obtain l' mode' data' where t: "ReceiveFile_turn sample_env (one_conn ?s) sample_conn AtLoop [111] =
      (l', mode', data')" by (metis prod_cases3)
  have "ringbuffer_ok (RPkg sample_env) (\<lambda>(c, xs). int (length xs) \<le> c) snd fst"
    by (simp add: sample_env_def list_rb_ok)
  from receive_file_turn_exact [OF this _ _ _ t, of ?s] t show ?thesis
    by (auto simp: one_conn_def MaxFileSize_def)
qed

end
