(* ===== verification/LnxParser.thy ===== *)
theory LnxParser
  imports LnxConfig
begin

text \<open>
  The parser of configuration files (\<open>pkg/lnxconfig/lnxconfig.go\<close>): one definition per directive,
  the loop over the lines, and the lines a \<open>bufio.Scanner\<close> cuts a file into.
\<close>

section \<open>Errors\<close>

definition newErrString :: "nat \<Rightarrow> string \<Rightarrow> go_error" where
  "newErrString line msg = Error (''Parse error on line '' @ show_nat line @ '':  '' @ msg)"

primrec newErr :: "nat \<Rightarrow> go_error \<Rightarrow> go_error" where
  "newErr line (Error msg) = newErrString line msg"
| "newErr line (Panic p) = Panic p"

section \<open>Directives\<close>

text \<open>\<open>tokens\<close> are the pieces between single spaces, so two spaces make an empty token. The check
  of \<open>rip originate\<close> reads the first argument only when there are fewer than two.\<close>

definition parseRip :: "nat \<Rightarrow> string \<Rightarrow> IPConfig \<Rightarrow> IPConfig res" where
  "parseRip lno line config =
     (let tokens = go_split CHR '' '' line
      in if length tokens < 2 then Inl (newErrString lno ''Usage:  rip [cmd] ...'')
         else let cmd = tokens ! 1; ripTokens = drop 2 tokens
         in if cmd = ''originate''
            then (case ripTokens of
                    [] \<Rightarrow> Inl (Panic IndexOutOfRange)
                  | [t] \<Rightarrow> if t \<noteq> ''prefix''
                           then Inl (newErrString lno ''Usage:  rip originate prefix <prefix>'')
                           else Inl (Panic IndexOutOfRange)
                  | _ # t # _ \<Rightarrow>
                      (case ParsePrefix t of
                         Inl e \<Rightarrow> Inl (newErr lno e)
                       | Inr ripPrefix \<Rightarrow> addOriginatingPrefix config (Masked ripPrefix)))
            else if cmd = ''advertise-to''
            then (case ripTokens of
                    [] \<Rightarrow> Inl (newErrString lno ''Usage:  rip advertise-to <neighbor IP>'')
                  | t # _ \<Rightarrow>
                      (case ParseAddr t of
                         Inl e \<Rightarrow> Inl (newErr lno e)
                       | Inr addr \<Rightarrow> addRipNeighbor config addr))
            else Inl (newErrString lno (''Unrecognized RIP command '' @ cmd)))"

definition parseRouting :: "nat \<Rightarrow> string \<Rightarrow> IPConfig \<Rightarrow> IPConfig res" where
  "parseRouting lno line config =
     (let tokens = go_split CHR '' '' line
      in if length tokens < 2
         then Inl (newErrString lno ''routing directive must have format:  routing <type>'')
         else let rt = tokens ! 1
         in if rt = ''static'' then Inr (config\<lparr>RoutingMode := RoutingTypeStatic\<rparr>)
            else if rt = ''rip'' then Inr (config\<lparr>RoutingMode := RoutingTypeRIP\<rparr>)
            else Inl (newErrString lno (''Invalid routing type:  '' @ rt)))"

definition parseRoute :: "nat \<Rightarrow> string \<Rightarrow> IPConfig \<Rightarrow> IPConfig res" where
  "parseRoute lno line config =
     (case Fscanf ''route %s via %s'' line of
        Inl e \<Rightarrow> Inl e
      | Inr [sPrefix, sAddr] \<Rightarrow>
          (case ParsePrefix sPrefix of
             Inl e \<Rightarrow> Inl e
           | Inr prefix \<Rightarrow>
               (case ParseAddr sAddr of
                  Inl e \<Rightarrow> Inl e
                | Inr addr \<Rightarrow>
                    Inr (config\<lparr>StaticRoutes := AList.update prefix addr (StaticRoutes config)\<rparr>)))
      | Inr _ \<Rightarrow> Inl (newErrString lno ''route directive must have format  route <prefix> via <addr>''))"

definition parseInterface :: "nat \<Rightarrow> string \<Rightarrow> IPConfig \<Rightarrow> IPConfig res" where
  "parseInterface lno line config =
     (case Fscanf ''interface %s %s %s'' line of
        Inl e \<Rightarrow> Inl e
      | Inr [sName, sPrefix, sBindAddr] \<Rightarrow>
          (case ParsePrefix sPrefix of
             Inl e \<Rightarrow> Inl e
           | Inr prefix \<Rightarrow>
               (let addr = PAddr prefix; prefix' = Masked prefix
                in case ParseAddrPort sBindAddr of
                     Inl e \<Rightarrow> Inl e
                   | Inr addrPort \<Rightarrow>
                       Inr (config\<lparr>Interfaces := Interfaces config @
                         [\<lparr>IC_Name = sName, IC_AssignedIP = addr, IC_AssignedPrefix = prefix',
                           IC_UDPAddr = addrPort\<rparr>]\<rparr>)))
      | Inr _ \<Rightarrow> Inl (newErrString lno
          ''interface directive must have format:  interface <name> <prefix> <bindAddr>''))"

text \<open>For a wrong number of words the source builds an error and drops it, then goes on with empty
  strings, which no address parses; \<open>Fscanf\<close> has reported an error before that.\<close>

definition parseNeighbor :: "nat \<Rightarrow> string \<Rightarrow> IPConfig \<Rightarrow> IPConfig res" where
  "parseNeighbor lno line config =
     (case Fscanf ''neighbor %s at %s via %s'' line of
        Inl e \<Rightarrow> Inl e
      | Inr words \<Rightarrow>
          (let sDestAddr = (case words of w # _ \<Rightarrow> w | _ \<Rightarrow> []);
               sUDPAddr = (case words of _ # w # _ \<Rightarrow> w | _ \<Rightarrow> []);
               sIfName = (case words of _ # _ # w # _ \<Rightarrow> w | _ \<Rightarrow> [])
           in case ParseAddr sDestAddr of
                Inl e \<Rightarrow> Inl e
              | Inr destAddr \<Rightarrow>
                  (case ParseAddrPort sUDPAddr of
                     Inl e \<Rightarrow> Inl e
                   | Inr udpAddr \<Rightarrow>
                       Inr (config\<lparr>Neighbors := Neighbors config @
                         [\<lparr>NC_DestAddr = destAddr, NC_UDPAddr = udpAddr,
                           NC_InterfaceName = sIfName\<rparr>]\<rparr>))))"

definition parseCommands :: "(string \<times> (nat \<Rightarrow> string \<Rightarrow> IPConfig \<Rightarrow> IPConfig res)) list" where
  "parseCommands = [(''interface'', parseInterface), (''neighbor'', parseNeighbor),
     (''routing'', parseRouting), (''route'', parseRoute), (''rip'', parseRip)]"

section \<open>The file\<close>

text \<open>The lines of a \<open>bufio.Scanner\<close>: it ends, without an error the code would look at, at a line of
  more than 65535 bytes, and drops a carriage return at the end of a line.\<close>

definition drop_CR :: "string \<Rightarrow> string" where
  "drop_CR l = (if l \<noteq> [] \<and> last l = CHR 0x0D then butlast l else l)"

definition scan_lines :: "string \<Rightarrow> string list" where
  "scan_lines text =
     (let pieces = go_split CHR 0x0A text;
          ls = (if last pieces = [] then butlast pieces else pieces)
      in map drop_CR (takeWhile (\<lambda>l. length l < 65536) ls))"

definition parse_line :: "nat \<Rightarrow> string \<Rightarrow> IPConfig \<Rightarrow> IPConfig res" where
  "parse_line lno line config =
     (let head = hd (go_split CHR '' '' line)
      in if length head = 0 \<or> hd head = CHR ''#'' then Inr config
         else case map_of parseCommands head of
                None \<Rightarrow> Inl (newErrString lno (''Unrecognized token '' @ head))
              | Some pf \<Rightarrow>
                  (case pf lno line config of
                     Inl e \<Rightarrow> Inl (newErr lno e)
                   | Inr config' \<Rightarrow> Inr config'))"

fun parse_lines :: "nat \<Rightarrow> string list \<Rightarrow> IPConfig \<Rightarrow> IPConfig res" where
  "parse_lines lno [] config = Inr config"
| "parse_lines lno (line # ls) config =
     (case parse_line (lno + 1) line config of
        Inl e \<Rightarrow> Inl e
      | Inr config' \<Rightarrow> parse_lines (lno + 1) ls config')"

definition empty_config :: IPConfig where
  "empty_config = \<lparr>Interfaces = [], Neighbors = [], OriginatingPrefixes = [],
     RoutingMode = RoutingTypeNone, RipNeighbors = [], StaticRoutes = []\<rparr>"

text \<open>The argument is the content of the file, if it can be opened.\<close>

definition ParseConfig :: "string option \<Rightarrow> IPConfig res" where
  "ParseConfig file =
     (case file of
        None \<Rightarrow> Inl (Error ''Unable to open file'')
      | Some text \<Rightarrow> parse_lines 0 (scan_lines text) empty_config)"

section \<open>Errors that are no panics\<close>

lemma ParseAddr_no_panic [simp]: "ParseAddr s \<noteq> Inl (Panic p)"
  by (simp add: ParseAddr_def split: list.split option.split)

lemma ParsePrefix_no_panic [simp]: "ParsePrefix s \<noteq> Inl (Panic p)"
  by (auto simp: ParsePrefix_def split: option.split sum.split)

lemma ParseAddrPort_no_panic [simp]: "ParseAddrPort s \<noteq> Inl (Panic p)"
  by (auto simp: ParseAddrPort_def split: option.split sum.split)

lemma Fscanf_no_panic [simp]: "Fscanf format inp \<noteq> Inl (Panic p)"
proof (induction format inp rule: Fscanf.induct)
  case (2 f format inp)
  show ?case
  proof (cases "f = CHR ''%'' \<and> format \<noteq> [] \<and> hd format = CHR ''s''")
    case True
    then show ?thesis using 2(1) by (auto simp: Fscanf.simps(2) Let_def split: sum.split)
  next
    case False
    then show ?thesis using 2(2-) by (auto simp: Fscanf.simps(2) split: list.split)
  qed
qed simp

lemma add_no_panic [simp]:
  "addOriginatingPrefix c q \<noteq> Inl (Panic p)" "addRipNeighbor c a \<noteq> Inl (Panic p)"
  by (simp_all add: addOriginatingPrefix_def addOriginatingPrefix_loop_eq addRipNeighbor_def
      addRipNeighbor_loop_eq)

lemma newErr_panic [simp]: "newErr lno e = Panic p \<longleftrightarrow> e = Panic p"
  by (cases e) (simp_all add: newErrString_def)

lemma newErr_case_panic [simp]:
  "(case r of Inl e \<Rightarrow> Inl (newErr lno e) | Inr x \<Rightarrow> Inr x) = Inl (Panic p) \<longleftrightarrow> r = Inl (Panic p)"
  by (cases r) simp_all

lemma newErrString_no_panic [simp]: "newErrString lno m \<noteq> Panic p"
  by (simp add: newErrString_def)

lemma parse_no_panic [simp]:
  "parseRouting lno line c \<noteq> Inl (Panic p)" "parseRoute lno line c \<noteq> Inl (Panic p)"
  "parseInterface lno line c \<noteq> Inl (Panic p)" "parseNeighbor lno line c \<noteq> Inl (Panic p)"
  by (auto simp: parseRouting_def parseRoute_def parseInterface_def parseNeighbor_def Let_def
      split: sum.split list.split)

lemma parseRip_panics:
  "parseRip lno line c = Inl (Panic p) \<longleftrightarrow> p = IndexOutOfRange \<and>
     (tl (go_split CHR '' '' line) = [''originate''] \<or>
      tl (go_split CHR '' '' line) = [''originate'', ''prefix''])"
proof -
  obtain h ts where split: "go_split CHR '' '' line = h # ts"
    by (cases "go_split CHR '' '' line") simp_all
  consider "ts = []" | cmd where "ts = [cmd]" | cmd a where "ts = [cmd, a]"
    | cmd a b us where "ts = cmd # a # b # us" by (metis list.exhaust)
  then show ?thesis
    by cases (auto simp: parseRip_def Let_def split split: sum.split)
qed

text \<open>C40: The parser panics on exactly two kinds of line, \<open>rip originate\<close> and \<open>rip originate prefix\<close>
  with nothing after it, where the check of the arguments reads past the end of the slice. What is
  the matter with any other line, if anything is, the parser does not panic on it.\<close>

theorem parser_panics_iff:
  "parse_line lno line c = Inl (Panic p) \<longleftrightarrow> p = IndexOutOfRange \<and>
     (go_split CHR '' '' line = [''rip'', ''originate''] \<or>
      go_split CHR '' '' line = [''rip'', ''originate'', ''prefix''])"
proof -
  obtain h ts where split: "go_split CHR '' '' line = h # ts"
    by (cases "go_split CHR '' '' line") simp_all
  consider "h = [] \<or> hd h = CHR ''#''" | "h \<noteq> []" "hd h \<noteq> CHR ''#''" "h = ''rip''"
    | "h \<noteq> []" "hd h \<noteq> CHR ''#''" "h \<noteq> ''rip''" by blast
  then show ?thesis
  proof cases
    case 1
    then show ?thesis by (auto simp: parse_line_def split)
  next
    case 2
    then have "parse_line lno line c = Inl (Panic p) \<longleftrightarrow> parseRip lno line c = Inl (Panic p)"
      by (auto simp: parse_line_def split parseCommands_def split: sum.split)
    then show ?thesis using 2(3) by (simp add: parseRip_panics split)
  next
    case 3
    have "map_of parseCommands h \<in> {None, Some parseInterface, Some parseNeighbor,
        Some parseRouting, Some parseRoute}"
      using 3(3) by (simp add: parseCommands_def)
    then have "parse_line lno line c \<noteq> Inl (Panic p)"
      using 3 by (auto simp: parse_line_def split)
    then show ?thesis using 3(3) by (simp add: split)
  qed
qed

section \<open>What a parsed configuration guarantees\<close>

definition interface_ok :: "InterfaceConfig \<Rightarrow> bool" where
  "interface_ok i \<longleftrightarrow> Bits (IC_AssignedPrefix i) \<le> 32 \<and>
     Masked (IC_AssignedPrefix i) = IC_AssignedPrefix i \<and>
     Contains (IC_AssignedPrefix i) (IC_AssignedIP i)"

definition parsed_ok :: "IPConfig \<Rightarrow> bool" where
  "parsed_ok c \<longleftrightarrow> config_ok c \<and> (\<forall>i \<in> set (Interfaces c). interface_ok i) \<and>
     distinct (map fst (StaticRoutes c)) \<and> (\<forall>x \<in> set (StaticRoutes c). Bits (fst x) \<le> 32)"

lemma ParsePrefix_Bits: "ParsePrefix s = Inr p \<Longrightarrow> Bits p \<le> 32"
  by (auto simp: ParsePrefix_def split: option.splits sum.splits if_splits)

lemma addOriginatingPrefix_parsed_ok:
  "parsed_ok c \<Longrightarrow> addOriginatingPrefix c p = Inr c' \<Longrightarrow> parsed_ok c'"
  using addOriginatingPrefix_config_ok [of c p c']
  by (auto simp: addOriginatingPrefix_def addOriginatingPrefix_loop_eq parsed_ok_def split: if_splits)

lemma addRipNeighbor_parsed_ok:
  "parsed_ok c \<Longrightarrow> addRipNeighbor c a = Inr c' \<Longrightarrow> parsed_ok c'"
  using addRipNeighbor_config_ok [of c a c']
  by (auto simp: addRipNeighbor_def addRipNeighbor_loop_eq parsed_ok_def split: if_splits)

lemma parseRip_parsed_ok: "parsed_ok c \<Longrightarrow> parseRip lno line c = Inr c' \<Longrightarrow> parsed_ok c'"
  unfolding parseRip_def Let_def
  by (auto split: if_splits list.splits sum.splits
      intro: addOriginatingPrefix_parsed_ok addRipNeighbor_parsed_ok)

lemma parseRouting_parsed_ok: "parsed_ok c \<Longrightarrow> parseRouting lno line c = Inr c' \<Longrightarrow> parsed_ok c'"
  by (auto simp: parseRouting_def Let_def parsed_ok_def config_ok_def split: if_splits)

lemma set_update_subset: "set (AList.update k v xs) \<subseteq> insert (k, v) (set xs)"
  by (induction xs) auto

lemma parseRoute_parsed_ok:
  assumes ok: "parsed_ok c" and p: "parseRoute lno line c = Inr c'"
  shows "parsed_ok c'"
proof -
  obtain prefix addr s where P: "ParsePrefix s = Inr prefix"
    and c': "c' = c\<lparr>StaticRoutes := AList.update prefix addr (StaticRoutes c)\<rparr>"
    using p by (auto simp: parseRoute_def split: sum.splits list.splits)
  have "Bits (fst x) \<le> 32" if "x \<in> set (AList.update prefix addr (StaticRoutes c))" for x
    using set_update_subset [THEN subsetD, OF that] ok ParsePrefix_Bits [OF P]
    by (auto simp: parsed_ok_def)
  then show ?thesis using ok by (simp add: c' parsed_ok_def config_ok_def distinct_update)
qed

lemma parseInterface_parsed_ok:
  assumes ok: "parsed_ok c" and p: "parseInterface lno line c = Inr c'"
  shows "parsed_ok c'"
proof -
  obtain prefix w x y where P: "ParsePrefix w = Inr prefix"
    and c': "c' = c\<lparr>Interfaces := Interfaces c @ [\<lparr>IC_Name = x, IC_AssignedIP = PAddr prefix,
      IC_AssignedPrefix = Masked prefix, IC_UDPAddr = y\<rparr>]\<rparr>"
    using p by (auto simp: parseInterface_def Let_def split: sum.splits list.splits)
  show ?thesis using ok ParsePrefix_Bits [OF P]
    by (auto simp: c' parsed_ok_def config_ok_def interface_ok_def)
qed

lemma parseNeighbor_parsed_ok: "parsed_ok c \<Longrightarrow> parseNeighbor lno line c = Inr c' \<Longrightarrow> parsed_ok c'"
  by (auto simp: parseNeighbor_def parsed_ok_def config_ok_def Let_def split: sum.splits)

lemma parse_line_parsed_ok: "parsed_ok c \<Longrightarrow> parse_line lno line c = Inr c' \<Longrightarrow> parsed_ok c'"
  by (auto simp: parse_line_def parseCommands_def Let_def split: if_splits sum.splits option.splits
      dest: parseRip_parsed_ok parseRouting_parsed_ok parseRoute_parsed_ok parseInterface_parsed_ok
        parseNeighbor_parsed_ok)

lemma parse_lines_parsed_ok: "parse_lines lno ls c = Inr c' \<Longrightarrow> parsed_ok c \<Longrightarrow> parsed_ok c'"
  by (induction lno ls c rule: parse_lines.induct)
    (auto split: sum.splits dest: parse_line_parsed_ok)

lemma parsed_ok_empty: "parsed_ok empty_config"
  by (simp add: parsed_ok_def config_ok_def empty_config_def)

text \<open>C26: A configuration the parser returns is well formed: every interface's address is in its
  prefix, which has no host bits and at most 32 bits; a prefix has one static route; an originated
  prefix is one of the interfaces', and a RIP neighbor is one of the configured neighbors.\<close>

theorem parsed_config_well_formed:
  assumes "ParseConfig file = Inr c"
  shows "(\<forall>i \<in> set (Interfaces c). Contains (IC_AssignedPrefix i) (IC_AssignedIP i) \<and>
            Masked (IC_AssignedPrefix i) = IC_AssignedPrefix i \<and> Bits (IC_AssignedPrefix i) \<le> 32) \<and>
         distinct (map fst (StaticRoutes c)) \<and>
         set (OriginatingPrefixes c) \<subseteq> IC_AssignedPrefix ` set (Interfaces c) \<and>
         set (RipNeighbors c) \<subseteq> NC_DestAddr ` set (Neighbors c)"
proof -
  have "parsed_ok c"
    using assms parse_lines_parsed_ok [OF _ parsed_ok_empty]
    by (auto simp: ParseConfig_def split: option.splits)
  then show ?thesis by (force simp: parsed_ok_def interface_ok_def config_ok_def)
qed

section \<open>Printing a configuration\<close>

definition interface_line :: "InterfaceConfig \<Rightarrow> string" where
  "interface_line i = ''interface '' @ IC_Name i @ '' '' @
     show_prefix \<lparr>PAddr = IC_AssignedIP i, Bits = Bits (IC_AssignedPrefix i)\<rparr> @ '' '' @
     show_addrport (IC_UDPAddr i)"

definition neighbor_line :: "NeighborConfig \<Rightarrow> string" where
  "neighbor_line n = ''neighbor '' @ show_addr (NC_DestAddr n) @ '' at '' @
     show_addrport (NC_UDPAddr n) @ '' via '' @ NC_InterfaceName n"

definition route_line :: "Prefix \<times> Addr \<Rightarrow> string" where
  "route_line r = ''route '' @ show_prefix (fst r) @ '' via '' @ show_addr (snd r)"

definition originate_line :: "Prefix \<Rightarrow> string" where
  "originate_line p = ''rip originate prefix '' @ show_prefix p"

definition advertise_line :: "Addr \<Rightarrow> string" where
  "advertise_line a = ''rip advertise-to '' @ show_addr a"

definition routing_lines :: "RoutingMode \<Rightarrow> string list" where
  "routing_lines m = (case m of RoutingTypeNone \<Rightarrow> [] | RoutingTypeStatic \<Rightarrow> [''routing static'']
     | RoutingTypeRIP \<Rightarrow> [''routing rip''])"

definition config_lines :: "IPConfig \<Rightarrow> string list" where
  "config_lines c = map interface_line (Interfaces c) @ map neighbor_line (Neighbors c) @
     map originate_line (OriginatingPrefixes c) @ routing_lines (RoutingMode c) @
     map advertise_line (RipNeighbors c) @ map route_line (StaticRoutes c)"

definition config_text :: "IPConfig \<Rightarrow> string" where
  "config_text c = concat (map (\<lambda>l. l @ [CHR 0x0A]) (config_lines c))"

text \<open>What a file can hold: a parsed configuration whose names are words, short enough that no line is
  longer than the scanner takes.\<close>

definition name_ok :: "string \<Rightarrow> bool" where
  "name_ok n \<longleftrightarrow> word_ok n \<and> length n < 65000"

definition printable :: "IPConfig \<Rightarrow> bool" where
  "printable c \<longleftrightarrow> parsed_ok c \<and> (\<forall>i \<in> set (Interfaces c). name_ok (IC_Name i)) \<and>
     (\<forall>n \<in> set (Neighbors c). name_ok (NC_InterfaceName n))"

subsection \<open>The lines are cut again\<close>

definition line_ok :: "string \<Rightarrow> bool" where
  "line_ok l \<longleftrightarrow> length l < 65536 \<and> CHR 0x0A \<notin> set l \<and> CHR 0x0D \<notin> set l"

lemma scan_lines_unlines:
  assumes "\<forall>l \<in> set ls. line_ok l"
  shows "scan_lines (concat (map (\<lambda>l. l @ [CHR 0x0A]) ls)) = ls"
proof -
  have split: "go_split CHR 0x0A (concat (map (\<lambda>l. l @ [CHR 0x0A]) ls)) = ls @ [[]]"
    using assms by (induction ls) (auto simp: go_split_cut line_ok_def)
  have short: "takeWhile (\<lambda>l. length l < 65536) ls = ls"
    using assms by (auto simp: takeWhile_eq_all_conv line_ok_def)
  have cr: "map drop_CR ls = ls"
    using assms by (intro map_idI) (metis drop_CR_def last_in_set line_ok_def)
  show ?thesis by (simp add: scan_lines_def Let_def split short cr)
qed

text \<open>A line longer than the scanner takes ends the parse without an error: what follows is not read.\<close>

lemma long_line_ends_parse:
  assumes "\<forall>l \<in> set ls. line_ok l" "CHR 0x0A \<notin> set long" "65536 \<le> length long"
  shows "ParseConfig (Some (concat (map (\<lambda>l. l @ [CHR 0x0A]) ls) @ long @ CHR 0x0A # rest)) =
    parse_lines 0 ls empty_config"
proof -
  have split: "go_split CHR 0x0A (concat (map (\<lambda>l. l @ [CHR 0x0A]) ls) @ long @ CHR 0x0A # rest) =
      ls @ long # go_split CHR 0x0A rest"
    using assms(1,2) by (induction ls) (auto simp: go_split_cut line_ok_def)
  have short: "takeWhile (\<lambda>l. length l < 65536) (ls @ long # xs) = ls" for xs
    using assms(1,3) by (subst takeWhile_append2) (auto simp: line_ok_def)
  have cr: "map drop_CR ls = ls"
    using assms(1) by (intro map_idI) (metis drop_CR_def last_in_set line_ok_def)
  show ?thesis by (simp add: ParseConfig_def scan_lines_def Let_def split short cr butlast_append)
qed

lemma word_ok_chars: "word_ok w \<Longrightarrow> CHR 0x0A \<notin> set w \<and> CHR 0x0D \<notin> set w \<and> CHR '' '' \<notin> set w"
  by (auto simp: word_ok_def list_all_iff is_space_def)

lemma length_show_nat: "n < 10 ^ Suc k \<Longrightarrow> length (show_nat n) \<le> Suc k"
proof (induction k arbitrary: n)
  case 0
  then show ?case by (subst show_nat.simps) simp
next
  case (Suc k)
  then have "length (show_nat (n div 10)) \<le> Suc k" by (intro Suc.IH) (simp add: less_mult_imp_div_less)
  then show ?case by (subst show_nat.simps) simp
qed

lemma length_show_addr: "length (show_addr a) \<le> 15"
proof -
  have "length (show_nat n) \<le> 3" if "n \<in> set (octets a)" for n
    using octets_bound [OF that] length_show_nat [of n 2] by simp
  then have "\<forall>n \<in> set (octets a). length (show_nat n) \<le> 3" by blast
  then show ?thesis by (simp add: show_addr_def octets_def)
qed

lemma length_show_prefix: "Bits p \<le> 32 \<Longrightarrow> length (show_prefix p) \<le> 18"
  using length_show_addr [of "PAddr p"] length_show_nat [of "Bits p" 1] by (simp add: show_prefix_def)

lemma length_show_addrport: "length (show_addrport a) \<le> 21"
proof -
  have "unat (udp_port a) < 2 ^ 16" using unsigned_less [where 'a = nat, of "udp_port a"] by simp
  then show ?thesis
    using length_show_addr [of "udp_addr a"] length_show_nat [of "unat (udp_port a)" 4]
    by (simp add: show_addrport_def)
qed

lemmas line_pieces = word_ok_chars [OF word_ok_shows(1)] word_ok_chars [OF word_ok_shows(2)]
  word_ok_chars [OF word_ok_shows(3)]

lemma line_ok_lines:
  assumes "printable c" "l \<in> set (config_lines c)"
  shows "line_ok l"
proof -
  have i: "line_ok (interface_line i)" if "i \<in> set (Interfaces c)" for i
    using that assms(1) length_show_addrport [of "IC_UDPAddr i"] word_ok_chars [of "IC_Name i"]
      length_show_prefix [of "\<lparr>PAddr = IC_AssignedIP i, Bits = Bits (IC_AssignedPrefix i)\<rparr>"]
    by (auto simp: interface_line_def line_ok_def line_pieces printable_def name_ok_def parsed_ok_def
        interface_ok_def)
  have n: "line_ok (neighbor_line n)" if "n \<in> set (Neighbors c)" for n
    using that assms(1) length_show_addrport [of "NC_UDPAddr n"] length_show_addr [of "NC_DestAddr n"]
      word_ok_chars [of "NC_InterfaceName n"]
    by (auto simp: neighbor_line_def line_ok_def line_pieces printable_def name_ok_def)
  have r: "line_ok (route_line r)" if "r \<in> set (StaticRoutes c)" for r
    using that assms(1) length_show_prefix [of "fst r"] length_show_addr [of "snd r"]
    by (auto simp: route_line_def line_ok_def line_pieces printable_def parsed_ok_def)
  have o: "line_ok (originate_line p)" if "p \<in> set (OriginatingPrefixes c)" for p
  proof -
    have "Bits p \<le> 32" using that assms(1)
      by (auto simp: printable_def parsed_ok_def config_ok_def interface_ok_def)
    from length_show_prefix [OF this] show ?thesis by (auto simp: originate_line_def line_ok_def line_pieces)
  qed
  have a: "line_ok (advertise_line a)" for a
    using length_show_addr [of a] by (auto simp: advertise_line_def line_ok_def line_pieces)
  have m: "line_ok l" if "l \<in> set (routing_lines m)" for m
    using that by (auto simp: routing_lines_def line_ok_def split: RoutingMode.splits)
  show ?thesis using assms(2) i n r o a m by (auto simp: config_lines_def)
qed

subsection \<open>Every line is read back\<close>

lemma parse_line_directive:
  "CHR '' '' \<notin> set h \<Longrightarrow> h \<noteq> [] \<Longrightarrow> hd h \<noteq> CHR ''#'' \<Longrightarrow> map_of parseCommands h = Some pf \<Longrightarrow>
   pf lno (h @ CHR '' '' # rest) c = Inr c' \<Longrightarrow> parse_line lno (h @ CHR '' '' # rest) c = Inr c'"
  by (simp add: parse_line_def go_split_cut)

lemma Fscanf_literal:
  "f \<noteq> CHR ''%'' \<Longrightarrow> \<not> is_space f \<Longrightarrow> Fscanf (f # format) (f # inp) = Fscanf format inp"
  by (simp add: Fscanf.simps(2))

lemma Fscanf_space: "Fscanf (CHR '' '' # format) (CHR '' '' # inp) = Fscanf format (dropWhile is_space inp)"
  by (simp add: Fscanf.simps(2) is_space_def)

lemma dropWhile_word: "word_ok w \<Longrightarrow> dropWhile is_space (w @ rest) = w @ rest"
  by (cases w) (simp_all add: word_ok_def)

lemma is_space_chars:
  "is_space CHR '' ''" "\<not> is_space CHR ''i''" "\<not> is_space CHR ''n''" "\<not> is_space CHR ''t''"
  "\<not> is_space CHR ''e''" "\<not> is_space CHR ''r''" "\<not> is_space CHR ''f''" "\<not> is_space CHR ''a''"
  "\<not> is_space CHR ''c''" "\<not> is_space CHR ''g''" "\<not> is_space CHR ''h''" "\<not> is_space CHR ''b''"
  "\<not> is_space CHR ''o''" "\<not> is_space CHR ''v''" "\<not> is_space CHR ''u''"
  by (simp_all add: is_space_def)

lemma dropWhile_last_word: "word_ok w \<Longrightarrow> dropWhile is_space w = w"
  using dropWhile_word [of w "[]"] by simp

lemma Fscanf_last_word: "word_ok w \<Longrightarrow> Fscanf ''%s'' w = Inr [w]"
  using Fscanf_word [of w "[]" "[]"] by simp

lemmas Fscanf_rules = Fscanf_literal Fscanf_space dropWhile_word dropWhile_last_word is_space_chars Fscanf_word
  Fscanf_last_word

lemma Masked_contained:
  assumes "Contains q a" "Masked q = q"
  shows "Masked \<lparr>PAddr = a, Bits = Bits q\<rparr> = q"
proof -
  have "a AND CIDRMask (Bits q) = PAddr q AND CIDRMask (Bits q)"
    using assms(1) by (intro bit_word_eqI) (auto simp: Contains_iff bit_simps bit_CIDRMask)
  also have "\<dots> = PAddr q" using assms(2) by (metis Masked_def Prefix.select_convs(1) Prefix.surjective Prefix.update_convs(1))
  finally show ?thesis by (simp add: Masked_def)
qed

lemma parse_interface_line:
  assumes "interface_ok i" "name_ok (IC_Name i)"
  shows "parse_line lno (interface_line i) c = Inr (c\<lparr>Interfaces := Interfaces c @ [i]\<rparr>)"
proof -
  define p where "p = \<lparr>PAddr = IC_AssignedIP i, Bits = Bits (IC_AssignedPrefix i)\<rparr>"
  have "Masked p = IC_AssignedPrefix i"
    using assms(1) Masked_contained by (simp add: interface_ok_def p_def)
  moreover have "Bits p \<le> 32" using assms(1) by (simp add: p_def interface_ok_def)
  moreover have "Fscanf ''interface %s %s %s'' (interface_line i) =
      Inr [IC_Name i, show_prefix p, show_addrport (IC_UDPAddr i)]"
    using assms(2) by (simp add: interface_line_def p_def [symmetric] Fscanf_rules name_ok_def)
  ultimately have "parseInterface lno (interface_line i) c = Inr (c\<lparr>Interfaces := Interfaces c @ [i]\<rparr>)"
    by (simp add: parseInterface_def Let_def) (simp add: p_def)
  then show ?thesis
    using parse_line_directive [of "''interface''" parseInterface lno "tl (dropWhile (\<lambda>x. x \<noteq> CHR '' '') (interface_line i))" c]
    by (simp add: parseCommands_def interface_line_def)
qed

lemma parse_neighbor_line:
  assumes "name_ok (NC_InterfaceName n)"
  shows "parse_line lno (neighbor_line n) c = Inr (c\<lparr>Neighbors := Neighbors c @ [n]\<rparr>)"
proof -
  have "Fscanf ''neighbor %s at %s via %s'' (neighbor_line n) =
      Inr [show_addr (NC_DestAddr n), show_addrport (NC_UDPAddr n), NC_InterfaceName n]"
    using assms by (simp add: neighbor_line_def Fscanf_rules name_ok_def)
  then have "parseNeighbor lno (neighbor_line n) c = Inr (c\<lparr>Neighbors := Neighbors c @ [n]\<rparr>)"
    by (simp add: parseNeighbor_def Let_def)
  then show ?thesis
    using parse_line_directive [of "''neighbor''" parseNeighbor lno "tl (dropWhile (\<lambda>x. x \<noteq> CHR '' '') (neighbor_line n))" c]
    by (simp add: parseCommands_def neighbor_line_def)
qed

lemma parse_route_line:
  assumes "Bits (fst r) \<le> 32"
  shows "parse_line lno (route_line r) c =
    Inr (c\<lparr>StaticRoutes := AList.update (fst r) (snd r) (StaticRoutes c)\<rparr>)"
proof -
  have "Fscanf ''route %s via %s'' (route_line r) = Inr [show_prefix (fst r), show_addr (snd r)]"
    by (simp add: route_line_def Fscanf_rules)
  then have "parseRoute lno (route_line r) c =
      Inr (c\<lparr>StaticRoutes := AList.update (fst r) (snd r) (StaticRoutes c)\<rparr>)"
    using assms by (simp add: parseRoute_def)
  then show ?thesis
    using parse_line_directive [of "''route''" parseRoute lno "tl (dropWhile (\<lambda>x. x \<noteq> CHR '' '') (route_line r))" c]
    by (simp add: parseCommands_def route_line_def)
qed

lemma parse_originate_line:
  assumes "Bits p \<le> 32" "Masked p = p" "\<exists>i \<in> set (Interfaces c). IC_AssignedPrefix i = p"
  shows "parse_line lno (originate_line p) c =
    Inr (c\<lparr>OriginatingPrefixes := OriginatingPrefixes c @ [p]\<rparr>)"
proof -
  have "go_split CHR '' '' (originate_line p) = [''rip'', ''originate'', ''prefix'', show_prefix p]"
    using go_split_single line_pieces by (simp add: originate_line_def)
  then show ?thesis using assms
    by (simp add: parse_line_def parseCommands_def parseRip_def Let_def addOriginatingPrefix_def
        addOriginatingPrefix_loop_eq)
qed

lemma parse_advertise_line:
  assumes "\<exists>n \<in> set (Neighbors c). NC_DestAddr n = a"
  shows "parse_line lno (advertise_line a) c = Inr (c\<lparr>RipNeighbors := RipNeighbors c @ [a]\<rparr>)"
proof -
  have "go_split CHR '' '' (advertise_line a) = [''rip'', ''advertise-to'', show_addr a]"
    using go_split_single line_pieces by (simp add: advertise_line_def)
  then show ?thesis using assms
    by (simp add: parse_line_def parseCommands_def parseRip_def Let_def addRipNeighbor_def
        addRipNeighbor_loop_eq)
qed

lemma parse_routing_lines:
  "RoutingMode c = RoutingTypeNone \<Longrightarrow>
   parse_lines lno (routing_lines m) c = Inr (c\<lparr>RoutingMode := m\<rparr>)"
  by (cases m) (simp_all add: routing_lines_def parse_line_def parseCommands_def parseRouting_def Let_def)

subsection \<open>The file is read back\<close>

lemma parse_lines_append:
  "parse_lines lno (ls @ ms) c =
     (case parse_lines lno ls c of Inl e \<Rightarrow> Inl e | Inr c' \<Rightarrow> parse_lines (lno + length ls) ms c')"
  by (induction lno ls c rule: parse_lines.induct) (auto split: sum.split)

lemma parse_interface_lines:
  "\<forall>i \<in> set is. interface_ok i \<and> name_ok (IC_Name i) \<Longrightarrow>
   parse_lines lno (map interface_line is) c = Inr (c\<lparr>Interfaces := Interfaces c @ is\<rparr>)"
  by (induction "is" arbitrary: lno c) (simp_all add: parse_interface_line)

lemma parse_neighbor_lines:
  "\<forall>n \<in> set ns. name_ok (NC_InterfaceName n) \<Longrightarrow>
   parse_lines lno (map neighbor_line ns) c = Inr (c\<lparr>Neighbors := Neighbors c @ ns\<rparr>)"
  by (induction ns arbitrary: lno c) (simp_all add: parse_neighbor_line)

lemma parse_originate_lines:
  "\<forall>p \<in> set ps. Bits p \<le> 32 \<and> Masked p = p \<and> (\<exists>i \<in> set (Interfaces c). IC_AssignedPrefix i = p) \<Longrightarrow>
   parse_lines lno (map originate_line ps) c = Inr (c\<lparr>OriginatingPrefixes := OriginatingPrefixes c @ ps\<rparr>)"
  by (induction ps arbitrary: lno c) (simp_all add: parse_originate_line)

lemma parse_advertise_lines:
  "\<forall>a \<in> set as. \<exists>n \<in> set (Neighbors c). NC_DestAddr n = a \<Longrightarrow>
   parse_lines lno (map advertise_line as) c = Inr (c\<lparr>RipNeighbors := RipNeighbors c @ as\<rparr>)"
  by (induction "as" arbitrary: lno c) (simp_all add: parse_advertise_line)

lemma update_new: "k \<notin> fst ` set xs \<Longrightarrow> AList.update k v xs = xs @ [(k, v)]"
  by (induction xs) auto

lemma parse_route_lines:
  "\<forall>r \<in> set rs. Bits (fst r) \<le> 32 \<Longrightarrow> distinct (map fst (StaticRoutes c @ rs)) \<Longrightarrow>
   parse_lines lno (map route_line rs) c = Inr (c\<lparr>StaticRoutes := StaticRoutes c @ rs\<rparr>)"
proof (induction rs arbitrary: lno c)
  case (Cons r rs)
  have "AList.update (fst r) (snd r) (StaticRoutes c) = StaticRoutes c @ [r]"
    using Cons.prems(2) by (simp add: update_new)
  then show ?case using Cons by (simp add: parse_route_line)
qed simp

lemma parse_printed:
  assumes "printable c"
  shows "ParseConfig (Some (config_text c)) = Inr c"
proof -
  have ok: "parsed_ok c" and names: "\<forall>i \<in> set (Interfaces c). interface_ok i \<and> name_ok (IC_Name i)"
    "\<forall>n \<in> set (Neighbors c). name_ok (NC_InterfaceName n)"
    using assms by (auto simp: printable_def parsed_ok_def)
  have "scan_lines (config_text c) = config_lines c"
    unfolding config_text_def using line_ok_lines [OF assms] by (intro scan_lines_unlines) blast
  moreover have "\<forall>p \<in> set (OriginatingPrefixes c). Bits p \<le> 32 \<and> Masked p = p \<and>
      (\<exists>i \<in> set (Interfaces c). IC_AssignedPrefix i = p)"
    using ok by (auto simp: parsed_ok_def config_ok_def interface_ok_def)
  ultimately show ?thesis using ok names
    by (simp add: ParseConfig_def config_lines_def parse_lines_append parse_interface_lines
        parse_neighbor_lines parse_originate_lines parse_routing_lines parse_advertise_lines
        parse_route_lines empty_config_def parsed_ok_def config_ok_def)
qed

text \<open>C25: Printing a well-formed configuration as a file and parsing the file gives the configuration
  back: every interface, neighbor, originated prefix, RIP neighbor, static route and the routing mode,
  in their order.\<close>

theorem config_round_trip:
  assumes "printable c"
  shows "ParseConfig (Some (config_text c)) = Inr c"
  by (rule parse_printed [OF assms])

text \<open>The configuration of one host of a network of the repository.\<close>

definition sample_config :: IPConfig where
  "sample_config =
     \<lparr>Interfaces = [\<lparr>IC_Name = ''if0'', IC_AssignedIP = 0x0A000001,
        IC_AssignedPrefix = \<lparr>PAddr = 0x0A000000, Bits = 24\<rparr>,
        IC_UDPAddr = AddrPort 0x7F000001 5000\<rparr>],
      Neighbors = [\<lparr>NC_DestAddr = 0x0A000002, NC_UDPAddr = AddrPort 0x7F000001 5001,
        NC_InterfaceName = ''if0''\<rparr>],
      OriginatingPrefixes = [\<lparr>PAddr = 0x0A000000, Bits = 24\<rparr>],
      RoutingMode = RoutingTypeRIP, RipNeighbors = [0x0A000002],
      StaticRoutes = [(\<lparr>PAddr = 0, Bits = 0\<rparr>, 0x0A000002)]\<rparr>"

lemma sample_text:
  "config_text sample_config =
     ''interface if0 10.0.0.1/24 127.0.0.1:5000'' @ [CHR 0x0A] @
     ''neighbor 10.0.0.2 at 127.0.0.1:5001 via if0'' @ [CHR 0x0A] @
     ''rip originate prefix 10.0.0.0/24'' @ [CHR 0x0A] @
     ''routing rip'' @ [CHR 0x0A] @
     ''rip advertise-to 10.0.0.2'' @ [CHR 0x0A] @
     ''route 0.0.0.0/0 via 10.0.0.2'' @ [CHR 0x0A]"
  by (simp add: config_text_def config_lines_def sample_config_def interface_line_def neighbor_line_def
      originate_line_def advertise_line_def route_line_def routing_lines_def show_prefix_def
      show_addr_def show_addrport_def octets_def show_nat.simps char_of_def bit_0)

lemma sample_printable: "printable sample_config"
  by (simp add: printable_def sample_config_def parsed_ok_def config_ok_def interface_ok_def
      Masked_def CIDRMask_def mask_numeral Contains_def name_ok_def word_ok_def is_space_def)

theorem config_round_trip_witness: "ParseConfig (Some (config_text sample_config)) = Inr sample_config"
  by (rule config_round_trip [OF sample_printable])

theorem parsed_config_well_formed_witness:
  "set (RipNeighbors sample_config) \<subseteq> NC_DestAddr ` set (Neighbors sample_config)"
  using parsed_config_well_formed [OF parse_printed [OF sample_printable]] by blast

end
