(* ===== verification/Programs.thy ===== *)
theory Programs
  imports Command Rip LnxParser
begin

text \<open>
  The two programs (\<open>cmd/vhost/main.go\<close>, \<open>cmd/vrouter/main.go\<close>): how a node is built from its
  arguments and its configuration file, and the loops that feed it: datagrams from the interfaces,
  its own packet channel, the command line, the RIP tickers. A run is a list of such events in any
  order; each carries the environment it is handled in. A panic ends the program.
\<close>

section \<open>Start-up\<close>

datatype 'a launch = ExitUsage string | Crashed go_error | Started 'a

definition TestProtocolNum :: u8 where "TestProtocolNum = 0"

definition usage :: "string list \<Rightarrow> string" where
  "usage args = ''Usage:  '' @ args ! 0 @ '' --config <configFile>'' @ newline"

text \<open>What both programs do up to the handlers of their own; \<open>files\<close> is the file system.\<close>

definition configured_stack ::
  "(string \<Rightarrow> string option) \<Rightarrow> (AddrPort \<Rightarrow> UDPConn res) \<Rightarrow> int
     \<Rightarrow> ((Prefix \<times> Addr) list \<Rightarrow> (Prefix \<times> Addr) list) \<Rightarrow> string list \<Rightarrow> (IPConfig \<times> app IPStack) launch" where
  "configured_stack files listen now ord args =
     (if length args \<noteq> 3 then ExitUsage (usage args)
      else if args ! 1 \<noteq> ''--config'' then ExitUsage (usage args)
      else case ParseConfig (files (args ! 2)) of
             Inl e \<Rightarrow> Crashed e
           | Inr lnxConfig \<Rightarrow>
               (case Initialize listen now ord lnxConfig of
                  Inl e \<Rightarrow> Crashed e
                | Inr ipStack \<Rightarrow> Started (lnxConfig, ipStack)))"

text \<open>A host: \<open>tcp.Init\<close> is its last call, after its goroutines have been started.\<close>

definition vhost_main ::
  "(string \<Rightarrow> string option) \<Rightarrow> (AddrPort \<Rightarrow> UDPConn res) \<Rightarrow> int
     \<Rightarrow> ((Prefix \<times> Addr) list \<Rightarrow> (Prefix \<times> Addr) list) \<Rightarrow> string list \<Rightarrow> 'b Node launch" where
  "vhost_main files listen now ord args =
     (case configured_stack files listen now ord args of
        ExitUsage u \<Rightarrow> ExitUsage u
      | Crashed e \<Rightarrow> Crashed e
      | Started (lnxConfig, ipStack) \<Rightarrow>
          Started \<lparr>Stack = RegisterRecvHandler
                     (RegisterRecvHandler ipStack TestProtocolNum TestProtocolApp)
                     TCPProtocolNum TCPApp,
                   Layer = None\<rparr>)"

definition init_tcp :: "'b Node \<Rightarrow> 'b Node res" where
  "init_tcp h =
     (case Init_tcp (Stack h) of
        Inl e \<Rightarrow> Inl e
      | Inr l \<Rightarrow> Inr (h\<lparr>Layer := Some l\<rparr>))"

text \<open>A router: the RIP neighbors of the configuration, then the requests of \<open>rip.InitialRIP\<close>, whose
  error is not looked at.\<close>

definition vrouter_main ::
  "(string \<Rightarrow> string option) \<Rightarrow> (AddrPort \<Rightarrow> UDPConn res) \<Rightarrow> int
     \<Rightarrow> ((Prefix \<times> Addr) list \<Rightarrow> (Prefix \<times> Addr) list) \<Rightarrow> string list \<Rightarrow> 'b Node launch" where
  "vrouter_main files listen now ord args =
     (case configured_stack files listen now ord args of
        ExitUsage u \<Rightarrow> ExitUsage u
      | Crashed e \<Rightarrow> Crashed e
      | Started (lnxConfig, ipStack) \<Rightarrow>
          (let st = ipStack\<lparr>NetLayer := (NetLayer ipStack)\<lparr>RIPNeighbors := RipNeighbors lnxConfig\<rparr>\<rparr>
           in Started \<lparr>Stack = RegisterRecvHandler
                        (RegisterRecvHandler st TestProtocolNum TestProtocolApp)
                        RIPProtocolNum RIPApp,
                      Layer = None\<rparr>))"

definition initial_requests :: "'b shell_env \<Rightarrow> 'b Node \<Rightarrow> app net_out list res" where
  "initial_requests S h =
     (case InitialRIP (NetPkgs S) (UpdateOrders S) (NetLayer (Stack h)) of
        (sent, Some (Panic p)) \<Rightarrow> Inl (Panic p)
      | (sent, _) \<Rightarrow> Inr sent)"

section \<open>Receiving\<close>

definition TestProtocolHandler :: "u8 list \<Rightarrow> IPv4Header \<Rightarrow> string" where
  "TestProtocolHandler data hdr =
     ''Received test packet:  '' @ ''Src: '' @ show_addr (Src hdr) @ '', '' @
     ''Dst: '' @ show_addr (Dst hdr) @ '', '' @ ''TTL: '' @ show_int (TTL hdr) @ '', '' @
     ''Data: '' @ text_of data @ newline"

text \<open>What was sent, up to the first panic; errors of \<open>SendPacketToDestIP\<close> are dropped.\<close>

fun sent_packets :: "app net_out res list \<Rightarrow> effect list res" where
  "sent_packets [] = Inr []"
| "sent_packets (Inl (Panic p) # outs) = Inl (Panic p)"
| "sent_packets (Inl (Error m) # outs) = sent_packets outs"
| "sent_packets (Inr out # outs) =
     (case sent_packets outs of Inl e \<Rightarrow> Inl e | Inr effs \<Rightarrow> Inr (Packet out # effs))"

definition with_network :: "'b Node \<Rightarrow> app NetworkLayer \<Rightarrow> 'b Node" where
  "with_network h n = h\<lparr>Stack := (Stack h)\<lparr>NetLayer := n\<rparr>\<rparr>"

text \<open>The handler a packet was for; a TCP segment that comes before \<open>tcp.Init\<close> panics.\<close>

definition run_handler ::
  "'b shell_env \<Rightarrow> 'b Node \<Rightarrow> app \<Rightarrow> u8 list \<Rightarrow> IPv4Header \<Rightarrow> ('b Node \<times> effect list) res" where
  "run_handler S h a data hdr =
     (case a of
        TestProtocolApp \<Rightarrow> Inr (h, [Printed (TestProtocolHandler data hdr)])
      | RIPApp \<Rightarrow>
          (case RIPHandler (NetPkgs S) (Now S) (RangeOrder S) (UpdateOrders S) (NetLayer (Stack h))
                  data hdr of
             Inl e \<Rightarrow> Inl e
           | Inr (n, outs) \<Rightarrow>
               (case sent_packets outs of
                  Inl e \<Rightarrow> Inl e
                | Inr effs \<Rightarrow> Inr (with_network h n, effs)))
      | TCPApp \<Rightarrow>
          (case Layer h of
             None \<Rightarrow> Inl (Panic NilDereference)
           | Some l \<Rightarrow>
               (case TcpHandler (TPkg (TcpEnv S)) l data hdr of
                  Inl e \<Rightarrow> Inl e
                | Inr d \<Rightarrow> Inr (h, [Delivered d]))))"

text \<open>One packet from the channel. A host prints an error of \<open>HandlePacket\<close>, a router drops it.\<close>

definition receive_packet ::
  "'b shell_env \<Rightarrow> bool \<Rightarrow> 'b Node \<Rightarrow> u8 list \<Rightarrow> ('b Node \<times> effect list) res" where
  "receive_packet S host h packet =
     (case HandlePacket (NetPkgs S) (RangeOrder S) (NetLayer (Stack h)) packet of
        Inl e \<Rightarrow> report e (\<lambda>m. (h, if host then [Printed (''Error handling packet:  '' @ m @ newline)] else []))
      | Inr (ToHandler a data hdr) \<Rightarrow> run_handler S h a data hdr
      | Inr Discarded \<Rightarrow> Inr (h, [])
      | Inr out \<Rightarrow> Inr (h, [Packet out]))"

section \<open>Events\<close>

datatype 'b event =
    Datagram "u8 list"
  | Channel "u8 list"
  | TypedLine string
  | InitTCP
  | SocketCall "'b layer_op"
  | ExpiryTicker
  | UpdateTicker

fun node_step ::
  "bool \<Rightarrow> 'b shell_env \<Rightarrow> 'b Node \<Rightarrow> 'b event \<Rightarrow> ('b Node \<times> effect list) res" where
  "node_step host S h (Datagram d) = receive_packet S host h (ReceivePacket d)"
| "node_step host S h (Channel b) = receive_packet S host h b"
| "node_step host S h (TypedLine command) =
     (case HandleInput S command host h of Inl e \<Rightarrow> Inl e | Inr (h', effs, r) \<Rightarrow> Inr (h', effs))"
| "node_step host S h InitTCP =
     (if host then (case init_tcp h of Inl e \<Rightarrow> Inl e | Inr h' \<Rightarrow> Inr (h', [])) else Inr (h, []))"
| "node_step host S h (SocketCall x) =
     (case Layer h of
        None \<Rightarrow> Inr (h, [])
      | Some l \<Rightarrow> Inr (h\<lparr>Layer := Some (layer_step (node_env S h) l x)\<rparr>, []))"
| "node_step host S h ExpiryTicker =
     (if host then Inr (h, [])
      else Inr (with_network h (PeriodicExpiry_tick (Now S) (RangeOrder S 0) (NetLayer (Stack h))), []))"
| "node_step host S h UpdateTicker =
     (if host then Inr (h, [])
      else (case sent_packets (PeriodicUpdate_tick (NetPkgs S) (UpdateOrders S) (NetLayer (Stack h))) of
              Inl e \<Rightarrow> Inl e
            | Inr effs \<Rightarrow> Inr (h, effs)))"

text \<open>The program: a node, or the panic that ended it.\<close>

definition program_step :: "bool \<Rightarrow> 'b Node res \<Rightarrow> 'b shell_env \<times> 'b event \<Rightarrow> 'b Node res" where
  "program_step host st x =
     (case st of
        Inl e \<Rightarrow> Inl e
      | Inr h \<Rightarrow> map_sum id fst (node_step host (fst x) h (snd x)))"

section \<open>What every run keeps\<close>

text \<open>The routes of \<open>n0\<close> that RIP does not own are in \<open>n\<close>, but for the state of their interface.\<close>

definition keeps_routes :: "'h NetworkLayer \<Rightarrow> 'h NetworkLayer \<Rightarrow> bool" where
  "keeps_routes n0 n \<longleftrightarrow> (\<forall>e v. map_of (FwdTable n0) e = Some v \<and> RouteType v \<noteq> RIPRoute \<longrightarrow>
     (\<exists>v'. map_of (FwdTable n) e = Some v' \<and> RouteType v' = RouteType v \<and> Cost v' = Cost v \<and>
        NextHop v' = NextHop v))"

lemma keeps_routes_refl [simp]: "keeps_routes n n"
  by (simp add: keeps_routes_def)

lemma keeps_routes_trans: "keeps_routes n0 n1 \<Longrightarrow> keeps_routes n1 n2 \<Longrightarrow> keeps_routes n0 n2"
  unfolding keeps_routes_def by metis

definition network_ok :: "app NetworkLayer \<Rightarrow> app IPStack \<Rightarrow> bool" where
  "network_ok n0 s \<longleftrightarrow> rip_inv (NetLayer s) \<and> layers_agree s \<and> keeps_routes n0 (NetLayer s)"

text \<open>A new network layer is as good if it has the same routes of its own.\<close>

lemma network_ok_own_routes:
  assumes ok: "network_ok n0 s" and inv: "rip_inv n"
    and old: "\<And>e v. map_of (FwdTable (NetLayer s)) e = Some v \<Longrightarrow> RouteType v \<noteq> RIPRoute \<Longrightarrow>
      map_of (FwdTable n) e = Some v"
    and new: "\<And>e v. (e, v) \<in> set (FwdTable n) \<Longrightarrow> RouteType v \<noteq> RIPRoute \<Longrightarrow>
      (e, v) \<in> set (FwdTable (NetLayer s))"
  shows "network_ok n0 (s\<lparr>NetLayer := n\<rparr>)"
proof -
  have "layers_agree (s\<lparr>NetLayer := n\<rparr>)"
    using ok inv new unfolding network_ok_def layers_agree_def rip_inv_def by fastforce
  moreover have "keeps_routes (NetLayer s) n"
    using old by (simp add: keeps_routes_def)
  ultimately show ?thesis
    using ok inv keeps_routes_trans by (simp add: network_ok_def) blast
qed

lemma handle_entry_own:
  assumes "fwd_wf (FwdTable n)" "handle_entry now src ord (n, u) x = Inr (n', u')"
    and "(e, v) \<in> set (FwdTable n')" "RouteType v \<noteq> RIPRoute"
  shows "(e, v) \<in> set (FwdTable n)"
proof -
  have "n' = n \<or> (\<exists>k. n' = n\<lparr>FwdTable := AList.update k (learned now src x) (FwdTable n)\<rparr>)"
    using handle_entry_effect [OF assms(1), of now src ord u x] assms(2) by auto
  then show ?thesis using assms(3,4) by (auto dest!: set_update_cases)
qed

lemma handle_entries_own:
  assumes "rip_inv n" "handle_entries now src rng (n, u) es = Inr (n', u')"
    and "(e, v) \<in> set (FwdTable n')" "RouteType v \<noteq> RIPRoute"
  shows "(e, v) \<in> set (FwdTable n)"
  using assms
proof (induction es arbitrary: n u rng)
  case (Cons x es)
  from handle_entry_rip_inv [OF Cons.prems(1), of now src "rng 0" u x] obtain n1 u1
    where n1: "handle_entry now src (rng 0) (n, u) x = Inr (n1, u1)" "rip_inv n1" by blast
  then have "(e, v) \<in> set (FwdTable n1)" using Cons.IH [OF n1(2)] Cons.prems(2-) by simp
  then show ?case
    using handle_entry_own [OF _ n1(1)] Cons.prems(1,4) by (simp add: rip_inv_def)
qed simp

lemma RIPHandler_network_ok:
  assumes ok: "network_ok n0 s" and rng: "range_ok rng"
    and h: "RIPHandler P now rng rngs (NetLayer s) data hdr = Inr (n, outs)"
  shows "network_ok n0 (s\<lparr>NetLayer := n\<rparr>)"
proof -
  have inv: "rip_inv (NetLayer s)" using ok by (simp add: network_ok_def)
  show ?thesis
  proof (rule RIPHandler_cases [OF inv, of P now rng rngs data hdr])
    fix outs' assume "RIPHandler P now rng rngs (NetLayer s) data hdr = Inr (NetLayer s, outs')"
    then show ?thesis using ok h by simp
  next
    fix p n' u' outs'
    assume r: "handle_entries now (Src hdr) rng (NetLayer s, []) (Entries p) = Inr (n', u')" "rip_inv n'"
      "RIPHandler P now rng rngs (NetLayer s) data hdr = Inr (n', outs')"
    then have n: "n' = n" using h by simp
    have "\<And>i t. set (rng i t) = set t" using rng by (simp add: range_ok_set)
    from network_ok_own_routes [OF ok r(2)] handle_entries_keeps [OF this _ _ inv r(1)]
      handle_entries_own [OF inv r(1)] show ?thesis by (simp add: n)
  qed
qed

lemma expiry_network_ok:
  assumes "network_ok n0 s" "set (ord (FwdTable (NetLayer s))) = set (FwdTable (NetLayer s))"
  shows "network_ok n0 (s\<lparr>NetLayer := PeriodicExpiry_tick now ord (NetLayer s)\<rparr>)"
proof (rule network_ok_own_routes [OF assms(1)])
  have inv: "rip_inv (NetLayer s)" using assms(1) by (simp add: network_ok_def)
  then show "rip_inv (PeriodicExpiry_tick now ord (NetLayer s))" by (rule expiry_rip_inv)
  have "fwd_wf (FwdTable (NetLayer s))" using inv by (simp add: rip_inv_def)
  then show "map_of (FwdTable (PeriodicExpiry_tick now ord (NetLayer s))) e = Some v"
    if "map_of (FwdTable (NetLayer s)) e = Some v" "RouteType v \<noteq> RIPRoute" for e v
    using that assms(2) by (simp add: expiry_map_of is_expired_def)
  show "(e, v) \<in> set (FwdTable (NetLayer s))"
    if "(e, v) \<in> set (FwdTable (PeriodicExpiry_tick now ord (NetLayer s)))" for e v
    using that set_delete_keys by (fastforce simp: PeriodicExpiry_tick_def)
qed

lemma map_of_map_values: "map_of (map (\<lambda>(e, v). (e, f v)) t) k = map_option f (map_of t k)"
  by (induction t) auto

lemma switch_network_ok:
  assumes "network_ok n0 s" "switch_interface s name st = Inr s'"
  shows "network_ok n0 s'"
proof -
  have wf: "fwd_wf (FwdTable (NetLayer s))" using assms(1) by (simp add: network_ok_def rip_inv_def)
  then have s': "s' = switched name st s" using assms(2) by (simp add: switch_interface_wf)
  have "rip_inv (NetLayer s')"
    using assms(1) by (auto simp: s' switched_def rip_inv_def network_ok_def fwd_wf_set_interface_state)
  moreover have "layers_agree s'" using assms(1) by (simp add: s' layers_agree_switched network_ok_def)
  moreover have "keeps_routes (NetLayer s) (NetLayer s')"
    by (auto simp: s' switched_def keeps_routes_def map_of_map_values)
  ultimately show ?thesis using assms(1) keeps_routes_trans by (simp add: network_ok_def) blast
qed

definition node_ok :: "app NetworkLayer \<Rightarrow> nat \<Rightarrow> 'b Node \<Rightarrow> bool" where
  "node_ok n0 k h \<longleftrightarrow> network_ok n0 (Stack h) \<and>
     (case Layer h of None \<Rightarrow> True | Some l \<Rightarrow> \<exists>j \<le> k. layer_ok j l)"

lemma node_ok_mono: "node_ok n0 k h \<Longrightarrow> k \<le> k' \<Longrightarrow> node_ok n0 k' h"
  by (auto simp: node_ok_def split: option.splits intro: le_trans)

lemma node_ok_Suc: "node_ok n0 k h \<Longrightarrow> node_ok n0 (Suc k) h"
  by (erule node_ok_mono) simp

lemma node_ok_layer_op:
  assumes "node_ok n0 k h" "k < 2 ^ 32" "Layer h = Some l"
  shows "node_ok n0 (Suc k) (h\<lparr>Layer := Some (layer_step E l x)\<rparr>)"
proof -
  obtain j where j: "j \<le> k" "layer_ok j l" using assms(1,3) by (auto simp: node_ok_def)
  then have "layer_ok j (layer_step E l x) \<or> layer_ok (Suc j) (layer_step E l x)"
    using assms(2) by (intro layer_step_ok) auto
  then have "\<exists>i \<le> Suc k. layer_ok i (layer_step E l x)" using j(1) le_SucI by blast
  then show ?thesis using assms(1) by (simp add: node_ok_def)
qed

lemma node_ok_one_layer_op:
  assumes "node_ok n0 k h" "k < 2 ^ 32" "one_layer_op S h h'"
  shows "node_ok n0 (Suc k) h'"
proof -
  have st: "Stack h' = Stack h" using assms(3) by (simp add: one_layer_op_def)
  consider "Layer h' = Layer h"
    | l x where "Layer h = Some l" "Layer h' = Some (layer_step (node_env S h) l x)"
    using assms(3) by (auto simp: one_layer_op_def)
  then show ?thesis
  proof cases
    case 1
    then show ?thesis using node_ok_Suc [OF assms(1)] st by (simp add: node_ok_def)
  next
    case 2
    from node_ok_layer_op [OF assms(1,2) 2(1), of "node_env S h" x] show ?thesis
      using st 2(2) by (simp add: node_ok_def)
  qed
qed

lemma node_ok_network:
  assumes "node_ok n0 k h" "network_ok n0 s"
  shows "node_ok n0 (Suc k) (h\<lparr>Stack := s\<rparr>)"
proof -
  have "node_ok n0 k (h\<lparr>Stack := s\<rparr>)" using assms by (simp add: node_ok_def)
  then show ?thesis by (rule node_ok_Suc)
qed

lemma receive_packet_ok:
  assumes ok: "node_ok n0 k h" and env: "range_ok (RangeOrder S)"
    and r: "receive_packet S host h packet = Inr (h', effs)"
  shows "node_ok n0 (Suc k) h'"
proof -
  consider "h' = h" | n data hdr outs where "h' = with_network h n"
      "RIPHandler (NetPkgs S) (Now S) (RangeOrder S) (UpdateOrders S) (NetLayer (Stack h)) data hdr =
         Inr (n, outs)"
    using r by (auto simp: receive_packet_def run_handler_def report_Inr
        split: sum.splits net_out.splits app.splits option.splits prod.splits)
  then show ?thesis
  proof cases
    case 1
    then show ?thesis using ok by (simp add: node_ok_Suc)
  next
    case 2
    have "network_ok n0 (Stack h)" using ok by (simp add: node_ok_def)
    from RIPHandler_network_ok [OF this env 2(2)] show ?thesis
      unfolding 2(1) with_network_def by (rule node_ok_network [OF ok])
  qed
qed

lemma node_step_ok:
  assumes ok: "node_ok n0 k h" and k: "k < 2 ^ 32" and env: "range_ok (RangeOrder S)"
    and r: "node_step host S h e = Inr (h', effs)"
  shows "node_ok n0 (Suc k) h'"
proof (cases e)
  case (Datagram d)
  then show ?thesis using receive_packet_ok [OF ok env] r by simp
next
  case (Channel b)
  then show ?thesis using receive_packet_ok [OF ok env] r by simp
next
  case (TypedLine command)
  then obtain rp where "HandleInput S command host h = Inr (h', effs, rp)"
    using r by (auto split: sum.splits prod.splits)
  from HandleInput_op [OF this] show ?thesis
  proof (elim disjE exE conjE)
    assume "one_layer_op S h h'"
    then show ?thesis by (rule node_ok_one_layer_op [OF ok k])
  next
    fix name st s'
    assume sw: "switch_interface (Stack h) name st = Inr s'" and h': "h' = h\<lparr>Stack := s'\<rparr>"
    have "network_ok n0 (Stack h)" using ok by (simp add: node_ok_def)
    from switch_network_ok [OF this sw] show ?thesis unfolding h' by (rule node_ok_network [OF ok])
  qed
next
  case InitTCP
  have "\<exists>j \<le> Suc k. layer_ok j l" if "Init_tcp (Stack h) = Inr l" for l :: "'a TCPLayer"
    using layer_ok_Init [OF that] by blast
  then show ?thesis
    using r InitTCP ok node_ok_Suc [OF ok]
    by (auto simp: init_tcp_def node_ok_def split: if_splits sum.splits)
next
  case (SocketCall x)
  then show ?thesis
    using r node_ok_layer_op [OF ok k] node_ok_Suc [OF ok] by (auto split: option.splits)
next
  case ExpiryTicker
  have "set (RangeOrder S 0 (FwdTable (NetLayer (Stack h)))) = set (FwdTable (NetLayer (Stack h)))"
    using env by (rule range_ok_set)
  moreover have "network_ok n0 (Stack h)" using ok by (simp add: node_ok_def)
  ultimately show ?thesis
    using r ExpiryTicker expiry_network_ok node_ok_network [OF ok] node_ok_Suc [OF ok]
    by (auto simp: with_network_def split: if_splits)
next
  case UpdateTicker
  then show ?thesis using r node_ok_Suc [OF ok] by (auto split: if_splits sum.splits)
qed

text \<open>A program with the number of events it has seen, up to 2^32 of them.\<close>

definition program_ok :: "app NetworkLayer \<Rightarrow> 'b Node res \<times> nat \<Rightarrow> bool" where
  "program_ok n0 x \<longleftrightarrow> (case fst x of Inl e \<Rightarrow> True | Inr h \<Rightarrow> snd x \<le> 2 ^ 32 \<longrightarrow> node_ok n0 (snd x) h)"

definition counted_step ::
  "bool \<Rightarrow> 'b Node res \<times> nat \<Rightarrow> 'b shell_env \<times> 'b event \<Rightarrow> 'b Node res \<times> nat" where
  "counted_step host s x = (program_step host (fst s) x, Suc (snd s))"

interpretation programs: op_machine "counted_step host" "program_ok n0"
  "\<lambda>x. range_ok (RangeOrder (fst x))" for host n0
proof unfold_locales
  fix s :: "'b Node res \<times> nat" and x :: "'b shell_env \<times> 'b event"
  assume ok: "program_ok n0 s" and env: "range_ok (RangeOrder (fst x))"
  show "program_ok n0 (counted_step host s x)"
  proof (cases "fst s")
    case (Inl e)
    then show ?thesis by (simp add: program_ok_def counted_step_def program_step_def)
  next
    case (Inr h)
    have "node_ok n0 (Suc (snd s)) h'"
      if "node_step host (fst x) h (snd x) = Inr (h', effs)" "Suc (snd s) \<le> 2 ^ 32" for h' effs
      using node_step_ok [OF _ _ env that(1)] ok Inr that(2) by (simp add: program_ok_def)
    then show ?thesis
      by (cases "node_step host (fst x) h (snd x)")
        (auto simp: program_ok_def counted_step_def program_step_def Inr)
  qed
qed

lemma counted_run:
  "foldl (counted_step host) (st, k) xs = (foldl (program_step host) st xs, k + length xs)"
  by (induction xs arbitrary: st k) (simp_all add: counted_step_def)

lemma program_run_ok:
  assumes "node_ok n0 0 h" "\<forall>x \<in> set xs. range_ok (RangeOrder (fst x))" "length xs \<le> 2 ^ 32"
    and "foldl (program_step host) (Inr h) xs = Inr h'"
  shows "node_ok n0 (length xs) h'"
proof -
  have "program_ok n0 (Inr h, 0)" using assms(1) by (simp add: program_ok_def)
  from programs.run_inv [OF this, of xs host] show ?thesis
    using assms(2-4) by (simp add: counted_run program_ok_def)
qed

section \<open>Runs from the start\<close>

lemma configured_stack_Started:
  assumes "configured_stack files listen now ord args = Started (c, st)"
  shows "ParseConfig (files (args ! 2)) = Inr c" and "Initialize listen now ord c = Inr st"
  using assms by (auto simp: configured_stack_def split: if_splits sum.splits)

lemma Initialize_rip_inv:
  assumes "Initialize listen now ord c = Inr st"
  shows "rip_inv (NetLayer st)"
proof -
  have "layers_agree st" using assms by (rule Initialize_agree)
  moreover have "RouteType v \<noteq> RIPRoute" if "(e, v) \<in> set (FwdTable (NetLayer st))" for e v
    using that assms
    by (auto simp: Initialize_def InitNetworkLayer_def Let_def split: sum.splits
        dest!: init_static_routes init_local_routes)
  ultimately show ?thesis by (auto simp: rip_inv_def layers_agree_def)
qed

lemma network_ok_start:
  assumes "layers_agree st" "rip_inv (NetLayer st)" "FwdTable (NetLayer st') = FwdTable (NetLayer st)"
    "LnkLayer st' = LnkLayer st"
  shows "network_ok (NetLayer st') st'"
  using assms by (simp add: network_ok_def layers_agree_def rip_inv_def)

lemma main_node_ok:
  assumes "vhost_main files listen now ord args = Started h \<or>
    vrouter_main files listen now ord args = Started h"
  shows "node_ok (NetLayer (Stack h)) 0 h"
proof -
  obtain c st where st: "configured_stack files listen now ord args = Started (c, st)"
    and h: "FwdTable (NetLayer (Stack h)) = FwdTable (NetLayer st)" "LnkLayer (Stack h) = LnkLayer st"
      "Layer h = None"
    using assms by (auto simp: vhost_main_def vrouter_main_def RegisterRecvHandler_def
        RegisterHandlers_def Let_def split: launch.splits)
  have "Initialize listen now ord c = Inr st" by (rule configured_stack_Started(2) [OF st])
  from network_ok_start [OF Initialize_agree [OF this] Initialize_rip_inv [OF this] h(1,2)] h(3)
  show ?thesis by (simp add: node_ok_def)
qed

text \<open>C7: However a program runs, it keeps its state consistent. Start either program on any file, and
  let it see up to 2^32 datagrams from the network, packets of its own, lines typed at the prompt,
  steps of the socket calls and ticks of the RIP timers, in any order, each handled with any
  iteration order of the maps. If no panic has ended it, its forwarding table has distinct,
  well-formed entries and no learned route at infinity, its two layers agree on the interfaces,
  every route it was configured with is there with its gateway and cost, and in the socket tables
  an ID names one socket or one listener.\<close>

theorem runs_keep_state_consistent:
  assumes "vhost_main files listen now ord args = Started h \<or>
      vrouter_main files listen now ord args = Started h"
    and "\<forall>x \<in> set events. range_ok (RangeOrder (fst x))" and "length events \<le> 2 ^ 32"
    and "foldl (program_step host) (Inr h) events = Inr h'"
  shows "rip_inv (NetLayer (Stack h')) \<and> layers_agree (Stack h') \<and>
    keeps_routes (NetLayer (Stack h)) (NetLayer (Stack h')) \<and>
    (\<forall>l. Layer h' = Some l \<longrightarrow> (\<exists>k. layer_ok k l))"
  using program_run_ok [OF main_node_ok [OF assms(1)] assms(2-4)]
  by (auto simp: node_ok_def network_ok_def)

section \<open>A host from its file\<close>

lemma map2_map_same: "map2 f xs (map g xs) = map (\<lambda>x. f x (g x)) xs"
  by (induction xs) simp_all

definition own_key :: "InterfaceConfig \<Rightarrow> FwdTableEntry" where
  "own_key i = CreateFwdTableEntry (IC_AssignedIP i) (IC_AssignedPrefix i)"

text \<open>A configuration a node can be run with: its interfaces differ in address or prefix, and no
  static route leads through one of the node's own addresses to that interface's prefix.\<close>

definition runnable :: "IPConfig \<Rightarrow> bool" where
  "runnable c \<longleftrightarrow> Interfaces c \<noteq> [] \<and> distinct (map own_key (Interfaces c)) \<and>
     (\<forall>i \<in> set (Interfaces c). (IC_AssignedPrefix i, IC_AssignedIP i) \<notin> set (StaticRoutes c))"

lemma Initialize_table:
  assumes c: "runnable c" and listen: "\<forall>i \<in> set (Interfaces c). \<exists>conn. listen (IC_UDPAddr i) = Inr conn"
    and ord: "set (ord (StaticRoutes c)) = set (StaticRoutes c)"
  shows "\<exists>st :: 'h IPStack. Initialize listen now ord c = Inr st \<and>
    map AssignedIP (LInterfaces (LnkLayer st)) = map IC_AssignedIP (Interfaces c) \<and>
    (\<forall>i \<in> set (Interfaces c). is_destination (NetLayer st) (IC_AssignedIP i))"
proof -
  define conn where "conn i = projr (listen (IC_UDPAddr i))" for i :: InterfaceConfig
  define ifs where "ifs = map (\<lambda>i. interface_of c i (conn i)) (Interfaces c)"
  define n :: "'h NetworkLayer" where "n = InitNetworkLayer now ord ifs (StaticRoutes c)"
  have "map (\<lambda>i. listen (IC_UDPAddr i)) (Interfaces c) = map Inr (map conn (Interfaces c))"
    using listen by (auto simp: conn_def)
  from ParseLnxConfig_loop_ok [OF this] have "ParseLnxConfigToIpInterfaces listen c = Inr ifs"
    by (simp add: ParseLnxConfigToIpInterfaces_def ifs_def map2_map_same)
  then have st: "Initialize listen now ord c =
      Inr \<lparr>Name = '''', NetLayer = n, LnkLayer = \<lparr>LInterfaces = ifs\<rparr>\<rparr>"
    by (simp add: Initialize_def n_def)
  have keys: "map (\<lambda>i. CreateFwdTableEntry (AssignedIP i) (AssignedPrefix i)) ifs = map own_key (Interfaces c)"
    by (simp add: ifs_def interface_of_def own_key_def)
  have up: "IState j = INTERFACEUP"
    if "(e, v) \<in> set (FwdTable n)" "RouteType v = LocalRoute" "Interface v = Some j" for e v j
  proof -
    have "(e, v) \<in> set (foldl (init_local now) [] ifs)"
      using that(1,2) by (auto simp: n_def InitNetworkLayer_def Let_def dest!: init_static_routes)
    then show ?thesis using init_local_agree [of "(e, v)" now "[]" ifs] that(3)
      by (auto simp: CreateFwdTableValue_def ifs_def interface_of_def)
  qed
  have wf: "fwd_wf (FwdTable n)" by (simp add: n_def fwd_wf_InitNetworkLayer)
  have "is_destination n (IC_AssignedIP i)" if i: "i \<in> set (Interfaces c)" for i
  proof -
    let ?j = "interface_of c i (conn i)"
    let ?x = "(own_key i, CreateFwdTableValue 0 now (Some ?j) None LocalRoute)"
    have j: "?j \<in> set ifs" "CreateFwdTableEntry (AssignedIP ?j) (AssignedPrefix ?j) = own_key i"
      using i by (simp_all add: ifs_def interface_of_def own_key_def)
    have "own_key i \<notin> (\<lambda>r. CreateFwdTableEntry (snd r) (fst r)) ` set (ord (StaticRoutes c))"
      using c i by (auto simp: ord runnable_def own_key_def CreateFwdTableEntry_def)
    moreover have "map_of (foldl (init_local now) [] ifs) (fst ?x) = Some (snd ?x)"
      using map_of_init_local [OF _ j(1), of now "[]"] c by (simp add: keys runnable_def j(2))
    ultimately have "map_of (FwdTable n) (fst ?x) = Some (snd ?x)"
      by (simp add: n_def InitNetworkLayer_def Let_def map_of_init_static_other)
    then have "?x \<in> set (FwdTable n)" by (simp add: map_of_SomeD)
    moreover have "local_match (IC_AssignedIP i) ?x"
      by (simp add: local_match_def own_key_def CreateFwdTableEntry_def CreateFwdTableValue_def)
    moreover have "case Interface (snd x) of None \<Rightarrow> False | Some j \<Rightarrow> IState j = INTERFACEUP"
      if "x \<in> set (FwdTable n)" "local_match (IC_AssignedIP i) x" for x
      using fwd_wf_entry [OF wf that(1)] up [of "fst x" "snd x"] that
      by (auto simp: local_match_def entry_wf_def split: option.splits)
    ultimately show ?thesis unfolding is_destination_def by blast
  qed
  then show ?thesis unfolding st by (simp add: ifs_def interface_of_def)
qed

lemma host_starts:
  assumes "printable c" and "runnable c"
    and "\<forall>i \<in> set (Interfaces c). \<exists>conn. listen (IC_UDPAddr i) = Inr conn"
    and "set (ord (StaticRoutes c)) = set (StaticRoutes c)"
    and "files f = Some (config_text c)"
  shows "\<exists>h0 h l. vhost_main files listen now ord [prog, ''--config'', f] = Started h0 \<and>
    init_tcp h0 = Inr h \<and> Layer h = Some l \<and> TLocalIP l = IC_AssignedIP (hd (Interfaces c)) \<and>
    (\<forall>i \<in> set (Interfaces c). is_destination (NetLayer (Stack h)) (IC_AssignedIP i)) \<and>
    map_of (Handlers (NetLayer (Stack h))) TestProtocolNum = Some TestProtocolApp \<and>
    map_of (Handlers (NetLayer (Stack h))) TCPProtocolNum = Some TCPApp"
proof -
  obtain st :: "app IPStack" where st: "Initialize listen now ord c = Inr st"
    and ips: "map AssignedIP (LInterfaces (LnkLayer st)) = map IC_AssignedIP (Interfaces c)"
    and dest: "\<forall>i \<in> set (Interfaces c). is_destination (NetLayer st) (IC_AssignedIP i)"
    using Initialize_table [where ord = ord, OF assms(2-4)] by blast
  have "configured_stack files listen now ord [prog, ''--config'', f] = Started (c, st)"
    by (simp add: configured_stack_def assms(5) parse_printed [OF assms(1)] st)
  moreover obtain i ifs where "LInterfaces (LnkLayer st) = i # ifs"
      "AssignedIP i = IC_AssignedIP (hd (Interfaces c))"
    using ips assms(2) by (cases "LInterfaces (LnkLayer st)"; cases "Interfaces c") (auto simp: runnable_def)
  ultimately show ?thesis using dest
    by (simp add: vhost_main_def init_tcp_def Init_tcp_def RegisterRecvHandler_def RegisterHandlers_def
        update_conv' is_destination_def TestProtocolNum_def TCPProtocolNum_def)
qed

text \<open>C20: A host comes up from its configuration file. Written out as a file and given to \<open>vhost\<close>, a
  well-formed configuration is parsed, the stack is built from it and \<open>tcp.Init\<close> succeeds: the node
  takes packets for each of its addresses, its handlers for the test protocol and TCP are in place,
  and TCP uses the address of the first interface.\<close>

theorem host_starts_from_its_file:
  assumes "printable c" and "runnable c"
    and "\<forall>i \<in> set (Interfaces c). \<exists>conn. listen (IC_UDPAddr i) = Inr conn"
    and "set (ord (StaticRoutes c)) = set (StaticRoutes c)"
    and "files f = Some (config_text c)"
  shows "\<exists>h0 h l. vhost_main files listen now ord [prog, ''--config'', f] = Started h0 \<and>
    init_tcp h0 = Inr h \<and> Layer h = Some l \<and> TLocalIP l = IC_AssignedIP (hd (Interfaces c)) \<and>
    (\<forall>i \<in> set (Interfaces c). is_destination (NetLayer (Stack h)) (IC_AssignedIP i)) \<and>
    map_of (Handlers (NetLayer (Stack h))) TestProtocolNum = Some TestProtocolApp \<and>
    map_of (Handlers (NetLayer (Stack h))) TCPProtocolNum = Some TCPApp"
  by (rule host_starts [where ord = ord and files = files, OF assms])

lemma sample_runnable: "runnable sample_config"
  by (simp add: runnable_def sample_config_def)

definition sample_files :: "string \<Rightarrow> string option" where
  "sample_files f = (if f = ''h1.lnx'' then Some (config_text sample_config) else None)"

theorem host_starts_from_its_file_witness:
  "\<exists>(h0 :: (int \<times> u8 list) Node) h.
     vhost_main sample_files (\<lambda>a. Inr (UDPConn a)) 0 (\<lambda>m. m) [''vhost'', ''--config'', ''h1.lnx''] = Started h0 \<and>
     init_tcp h0 = Inr h \<and> is_destination (NetLayer (Stack h)) 0x0A000001"
proof -
  have "\<forall>i \<in> set (Interfaces sample_config). \<exists>conn. Inr (UDPConn (IC_UDPAddr i)) = (Inr conn :: UDPConn res)"
    by simp
  moreover have "sample_files ''h1.lnx'' = Some (config_text sample_config)" by (simp add: sample_files_def)
  ultimately obtain h0 h :: "(int \<times> u8 list) Node" where
      "vhost_main sample_files (\<lambda>a. Inr (UDPConn a)) 0 (\<lambda>m. m) [''vhost'', ''--config'', ''h1.lnx''] = Started h0"
      "init_tcp h0 = Inr h"
      "\<forall>i \<in> set (Interfaces sample_config). is_destination (NetLayer (Stack h)) (IC_AssignedIP i)"
    using host_starts_from_its_file [where c = sample_config and ord = "\<lambda>m. m" and prog = "''vhost''" and
        files = sample_files and f = "''h1.lnx''" and listen = "\<lambda>a. Inr (UDPConn a)" and now = 0,
        OF sample_printable sample_runnable] by blast
  moreover have "\<exists>i \<in> set (Interfaces sample_config). IC_AssignedIP i = 0x0A000001"
    by (simp add: sample_config_def)
  ultimately show ?thesis by metis
qed

section \<open>From prompt to prompt\<close>

lemma send_words:
  "CHR '' '' \<notin> set w \<Longrightarrow> go_split CHR '' '' (''send '' @ w @ '' '' @ msg) = ''send'' # w # go_split CHR '' '' msg"
  using go_split_cut [of "CHR '' ''" "''send''" "w @ '' '' @ msg"] go_split_cut [of "CHR '' ''" w msg] by simp

lemma send_command:
  assumes "HandleInput S (''send '' @ show_addr d @ '' '' @ msg) repl a = Inr (a', [Packet out], r)"
  shows "SendPacketToDestIP (NetPkgs S) (RangeOrder S) (NetLayer (Stack a)) d TestProtocolNum (bytes_of msg) =
    Inr out"
proof -
  have "go_split CHR '' '' msg \<noteq> []" by simp
  then have "2 \<le> Suc (length (go_split CHR '' '' msg))" by (cases "go_split CHR '' '' msg") simp_all
  then have "HandleSend S (''send'' # show_addr d # go_split CHR '' '' msg) a = Inr (a', [Packet out], r)"
    using assms send_words [of "show_addr d" msg] line_pieces by (simp add: HandleInput_def Let_def)
  then show ?thesis
    by (auto simp: HandleSend_def report_Inr SendIP_def TestProtocolNum_def go_join_split split: sum.splits)
qed

text \<open>A datagram that nodes forward one after another, as each reads it from an interface.\<close>

fun carried :: "('b shell_env \<times> 'b Node) list \<Rightarrow> u8 list \<Rightarrow> u8 list option" where
  "carried [] d = Some d"
| "carried ((S, h) # path) d =
     (case HandlePacket (NetPkgs S) (RangeOrder S) (NetLayer (Stack h)) (ReceivePacket d) of
        Inr (ToUDP i a d') \<Rightarrow> carried path d'
      | _ \<Rightarrow> None)"

lemma carried_Cons_Some:
  assumes "carried ((S, h) # path) d = Some d'"
  obtains i a d1 where "HandlePacket (NetPkgs S) (RangeOrder S) (NetLayer (Stack h)) (ReceivePacket d) =
      Inr (ToUDP i a d1)" "node_step host S h (Datagram d) = Inr (h, [Packet (ToUDP i a d1)])"
    "carried path d1 = Some d'"
  using assms by (auto simp: receive_packet_def split: sum.splits net_out.splits)

lemma on_wire_buffer:
  assumes "net_pkgs_ok P" "on_wire P h msg d" "length msg \<le> 1380"
  shows "ReceivePacket d = d @ replicate (1400 - length d) 0"
proof -
  have "length d = 20 + length msg" using on_wire_parsed [OF assms(1,2)] by blast
  then show ?thesis using assms(3) by (subst ReceivePacket_short) (simp_all add: MaxMessageSize_def)
qed

lemma carried_on_wire:
  assumes "net_pkgs_ok P" "length msg \<le> 1380"
  shows "on_wire P h msg d \<Longrightarrow> \<forall>x \<in> set path. NetPkgs (fst x) = P \<Longrightarrow> carried path d = Some d' \<Longrightarrow>
    \<exists>c. on_wire P (h\<lparr>TTL := TTL h - int (length path), IChecksum := c\<rparr>) msg d'"
proof (induction path arbitrary: h d)
  case Nil
  then show ?case by (intro exI [of _ "IChecksum h"]) simp
next
  case (Cons x path)
  obtain S n where x: "x = (S, n)" by (cases x) auto
  obtain i a d1 where out: "HandlePacket (NetPkgs S) (RangeOrder S) (NetLayer (Stack n)) (ReceivePacket d) =
      Inr (ToUDP i a d1)" and rest: "carried path d1 = Some d'"
    using Cons.prems(3) unfolding x by (rule carried_Cons_Some)
  have "NetPkgs S = P" using Cons.prems(2) by (simp add: x)
  then have "HandlePacket P (RangeOrder S) (NetLayer (Stack n)) (d @ replicate (1400 - length d) 0) =
      Inr (ToUDP i a d1)"
    using out on_wire_buffer [OF assms(1) Cons.prems(1) assms(2)] by simp
  from on_wire_forwarded [OF assms(1) Cons.prems(1) this]
  obtain c :: u16 where "on_wire P (h\<lparr>TTL := TTL h - 1, IChecksum := uint c\<rparr>) msg d1" by blast
  from Cons.IH [OF this _ rest] Cons.prems(2) show ?case by (auto simp: algebra_simps)
qed

lemma carried_received:
  assumes "net_pkgs_ok P" "length msg \<le> 1380" "range_ok rng" "on_wire P h msg d"
    and "\<forall>x \<in> set path. NetPkgs (fst x) = P" "carried path d = Some d'"
    and "is_destination b (Dst h)" "map_of (Handlers b) (word_of_int (Protocol h)) = Some hf"
  shows "\<exists>c. ParseHeader P d' = Inr (h\<lparr>TTL := TTL h - int (length path), IChecksum := c\<rparr>) \<and>
    HandlePacket P rng b (ReceivePacket d') =
      (if c = 0 then Inl (Error ''invalid checksum'')
       else Inr (ToHandler hf msg (h\<lparr>TTL := TTL h - int (length path), IChecksum := c\<rparr>)))"
proof -
  obtain c where w: "on_wire P (h\<lparr>TTL := TTL h - int (length path), IChecksum := c\<rparr>) msg d'"
    using carried_on_wire [OF assms(1,2,4-6)] by blast
  have dst: "Dst (h\<lparr>TTL := TTL h - int (length path), IChecksum := c\<rparr>) = Dst h"
    "Protocol (h\<lparr>TTL := TTL h - int (length path), IChecksum := c\<rparr>) = Protocol h" by simp_all
  from on_wire_received [OF assms(1,3) w, unfolded dst, OF assms(7,8), of "replicate (1400 - length d') 0"]
  obtain c1 :: u16 where c1: "ParseHeader P d' = Inr (h\<lparr>TTL := TTL h - int (length path), IChecksum := c,
        IChecksum := uint c1\<rparr>)"
    "HandlePacket P rng b (d' @ replicate (1400 - length d') 0) =
      (if c1 = 0 then Inl (Error ''invalid checksum'')
       else Inr (ToHandler hf msg (h\<lparr>TTL := TTL h - int (length path), IChecksum := c,
         IChecksum := uint c1\<rparr>)))" by blast
  then show ?thesis
    by (intro exI [of _ "uint c1"]) (simp add: on_wire_buffer [OF assms(1) w assms(2)] uint_0_iff)
qed

text \<open>C19: \<open>send\<close> carries a line of text from one prompt to another. When a node whose user types
  \<open>send <address> <text>\<close>, spaces in the text included, puts a packet on the wire and any number of nodes
  forward it, the node that owns the address
  reads it into its buffer, takes it apart and prints exactly that text, for up to 1380 characters.
  The one exception is a header whose checksum is 0, which is refused.\<close>

theorem typed_text_is_printed:
  assumes "net_pkgs_ok (NetPkgs S)" and "NetPkgs S' = NetPkgs S" and "range_ok (RangeOrder S')"
    and "length msg \<le> 1380"
    and "HandleInput S (''send '' @ show_addr d @ '' '' @ msg) repl a = Inr (a', [Packet out], r)"
    and "sent_bytes out = Some bytes"
    and "\<forall>x \<in> set path. NetPkgs (fst x) = NetPkgs S" and "carried path bytes = Some datagram"
    and "is_destination (NetLayer (Stack b)) d"
    and "map_of (Handlers (NetLayer (Stack b))) TestProtocolNum = Some TestProtocolApp"
  shows "\<exists>hdr. ParseHeader (NetPkgs S) datagram = Inr hdr \<and>
    node_step True S' b (Datagram datagram) = Inr (b,
      if IChecksum hdr = 0 then [Printed (''Error handling packet:  invalid checksum'' @ newline)]
      else [Printed (''Received test packet:  Src: '' @ show_addr (Src hdr) @ '', Dst: '' @ show_addr d @
              '', TTL: '' @ show_int (16 - int (length path)) @ '', Data: '' @ msg @ newline)])"
proof -
  let ?P = "NetPkgs S"
  have send: "SendPacketToDestIP ?P (RangeOrder S) (NetLayer (Stack a)) d TestProtocolNum (bytes_of msg) = Inr out"
    using assms(5) by (rule send_command)
  have short: "length (bytes_of msg) < 65516" "length (bytes_of msg) \<le> 1380" using assms(4) by simp_all
  obtain i :: IPInterface where w: "on_wire ?P (sent_header (AssignedIP i) d TestProtocolNum (bytes_of msg))
      (bytes_of msg) bytes"
    using sent_on_wire [OF short(1) send assms(6)] by (elim exE conjE) (rule that)
  let ?h = "\<lambda>c. (sent_header (AssignedIP i) d TestProtocolNum (bytes_of msg))
    \<lparr>TTL := 16 - int (length path), IChecksum := c\<rparr>"
  from carried_received [OF assms(1) short(2) assms(3) w assms(7,8), of "NetLayer (Stack b)" TestProtocolApp]
  obtain c where hdr: "ParseHeader ?P datagram = Inr (?h c)"
    "HandlePacket ?P (RangeOrder S') (NetLayer (Stack b)) (ReceivePacket datagram) =
      (if c = 0 then Inl (Error ''invalid checksum'')
       else Inr (ToHandler TestProtocolApp (bytes_of msg) (?h c)))"
    using assms(9,10) by (auto simp: sent_header_def MaxHops_def)
  then show ?thesis
    by (intro exI [of _ "?h c"])
      (simp add: receive_packet_def assms(2) report_def run_handler_def TestProtocolHandler_def,
       simp add: sent_header_def)
qed

definition sample_shell :: "(int \<times> u8 list) shell_env" where
  "sample_shell =
     \<lparr>NetPkgs = wire_pkgs, RangeOrder = (\<lambda>i m. m), NeighborOrder = (\<lambda>m. m), SocketOrder = (\<lambda>m. m),
      ListenerOrder = (\<lambda>m. m), TcpEnv = sample_env, RandPort = (\<lambda>i. 5), RandISN = 7,
      ReadFile = (\<lambda>f. Inl (Error ''no such file'')), OpenFile = (\<lambda>f. None), Now = 0,
      UpdateOrders = (\<lambda>i j m. m)\<rparr>"

definition app_node :: "IPInterface list \<Rightarrow> (Prefix \<times> Addr) list \<Rightarrow> (int \<times> u8 list) Node" where
  "app_node ifs srs =
     \<lparr>Stack = \<lparr>Name = '''', NetLayer = RegisterHandlers (InitNetworkLayer 0 (\<lambda>m. m) ifs srs) 0 TestProtocolApp,
        LnkLayer = \<lparr>LInterfaces = ifs\<rparr>\<rparr>, Layer = None\<rparr>"

definition host_a :: "(int \<times> u8 list) Node" where
  "host_a = app_node [h1_if0] [(\<lparr>PAddr = 0, Bits = 0\<rparr>, sample_ip 0 2)]"

definition host_b :: "(int \<times> u8 list) Node" where
  "host_b = app_node [h2_if0] [(\<lparr>PAddr = 0, Bits = 0\<rparr>, sample_ip 1 1)]"

lemma a_sends: "SendPacketToDestIP wire_pkgs (\<lambda>i m. m) (NetLayer (Stack host_a)) (sample_ip 1 2) 0 [72, 105] =
    Inr (ToUDP h1_if0 (AddrPort 0x7F000001 5001) sample_packet)"
  by code_simp

lemma a_types: "HandleInput sample_shell (''send '' @ show_addr (sample_ip 1 2) @ '' '' @ ''Hi'') True host_a =
    Inr (host_a, [Packet (ToUDP h1_if0 (AddrPort 0x7F000001 5001) sample_packet)], Prompt)"
proof -
  have "go_split CHR '' '' (''send '' @ show_addr (sample_ip 1 2) @ '' '' @ ''Hi'') =
      [''send'', show_addr (sample_ip 1 2), ''Hi'']"
    using send_words [of "show_addr (sample_ip 1 2)" "''Hi''"] line_pieces(1) by simp
  moreover have "bytes_of ''Hi'' = [72, 105]" by (simp add: bytes_of_def)
  ultimately show ?thesis
    using a_sends by (simp add: HandleInput_def Let_def HandleSend_def SendIP_def sample_shell_def)
qed

text \<open>The router between them.\<close>

definition router_ab :: "(int \<times> u8 list) Node" where
  "router_ab = app_node [r1_if0, r1_if1] []"

lemma ab_carries: "carried [(sample_shell, router_ab)] sample_packet = Some sample_forwarded"
  by code_simp

lemma forwarded_parsed:
  "case ParseHeader wire_pkgs sample_forwarded of Inl e \<Rightarrow> False | Inr h \<Rightarrow> IChecksum h \<noteq> 0"
  by code_simp

lemma b_receives: "is_destination (NetLayer (Stack host_b)) (sample_ip 1 2)"
  "map_of (Handlers (NetLayer (Stack host_b))) TestProtocolNum = Some TestProtocolApp"
  by code_simp+

theorem typed_text_is_printed_witness:
  "\<exists>src. node_step True sample_shell host_b (Datagram sample_forwarded) = Inr (host_b,
     [Printed (''Received test packet:  Src: '' @ src @ '', Dst: '' @ show_addr (sample_ip 1 2) @
        '', TTL: '' @ show_int 15 @ '', Data: '' @ ''Hi'' @ newline)])"
proof -
  have S: "net_pkgs_ok (NetPkgs sample_shell)" "range_ok (RangeOrder sample_shell)"
    by (simp_all add: sample_shell_def wire_pkgs_ok range_ok_id)
  obtain hdr where parse: "ParseHeader (NetPkgs sample_shell) sample_forwarded = Inr hdr" "IChecksum hdr \<noteq> 0"
    using forwarded_parsed by (auto simp: sample_shell_def split: sum.splits)
  have "\<forall>x \<in> set [(sample_shell, router_ab)]. NetPkgs (fst x) = NetPkgs sample_shell" by simp
  from typed_text_is_printed [OF S(1) refl S(2) _ a_types _ this _ b_receives, of sample_packet sample_forwarded]
    parse ab_carries
  show ?thesis by (intro exI [of _ "show_addr (Src hdr)"]) simp
qed

text \<open>A run of the host of the sample file: it initialises TCP, takes its interface down, opens a
  listener and brings the interface up again.\<close>

definition sample_args :: "string list" where
  "sample_args = [''vhost'', ''--config'', ''h1.lnx'']"

definition sample_run :: "((int \<times> u8 list) shell_env \<times> (int \<times> u8 list) event) list" where
  "sample_run = map (Pair sample_shell)
     [InitTCP, TypedLine ''down if0'', SocketCall (Listen 80), TypedLine ''up if0'']"

lemma switch_lines:
  assumes "layers_agree (Stack h)"
  shows "node_step True S h (TypedLine ''down if0'') = Inr (h\<lparr>Stack := switched ''if0'' INTERFACEDOWN (Stack h)\<rparr>, [])"
    and "node_step True S h (TypedLine ''up if0'') = Inr (h\<lparr>Stack := switched ''if0'' INTERFACEUP (Stack h)\<rparr>, [])"
  using assms
  by (simp_all add: HandleInput_def Let_def HandleDownCommand_def HandleUpCommand_def switched_node_def
      switch_interface_wf layers_agree_def)

lemma sample_run_ends:
  assumes "init_tcp h0 = Inr h" "layers_agree (Stack h0)"
  shows "\<exists>h1. foldl (program_step True) (Inr h0) sample_run = Inr h1 \<and> Layer h1 \<noteq> None"
proof -
  obtain l where h: "h = h0\<lparr>Layer := Some l\<rparr>" using assms(1) by (auto simp: init_tcp_def split: sum.splits)
  then have "layers_agree (Stack h)" using assms(2) by simp
  then show ?thesis
    by (simp add: sample_run_def program_step_def assms(1) switch_lines layers_agree_switched h
        del: node_step.simps(3))
qed

theorem runs_keep_state_consistent_witness:
  "\<exists>(h0 :: (int \<times> u8 list) Node) h1 l.
     vhost_main sample_files (\<lambda>a. Inr (UDPConn a)) 0 (\<lambda>m. m) sample_args = Started h0 \<and>
     foldl (program_step True) (Inr h0) sample_run = Inr h1 \<and> layers_agree (Stack h1) \<and>
     Layer h1 = Some l \<and> (\<exists>k. layer_ok k l)"
proof -
  have "\<forall>i \<in> set (Interfaces sample_config). \<exists>conn. Inr (UDPConn (IC_UDPAddr i)) = (Inr conn :: UDPConn res)"
    by simp
  moreover have "sample_files ''h1.lnx'' = Some (config_text sample_config)" by (simp add: sample_files_def)
  ultimately obtain h0 h :: "(int \<times> u8 list) Node" where
      h0: "vhost_main sample_files (\<lambda>a. Inr (UDPConn a)) 0 (\<lambda>m. m) sample_args = Started h0"
      and h: "init_tcp h0 = Inr h"
    using host_starts [where c = sample_config and ord = "\<lambda>m. m" and prog = "''vhost''" and
        files = sample_files and f = "''h1.lnx''" and listen = "\<lambda>a. Inr (UDPConn a)" and now = 0,
        OF sample_printable sample_runnable] unfolding sample_args_def by blast
  have "layers_agree (Stack h0)"
    using main_node_ok [OF disjI1 [OF h0]] by (simp add: node_ok_def network_ok_def)
  then obtain h1 where h1: "foldl (program_step True) (Inr h0) sample_run = Inr h1" "Layer h1 \<noteq> None"
    using sample_run_ends [OF h] by blast
  have "\<forall>x \<in> set sample_run. range_ok (RangeOrder (fst x))" "length sample_run \<le> 2 ^ 32"
    by (simp_all add: sample_run_def sample_shell_def range_ok_id)
  from runs_keep_state_consistent [OF disjI1 [OF h0] this h1(1)] h0 h1 show ?thesis by blast
qed

end
