(* ===== verification/RipExchange.thy ===== *)
theory RipExchange
  imports Distance_Vector Programs
begin

text \<open>
  A whole RIP exchange: the response one router sends, across the network layer, into the table of
  its neighbor. Where the prefixes involved do not overlap, a response is one step of the
  distributed Bellman-Ford algorithm on all of them at once.
\<close>

section \<open>A whole response\<close>

text \<open>An entry that is looked at, and a table in which only the route stored for it covers it.\<close>

definition live :: "RIPEntry \<Rightarrow> bool" where
  "live x \<longleftrightarrow> RCost x + 1 < INFINITY"

definition separate :: "FwdTable \<Rightarrow> RIPEntry \<Rightarrow> bool" where
  "separate t x \<longleftrightarrow> (\<forall>e v. map_of t e = Some v \<and> Contains (EAssignedPrefix e) (RAddress x) \<longrightarrow>
     e = fresh_key x \<and> RouteType v = RIPRoute)"

text \<open>Entries whose prefixes do not cover one another.\<close>

definition apart :: "RIPEntry list \<Rightarrow> bool" where
  "apart xs \<longleftrightarrow> distinct (map fresh_key xs) \<and>
     (\<forall>x \<in> set xs. \<forall>y \<in> set xs. Contains (EAssignedPrefix (fresh_key x)) (RAddress y) \<longrightarrow>
        fresh_key x = fresh_key y)"

lemma apart_Cons:
  assumes "apart (x # xs)"
  shows "fresh_key x \<notin> fresh_key ` set xs" and "apart xs"
    and "y \<in> set xs \<Longrightarrow> Contains (EAssignedPrefix (fresh_key x)) (RAddress y) \<longrightarrow> fresh_key x = fresh_key y"
  using assms unfolding apart_def list.map distinct.simps list.set set_map by blast+

lemma fresh_key_covers: "covers (RAddress x) (fresh_key x, v)"
  using Contains_self [of "\<lparr>PAddr = RAddress x, Bits = mask_Size (RMask x)\<rparr>"]
  by (simp add: covers_def fresh_key_def CreateFwdTableEntry_def)

lemma entry_key_separate:
  assumes "fwd_wf (FwdTable n)" "set (ord (FwdTable n)) = set (FwdTable n)" "separate (FwdTable n) x"
  shows "entry_key ord n x = fresh_key x"
proof (cases "GetEntryByPrefix ord n (RAddress x)")
  case (Some k)
  then obtain v where v: "(k, v) \<in> set (ord (FwdTable n))" "covers (RAddress x) (k, v)"
    using find_eq_Some_in_set [of "covers (RAddress x)" "ord (FwdTable n)"]
    by (auto simp: GetEntryByPrefix_find)
  then have "map_of (FwdTable n) k = Some v" using assms(1,2) by (simp add: fwd_wf_def)
  then have "k = fresh_key x" using v(2) assms(3) by (auto simp: separate_def covers_def)
  then show ?thesis using Some by (simp add: entry_key_def)
qed (simp add: entry_key_def)

text \<open>The merge of one entry, where it is separate.\<close>

lemma live_entry:
  assumes "rip_inv n" "set (ord (FwdTable n)) = set (FwdTable n)" "live x" "separate (FwdTable n) x"
  shows "\<exists>n' u'. handle_entry now src ord (n, u) x = Inr (n', u') \<and> rip_inv n' \<and>
    route_at n' (fresh_key x) = Some (dv_merge (RCost x + 1) src (route_at n (fresh_key x))) \<and>
    (\<forall>k. k \<noteq> fresh_key x \<longrightarrow> map_of (FwdTable n') k = map_of (FwdTable n) k) \<and>
    (\<forall>v. map_of (FwdTable n') (fresh_key x) = Some v \<longrightarrow> RouteType v = RIPRoute)"
proof -
  have wf: "fwd_wf (FwdTable n)" using assms(1) by (simp add: rip_inv_def)
  have key: "entry_key ord n x = fresh_key x"
    using entry_key_separate [where ord = ord, OF wf assms(2,4)] .
  have "\<forall>v. map_of (FwdTable n) (entry_key ord n x) = Some v \<longrightarrow> RouteType v = RIPRoute"
    using assms(4) fresh_key_covers [of x] by (simp add: key separate_def covers_def)
  from entry_merges [where ord = ord, OF wf assms(2) assms(3) [unfolded live_def] this, of now src u]
  obtain n' u' where m: "handle_entry now src ord (n, u) x = Inr (n', u')"
    "route_at n' (fresh_key x) = Some (dv_merge (RCost x + 1) src (route_at n (fresh_key x)))"
    "\<forall>k. k \<noteq> fresh_key x \<longrightarrow> map_of (FwdTable n') k = map_of (FwdTable n) k"
    unfolding key by blast
  moreover have "rip_inv n'" using handle_entry_rip_inv [OF assms(1), of now src ord u x] m(1) by auto
  moreover have "RouteType v = RIPRoute" if v: "map_of (FwdTable n') (fresh_key x) = Some v" for v
  proof (rule ccontr)
    assume "RouteType v \<noteq> RIPRoute"
    then have "(fresh_key x, v) \<in> set (FwdTable n)"
      using handle_entry_own [OF wf m(1) map_of_SomeD [OF v]] by blast
    then have "map_of (FwdTable n) (fresh_key x) = Some v" using wf by (simp add: fwd_wf_def)
    then show False using assms(4) fresh_key_covers [of x] \<open>RouteType v \<noteq> RIPRoute\<close>
      by (auto simp: separate_def covers_def)
  qed
  ultimately show ?thesis by blast
qed

lemma separate_after:
  assumes "separate t y" "\<forall>k. k \<noteq> fresh_key x \<longrightarrow> map_of t' k = map_of t k"
    and "\<forall>v. map_of t' (fresh_key x) = Some v \<longrightarrow> RouteType v = RIPRoute"
    and "Contains (EAssignedPrefix (fresh_key x)) (RAddress y) \<longrightarrow> fresh_key x = fresh_key y"
  shows "separate t' y"
  using assms unfolding separate_def by metis

lemma handle_entries_merge:
  assumes "range_ok rng"
  shows "rip_inv n \<Longrightarrow> apart (filter live xs) \<Longrightarrow> \<forall>x \<in> set xs. live x \<longrightarrow> separate (FwdTable n) x \<Longrightarrow>
    \<exists>n' u'. handle_entries now src rng (n, u) xs = Inr (n', u') \<and>
      (\<forall>x \<in> set xs. live x \<longrightarrow>
         route_at n' (fresh_key x) = Some (dv_merge (RCost x + 1) src (route_at n (fresh_key x)))) \<and>
      (\<forall>k. k \<notin> fresh_key ` set (filter live xs) \<longrightarrow> map_of (FwdTable n') k = map_of (FwdTable n) k)"
  using assms
proof (induction xs arbitrary: n u rng)
  case (Cons x xs)
  have ord: "set (rng 0 (FwdTable n)) = set (FwdTable n)" "range_ok (\<lambda>i. rng (Suc i))"
    using Cons.prems(4) by (simp_all add: range_ok_set) (simp add: range_ok_def)
  show ?case
  proof (cases "live x")
    case False
    then have "handle_entry now src (rng 0) (n, u) x = Inr (n, u)"
      by (simp add: live_def handle_entry_infinite)
    then show ?thesis
      using Cons.IH [OF Cons.prems(1) _ _ ord(2), of u] Cons.prems(2,3) False by simp
  next
    case True
    have sx: "separate (FwdTable n) x" using Cons.prems(3) True by simp
    obtain n1 u1 where n1: "handle_entry now src (rng 0) (n, u) x = Inr (n1, u1)" "rip_inv n1"
      "route_at n1 (fresh_key x) = Some (dv_merge (RCost x + 1) src (route_at n (fresh_key x)))"
      "\<forall>k. k \<noteq> fresh_key x \<longrightarrow> map_of (FwdTable n1) k = map_of (FwdTable n) k"
      "\<forall>v. map_of (FwdTable n1) (fresh_key x) = Some v \<longrightarrow> RouteType v = RIPRoute"
      using live_entry [where ord = "rng 0", OF Cons.prems(1) ord(1) True sx, of now src u]
      by (elim exE conjE) (rule that; assumption)
    have "apart (x # filter live xs)" using Cons.prems(2) True by simp
    note new = apart_Cons(1) [OF this] and rest = apart_Cons(2) [OF this] and
      covering = apart_Cons(3) [OF this]
    have sep: "separate (FwdTable n1) y" if "y \<in> set xs" "live y" for y
    proof (rule separate_after [OF _ n1(4,5)])
      show "separate (FwdTable n) y" using Cons.prems(3) that by simp
      show "Contains (EAssignedPrefix (fresh_key x)) (RAddress y) \<longrightarrow> fresh_key x = fresh_key y"
        using that by (intro covering) simp
    qed
    then have sep': "\<forall>y \<in> set xs. live y \<longrightarrow> separate (FwdTable n1) y" by blast
    obtain n' u' where n': "handle_entries now src (\<lambda>i. rng (Suc i)) (n1, u1) xs = Inr (n', u')"
      "\<forall>y \<in> set xs. live y \<longrightarrow>
         route_at n' (fresh_key y) = Some (dv_merge (RCost y + 1) src (route_at n1 (fresh_key y)))"
      "\<forall>k. k \<notin> fresh_key ` set (filter live xs) \<longrightarrow> map_of (FwdTable n') k = map_of (FwdTable n1) k"
      using Cons.IH [OF n1(2) rest sep' ord(2), of u1] by (elim exE conjE) (rule that; assumption)
    have same: "route_at n1 (fresh_key y) = route_at n (fresh_key y)" if "y \<in> set xs" "live y" for y
    proof -
      have "fresh_key y \<in> fresh_key ` set (filter live xs)" using that by (intro imageI) simp
      then have "fresh_key y \<noteq> fresh_key x" using new by metis
      then show ?thesis using n1(4) by (simp add: route_at_def)
    qed
    have "route_at n' (fresh_key x) = route_at n1 (fresh_key x)"
      using n'(3) new by (simp add: route_at_def)
    then have "\<forall>y \<in> set (x # xs). live y \<longrightarrow>
        route_at n' (fresh_key y) = Some (dv_merge (RCost y + 1) src (route_at n (fresh_key y)))"
      using n'(2) n1(3) same by simp
    moreover have "\<forall>k. k \<notin> fresh_key ` set (filter live (x # xs)) \<longrightarrow>
        map_of (FwdTable n') k = map_of (FwdTable n) k"
      using n'(3) n1(4) True by simp
    ultimately show ?thesis using n1(1) n'(1) by (intro exI [of _ n'] exI [of _ u']) simp
  qed
qed simp

section \<open>From one router's table to another's\<close>

lemma apart_perm: "mset xs = mset ys \<Longrightarrow> apart xs \<longleftrightarrow> apart ys"
proof -
  assume eq: "mset xs = mset ys"
  then have "mset (map fresh_key xs) = mset (map fresh_key ys)" by simp
  then have "distinct (map fresh_key xs) \<longleftrightarrow> distinct (map fresh_key ys)" by (rule mset_eq_imp_distinct_iff)
  then show ?thesis using mset_eq_setD [OF eq] unfolding apart_def by simp
qed

lemma live_advert: "live (advert a x) \<Longrightarrow> RCost (advert a x) = Cost (snd x)"
  by (auto simp: live_def advert_def INFINITY_def split: if_splits)

text \<open>The bytes of a response of at most 64 routes are read back as its entries.\<close>

lemma response_read:
  assumes "fwd_wf (FwdTable n)" "set (ord (FwdTable n)) = set (FwdTable n)" "length (ord (FwdTable n)) \<le> 64"
    and "response_packet ord n a = Inr p"
  shows "UnmarshalRIPPacket (Marshal p) = Inr (p\<lparr>NumEntries := 0\<rparr>)" and "length (Marshal p) \<le> 1380"
    and "Entries p = map (advert a) (ord (FwdTable n))" and "Command p = ResponseCommand"
proof -
  have p: "p = \<lparr>Command = ResponseCommand, NumEntries = of_nat (length (ord (FwdTable n))),
      Entries = map (advert a) (ord (FwdTable n))\<rparr>"
    using response_packet_advert [where ord = ord, OF assms(1,2), of a] assms(4) by simp
  then have "sized (p\<lparr>NumEntries := 0\<rparr>) = p" "rip_valid (p\<lparr>NumEntries := 0\<rparr>)"
    using assms(3) by (simp_all add: sized_def rip_valid_def)
  then show "UnmarshalRIPPacket (Marshal p) = Inr (p\<lparr>NumEntries := 0\<rparr>)" using Unmarshal_Marshal by metis
  show "length (Marshal p) \<le> 1380" using Marshal_fields(1) [of p] assms(3) by (simp add: p)
  show "Entries p = map (advert a) (ord (FwdTable n))" "Command p = ResponseCommand" by (simp_all add: p)
qed

lemma response_handled:
  assumes "range_ok rng" and "rip_inv n" and "UnmarshalRIPPacket data = Inr p" "Command p = ResponseCommand"
    and "apart (filter live (Entries p))" "\<forall>x \<in> set (Entries p). live x \<longrightarrow> separate (FwdTable n) x"
    and "RIPHandler P now rng rngs n data hdr = Inr (n', outs)"
  shows "(\<forall>x \<in> set (Entries p). live x \<longrightarrow>
      route_at n' (fresh_key x) = Some (dv_merge (RCost x + 1) (Src hdr) (route_at n (fresh_key x)))) \<and>
    (\<forall>k. k \<notin> fresh_key ` set (filter live (Entries p)) \<longrightarrow> map_of (FwdTable n') k = map_of (FwdTable n) k)"
proof -
  obtain n1 u1 where m: "handle_entries now (Src hdr) rng (n, []) (Entries p) = Inr (n1, u1)"
    "\<forall>x \<in> set (Entries p). live x \<longrightarrow>
      route_at n1 (fresh_key x) = Some (dv_merge (RCost x + 1) (Src hdr) (route_at n (fresh_key x)))"
    "\<forall>k. k \<notin> fresh_key ` set (filter live (Entries p)) \<longrightarrow> map_of (FwdTable n1) k = map_of (FwdTable n) k"
    using handle_entries_merge [OF assms(1,2,5,6), of now "Src hdr" "[]"] by (elim exE conjE) (rule that; assumption)
  have "n' = n1"
    using assms(3,4,7) m(1) by (simp add: RIPHandler_def rip_constants Let_def split: if_splits)
  then show ?thesis using m(2,3) by simp
qed

text \<open>C9: A RIP update crosses the network and is one step of the distance-vector algorithm. Let router
  \<open>a\<close> send its table, of at most 64 routes, to a neighbor's address, and the neighbor read the
  datagram with a header checksum other than 0. If no two of the advertised prefixes below infinity
  overlap, nor one of them and another route of the neighbor, then for each of them the
  neighbor's route becomes the merge of its old route and the advertised cost plus one through the sender, and every
  other route of the neighbor is untouched.\<close>

theorem rip_update_reaches_neighbor:
  assumes "net_pkgs_ok (NetPkgs S)" and "NetPkgs S' = NetPkgs S" and "range_ok (RangeOrder S')" and "range_ok rng"
    and "rip_inv a" and "length (FwdTable a) \<le> 64"
    and "SendRIPResponseSafe (NetPkgs S) rng a aB = Inr out" and "sent_bytes out = Some bytes"
    and "\<forall>x \<in> set path. NetPkgs (fst x) = NetPkgs S" and "carried path bytes = Some datagram"
    and "ParseHeader (NetPkgs S) datagram = Inr hdr" and "IChecksum hdr \<noteq> 0"
    and "rip_inv (NetLayer (Stack b))" and "is_destination (NetLayer (Stack b)) aB"
    and "map_of (Handlers (NetLayer (Stack b))) RIPProtocolNum = Some RIPApp"
    and "apart (filter live (map (advert aB) (FwdTable a)))"
    and "\<forall>x \<in> set (FwdTable a). live (advert aB x) \<longrightarrow> separate (FwdTable (NetLayer (Stack b))) (advert aB x)"
    and "node_step False S' b (Datagram datagram) = Inr (b', effs)"
  shows "(\<forall>x \<in> set (FwdTable a). live (advert aB x) \<longrightarrow>
      route_at (NetLayer (Stack b')) (fresh_key (advert aB x)) = Some (dv_merge (Cost (snd x) + 1) (Src hdr)
        (route_at (NetLayer (Stack b)) (fresh_key (advert aB x))))) \<and>
    (\<forall>k. (\<forall>x \<in> set (FwdTable a). live (advert aB x) \<longrightarrow> k \<noteq> fresh_key (advert aB x)) \<longrightarrow>
      map_of (FwdTable (NetLayer (Stack b'))) k = map_of (FwdTable (NetLayer (Stack b))) k)"
proof -
  let ?t = "rng 0 (FwdTable a)" and ?n = "NetLayer (Stack b)" and ?P = "NetPkgs S"
  have perm: "mset ?t = mset (FwdTable a)" using assms(4) by (simp add: range_ok_def)
  then have set: "set ?t = set (FwdTable a)" and len: "length ?t \<le> 64"
    using mset_eq_setD mset_eq_length assms(6) by (blast, metis)
  have wf: "fwd_wf (FwdTable a)" using assms(5) by (simp add: rip_inv_def)
  obtain p where p: "response_packet (rng 0) a aB = Inr p"
    and send: "SendPacketToDestIP ?P (\<lambda>i. rng (Suc i)) a aB RIPProtocolNum (Marshal p) = Inr out"
    using assms(7) by (auto simp: SendRIPResponseSafe_def split: sum.splits)
  note read = response_read [where ord = "rng 0", OF wf set len p]
  have short: "length (Marshal p) < 65516" using read(2) by simp
  obtain i :: IPInterface where w: "on_wire ?P (sent_header (AssignedIP i) aB RIPProtocolNum (Marshal p)) (Marshal p) bytes"
    using sent_on_wire [OF short send assms(8)] by (elim exE conjE) (rule that)
  from carried_received [OF assms(1) read(2) assms(3) w assms(9,10), of ?n RIPApp] assms(11,12,14,15)
  have "HandlePacket ?P (RangeOrder S') ?n (ReceivePacket datagram) = Inr (ToHandler RIPApp (Marshal p) hdr)"
    by (auto simp: sent_header_def)
  then obtain n' outs where h: "RIPHandler ?P (Now S') (RangeOrder S') (UpdateOrders S') ?n (Marshal p) hdr = Inr (n', outs)"
    and b': "NetLayer (Stack b') = n'"
    using assms(2,18) by (auto simp: receive_packet_def run_handler_def with_network_def split: sum.splits)
  have e: "Entries (p\<lparr>NumEntries := 0\<rparr>) = map (advert aB) ?t" "Command (p\<lparr>NumEntries := 0\<rparr>) = ResponseCommand"
    using read(3,4) by simp_all
  have "mset (filter live (map (advert aB) ?t)) = mset (filter live (map (advert aB) (FwdTable a)))"
    using perm by (simp add: mset_filter)
  then have ap: "apart (filter live (Entries (p\<lparr>NumEntries := 0\<rparr>)))" unfolding e
    using assms(16) apart_perm by blast
  have sep: "\<forall>x \<in> set (Entries (p\<lparr>NumEntries := 0\<rparr>)). live x \<longrightarrow> separate (FwdTable ?n) x"
    using assms(17) set by (simp add: e)
  from response_handled [OF assms(3,13) read(1) e(2) ap sep h] show ?thesis
    unfolding e b' using set by (auto simp: live_advert)
qed

text \<open>The router of the sample network and a second router on its net 10.1.0.0/24.\<close>

definition rip_router :: "IPInterface list \<Rightarrow> (int \<times> u8 list) Node" where
  "rip_router ifs =
     (app_node ifs [])\<lparr>Stack := RegisterRecvHandler (Stack (app_node ifs [])) RIPProtocolNum RIPApp\<rparr>"

definition rip_a :: "app NetworkLayer" where
  "rip_a = NetLayer (Stack (rip_router [r1_if0, r1_if1]))"

definition rip_b :: "(int \<times> u8 list) Node" where
  "rip_b = rip_router [h2_if0]"

definition rip_datagram :: "u8 list" where
  "rip_datagram = [69, 0, 0, 48, 0, 0, 0, 0, 16, 200, 150, 2, 10, 1, 0, 1, 10, 1, 0, 2, 0, 2, 0, 2,
     0, 0, 0, 0, 10, 0, 0, 0, 255, 255, 255, 0, 0, 0, 0, 16, 10, 1, 0, 0, 255, 255, 255, 0]"

definition net0_route :: "FwdTableEntry \<times> FwdTableValue" where
  "net0_route = hd (FwdTable rip_a)"

text \<open>The second router learns the net behind the first one at cost 1.\<close>

theorem rip_update_reaches_neighbor_witness:
  "\<exists>b' effs. node_step False sample_shell rip_b (Datagram rip_datagram) = Inr (b', effs) \<and>
     route_at (NetLayer (Stack b')) (fresh_key (advert (sample_ip 1 2) net0_route)) = Some (1, Some (sample_ip 1 1))"
proof -
  let ?S = "sample_shell" and ?B = "sample_ip 1 2" and ?n = "NetLayer (Stack rip_b)"
  have env: "net_pkgs_ok (NetPkgs ?S)" "range_ok (RangeOrder ?S)" "range_ok (\<lambda>i (m :: FwdTable). m)"
    by (simp_all add: sample_shell_def wire_pkgs_ok range_ok_id)
  have a: "rip_inv rip_a" "length (FwdTable rip_a) \<le> 64" by code_simp+
  have "case SendRIPResponseSafe (NetPkgs ?S) (\<lambda>i m. m) rip_a ?B of Inl e \<Rightarrow> False
      | Inr out \<Rightarrow> sent_bytes out = Some rip_datagram" by code_simp
  then obtain out where out: "SendRIPResponseSafe (NetPkgs ?S) (\<lambda>i m. m) rip_a ?B = Inr out"
    "sent_bytes out = Some rip_datagram" by (auto split: sum.splits)
  have p: "\<forall>x \<in> set ([] :: ((int \<times> u8 list) shell_env \<times> (int \<times> u8 list) Node) list). NetPkgs (fst x) = NetPkgs ?S"
    "carried ([] :: ((int \<times> u8 list) shell_env \<times> (int \<times> u8 list) Node) list) rip_datagram = Some rip_datagram"
    by simp_all
  have "case ParseHeader (NetPkgs ?S) rip_datagram of Inl e \<Rightarrow> False
      | Inr hdr \<Rightarrow> IChecksum hdr \<noteq> 0 \<and> Src hdr = sample_ip 1 1" by code_simp
  then obtain hdr where hdr: "ParseHeader (NetPkgs ?S) rip_datagram = Inr hdr" "IChecksum hdr \<noteq> 0"
    "Src hdr = sample_ip 1 1" by (auto split: sum.splits)
  have b: "rip_inv ?n" "is_destination ?n ?B" "map_of (Handlers ?n) RIPProtocolNum = Some RIPApp" by code_simp+
  have adverts: "filter live (map (advert ?B) (FwdTable rip_a)) = [advert ?B net0_route]" by code_simp
  then have ap: "apart (filter live (map (advert ?B) (FwdTable rip_a)))" by (simp add: apart_def)
  have "\<forall>(e, v) \<in> set (FwdTable ?n). \<not> Contains (EAssignedPrefix e) (RAddress (advert ?B net0_route))" by code_simp
  then have "separate (FwdTable ?n) (advert ?B net0_route)"
    by (auto simp: separate_def dest: map_of_SomeD)
  moreover have only: "advert ?B x = advert ?B net0_route" if "x \<in> set (FwdTable rip_a)" "live (advert ?B x)" for x
  proof -
    have "advert ?B x \<in> set (filter live (map (advert ?B) (FwdTable rip_a)))" using that by simp
    then show ?thesis unfolding adverts by simp
  qed
  ultimately have sep: "\<forall>x \<in> set (FwdTable rip_a). live (advert ?B x) \<longrightarrow> separate (FwdTable ?n) (advert ?B x)"
    by metis
  have "case node_step False ?S rip_b (Datagram rip_datagram) of Inl e \<Rightarrow> False | Inr r \<Rightarrow> True" by code_simp
  then obtain b' effs where step: "node_step False ?S rip_b (Datagram rip_datagram) = Inr (b', effs)"
    by (auto split: sum.splits)
  have x: "net0_route \<in> set (FwdTable rip_a)" "live (advert ?B net0_route)" by code_simp+
  have merge: "dv_merge (Cost (snd net0_route) + 1) (sample_ip 1 1)
      (route_at ?n (fresh_key (advert ?B net0_route))) = (1, Some (sample_ip 1 1))" by code_simp
  from rip_update_reaches_neighbor [OF env(1) refl env(2,3) a out p hdr(1,2) b ap sep step, THEN conjunct1,
      rule_format, OF x] step
  show ?thesis unfolding hdr(3) merge by blast
qed

end
