(* ===== verification/TcpSender.thy ===== *)
theory TcpSender
  imports TcpStream
begin

text \<open>
  The sending side: how \<open>HandleVWrite\<close> cuts what the application wrote into segments, what an
  acknowledgment removes from the retransmission queue, and what becomes of data the network
  refuses or the window has no room for.
\<close>

section \<open>Segmentation\<close>

definition segment_item :: "int \<Rightarrow> TCPPacket \<Rightarrow> TCPSegmentItem" where
  "segment_item now p = \<lparr>Index = 0, Priority = uint (SeqNum (Header p)), Value = p, SentTime = now,
     WasRT = False, IsZWP = False\<rparr>"

text \<open>Packets of the connection \<open>conn\<close> that carry \<open>payload\<close> from sequence number \<open>seq\<close> on, none empty
  or too large.\<close>

fun carries :: "VTCPConn \<Rightarrow> u32 \<Rightarrow> u32 \<Rightarrow> u8 list \<Rightarrow> TCPPacket list \<Rightarrow> bool" where
  "carries conn ack seq payload [] \<longleftrightarrow> payload = []"
| "carries conn ack seq payload (p # ps) \<longleftrightarrow>
     tcp_hdr_ok (Header p) \<and> SrcPort (Header p) = LocalPort conn \<and> DstPort (Header p) = RemotePort conn \<and>
     AckNum (Header p) = ack \<and> Data p \<noteq> [] \<and> length (Data p) \<le> 1024 \<and> Flags (Header p) = TCPFlagAck \<and>
     SeqNum (Header p) = seq \<and> Data p = take (length (Data p)) payload \<and>
     carries conn ack (seq + of_nat (length (Data p))) (drop (length (Data p)) payload) ps"

lemma carries_concat: "carries conn ack seq payload ps \<Longrightarrow> concat (map Data ps) = payload"
proof (induction ps arbitrary: seq payload)
  case (Cons p ps)
  have "Data p = take (length (Data p)) payload"
    "concat (map Data ps) = drop (length (Data p)) payload" using Cons by auto
  then show ?case by (metis append_take_drop_id concat.simps(2) list.simps(9))
qed simp

definition next_seq :: "'b TCPSocket \<Rightarrow> u32" where
  "next_seq s = InitSeqNum s + NumberBytesSent s + 1"

definition next_ack :: "'b TCPSocket \<Rightarrow> u32" where
  "next_ack s = NextExpectedByte s + RemoteISN s"

lemma data_packet_hdr_ok [simp]:
  "tcp_hdr_ok (Header (data_packet E s d))"
  "SrcPort (Header (data_packet E s d)) = LocalPort (SConn s)"
  "DstPort (Header (data_packet E s d)) = RemotePort (SConn s)"
  by (simp_all add: data_packet_def socket_header_def tcp_hdr_ok_def)

lemma LargestAck_sent_segment [simp]: "LargestAck (sent_segment now p k s) = LargestAck s"
  by (simp add: sent_segment_def Let_def)

lemma send_loop_carries:
  assumes net: "net_takes E dst"
  shows "length payload = unat sz \<Longrightarrow> RemoteIP (SConn s) = dst \<Longrightarrow>
    \<exists>ps. carries (SConn s) (next_ack s) (next_seq s) payload ps \<and>
      RTQueue (fst (send_loop E now s payload sz)) = RTQueue s @ map (segment_item now) ps \<and>
      snd (send_loop E now s payload sz) = map (\<lambda>p. Sent dst (MarshalTCP (TPkg E) p)) ps \<and>
      NumberBytesSent (fst (send_loop E now s payload sz)) = NumberBytesSent s + sz \<and>
      WriteBuffer (fst (send_loop E now s payload sz)) = WriteBuffer s \<and>
      NextSequenceNumber (fst (send_loop E now s payload sz)) = NextSequenceNumber s + sz \<and>
      LargestAck (fst (send_loop E now s payload sz)) = LargestAck s \<and>
      ConnState (fst (send_loop E now s payload sz)) = ConnState s"
proof (induction "unat sz" arbitrary: s payload sz rule: less_induct)
  case less
  show ?case
  proof (cases "0 < sz")
    case False
    then have "sz = 0" by (simp add: word_greater_zero_iff)
    then show ?thesis using less.prems by (intro exI [of _ "[]"]) (simp add: send_loop_done)
  next
    case True
    let ?k = "segment_len sz"
    let ?p = "data_packet E s (take ?k payload)"
    let ?s = "sent_segment now ?p (of_nat ?k) s"
    have k: "length (take ?k payload) = ?k" "0 < ?k" "?k \<le> 1024"
      using less.prems(1) segment_len_pos [OF True] by (simp_all add: segment_len_def)
    have "unat (sz - of_nat ?k) < unat sz"
      using k(2) segment_size(3) [OF True] by (simp add: unat_size_minus)
    moreover have "length (drop ?k payload) = unat (sz - of_nat ?k)"
      using less.prems(1) by (simp add: unat_size_minus)
    ultimately obtain ps where ps: "carries (SConn s) (next_ack s) (next_seq ?s) (drop ?k payload) ps"
      "RTQueue (fst (send_loop E now ?s (drop ?k payload) (sz - of_nat ?k))) =
         RTQueue ?s @ map (segment_item now) ps"
      "snd (send_loop E now ?s (drop ?k payload) (sz - of_nat ?k)) =
         map (\<lambda>p. Sent dst (MarshalTCP (TPkg E) p)) ps"
      "NumberBytesSent (fst (send_loop E now ?s (drop ?k payload) (sz - of_nat ?k))) =
         NumberBytesSent ?s + (sz - of_nat ?k)"
      "WriteBuffer (fst (send_loop E now ?s (drop ?k payload) (sz - of_nat ?k))) = WriteBuffer ?s"
      "NextSequenceNumber (fst (send_loop E now ?s (drop ?k payload) (sz - of_nat ?k))) =
         NextSequenceNumber ?s + (sz - of_nat ?k)"
      "LargestAck (fst (send_loop E now ?s (drop ?k payload) (sz - of_nat ?k))) = LargestAck ?s"
      "ConnState (fst (send_loop E now ?s (drop ?k payload) (sz - of_nat ?k))) = ConnState ?s"
      using less.hyps [of "sz - of_nat ?k" "drop ?k payload" ?s] less.prems(2)
      by (auto simp: next_ack_def)
    have "send_segment E dst ?p = ([Sent dst (MarshalTCP (TPkg E) ?p)], None)"
      using k by (intro send_segment_taken [OF net]) simp_all
    then have loop: "send_loop E now s payload sz =
        (fst (send_loop E now ?s (drop ?k payload) (sz - of_nat ?k)),
         Sent dst (MarshalTCP (TPkg E) ?p) #
           snd (send_loop E now ?s (drop ?k payload) (sz - of_nat ?k)))"
      using less.prems(2) by (simp add: send_loop_step [OF True] Let_def)
    have "carries (SConn s) (next_ack s) (next_seq s) payload (?p # ps)"
      using ps(1) k by (auto simp: next_seq_def next_ack_def algebra_simps)
    then show ?thesis
      using ps by (intro exI [of _ "?p # ps"]) (simp add: loop segment_item_def)
  qed
qed

text \<open>How much one turn takes from the write buffer: the whole advertised window.\<close>

definition turn_size :: "'b TCPSocket \<Rightarrow> u8 list \<Rightarrow> nat" where
  "turn_size s written = min (unat (RemoteWindowSize s)) (length written)"

lemma turn_takes:
  assumes rb: "ringbuffer_ok (RPkg E) okb bytes cap" "okb (WriteBuffer s)"
    and data: "bytes (WriteBuffer s) \<noteq> []" and room: "uint (BytesInFlight s) < uint (RemoteWindowSize s)"
  shows "\<exists>s1 sz. HandleVWrite_turn E now s =
      (fst (send_loop E now s1 (take (turn_size s (bytes (WriteBuffer s))) (bytes (WriteBuffer s))) sz),
       snd (send_loop E now s1 (take (turn_size s (bytes (WriteBuffer s))) (bytes (WriteBuffer s))) sz),
       Running) \<and>
    unat sz = turn_size s (bytes (WriteBuffer s)) \<and>
    s1 = s\<lparr>WriteBuffer := WriteBuffer s1\<rparr> \<and>
    bytes (WriteBuffer s1) = drop (turn_size s (bytes (WriteBuffer s))) (bytes (WriteBuffer s))"
proof -
  let ?w = "bytes (WriteBuffer s)"
  define n where "n = turn_size s ?w"
  define sz :: u32 where "sz = word_of_int (min (uint (RemoteWindowSize s))
    (rb_Length (RPkg E) (WriteBuffer s)))"
  have "min (uint (RemoteWindowSize s)) (rb_Length (RPkg E) (WriteBuffer s)) = int n"
    using ringbuffer_laws(3) [OF rb] by (simp add: n_def turn_size_def of_nat_min)
  moreover have n: "n < 65536" "0 < n" "n \<le> length ?w"
  proof -
    have "unat (RemoteWindowSize s) < 65536" using unsigned_less [of "RemoteWindowSize s"] by simp
    then show "n < 65536" by (simp add: n_def turn_size_def)
    have "0 \<le> uint (BytesInFlight s)" by simp
    then have "0 < uint (RemoteWindowSize s)" using room by linarith
    then have "0 < unat (RemoteWindowSize s)" unfolding unat_eq_nat_uint by linarith
    then show "0 < n" using data by (simp add: n_def turn_size_def)
    show "n \<le> length ?w" by (simp add: n_def turn_size_def)
  qed
  ultimately have szn: "sz = word_of_int (int n)" by (simp add: sz_def)
  have sz: "uint sz = int n"
    unfolding szn using n(1) by (simp add: unsigned_of_nat take_bit_nat_eq_self)
  then have sz': "unat sz = n" unfolding unat_eq_nat_uint by linarith
  obtain b' out err where r: "rb_Read (RPkg E) (WriteBuffer s) (uint sz) = (b', out, err)"
    by (metis prod_cases3)
  have rd: "out = take n ?w" "bytes b' = drop n ?w"
    using ringbuffer_read [OF rb _ r] by (simp_all add: sz)
  have pay: "read_payload E s (uint sz) = (s\<lparr>WriteBuffer := b'\<rparr>, take n ?w)"
    using n(3) rd(1) unfolding read_payload_def r by (simp add: sz)
  obtain s2 effs where loop: "send_loop E now (s\<lparr>WriteBuffer := b'\<rparr>) (take n ?w) sz = (s2, effs)"
    by fastforce
  have "sz \<noteq> 0" using sz n(2) by auto
  moreover have "\<not> rb_IsEmpty (RPkg E) (WriteBuffer s)"
    using ringbuffer_laws(2) [OF rb] data by simp
  ultimately have "HandleVWrite_turn E now s = (s2, effs, Running)"
    using room pay loop by (simp add: HandleVWrite_turn_def flip: sz_def)
  then show ?thesis
    using loop rd sz' unfolding n_def [symmetric]
    by (intro exI [of _ "s\<lparr>WriteBuffer := b'\<rparr>"] exI [of _ sz]) simp
qed

lemma turn_sends:
  assumes "ringbuffer_ok (RPkg E) okb bytes cap" "okb (WriteBuffer s)"
    and "bytes (WriteBuffer s) \<noteq> []" and "uint (BytesInFlight s) < uint (RemoteWindowSize s)"
    and "net_takes E (RemoteIP (SConn s))"
    and "HandleVWrite_turn E now s = (s', effs, w)"
    and "n = turn_size s (bytes (WriteBuffer s))"
  shows "\<exists>ps. carries (SConn s) (next_ack s) (next_seq s) (take n (bytes (WriteBuffer s))) ps \<and> ps \<noteq> [] \<and>
    bytes (WriteBuffer s') = drop n (bytes (WriteBuffer s)) \<and>
    effs = map (\<lambda>p. Sent (RemoteIP (SConn s)) (MarshalTCP (TPkg E) p)) ps \<and>
    RTQueue s' = RTQueue s @ map (segment_item now) ps \<and>
    NumberBytesSent s' = NumberBytesSent s + of_nat n \<and>
    NextSequenceNumber s' = NextSequenceNumber s + of_nat n \<and> LargestAck s' = LargestAck s \<and>
    ConnState s' = ConnState s \<and> w = Running"
proof -
  let ?n = n and ?w = "bytes (WriteBuffer s)"
  from turn_takes [where s = s, OF assms(1-4), of now, folded assms(7)] obtain s1 sz where
    turn: "HandleVWrite_turn E now s = (fst (send_loop E now s1 (take ?n ?w) sz),
       snd (send_loop E now s1 (take ?n ?w) sz), Running)"
    and sz: "unat sz = ?n" and s1: "s1 = s\<lparr>WriteBuffer := WriteBuffer s1\<rparr>"
    and rest: "bytes (WriteBuffer s1) = drop ?n ?w" by blast
  have eq: "RTQueue s1 = RTQueue s" "NumberBytesSent s1 = NumberBytesSent s" "next_seq s1 = next_seq s"
      "SConn s1 = SConn s" "next_ack s1 = next_ack s" "NextSequenceNumber s1 = NextSequenceNumber s"
      "LargestAck s1 = LargestAck s" "ConnState s1 = ConnState s"
    by (subst s1, simp add: next_seq_def next_ack_def)+
  have len: "length (take ?n ?w) = unat sz" using sz by (simp add: assms(7) turn_size_def)
  have res: "s' = fst (send_loop E now s1 (take ?n ?w) sz)"
      "effs = snd (send_loop E now s1 (take ?n ?w) sz)" "w = Running"
    using assms(6) turn by simp_all
  have "RemoteIP (SConn s1) = RemoteIP (SConn s)" using eq(4) by simp
  from send_loop_carries [where now = now and s = s1, OF assms(5) len this, unfolded eq, folded res(1,2)]
  obtain ps where
    ps: "carries (SConn s) (next_ack s) (next_seq s) (take ?n ?w) ps"
      "RTQueue s' = RTQueue s @ map (segment_item now) ps"
      "effs = map (\<lambda>p. Sent (RemoteIP (SConn s)) (MarshalTCP (TPkg E) p)) ps"
      "NumberBytesSent s' = NumberBytesSent s + sz" "WriteBuffer s' = WriteBuffer s1"
      "NextSequenceNumber s' = NextSequenceNumber s + sz" "LargestAck s' = LargestAck s"
      "ConnState s' = ConnState s"
    by (elim exE conjE) (rule that; assumption)
  note cat = carries_concat [OF ps(1)]
  have "ps \<noteq> []"
  proof
    assume "ps = []"
    then have "take ?n ?w = []" using cat by simp
    moreover have "0 \<le> uint (BytesInFlight s)" by simp
    then have "0 < uint (RemoteWindowSize s)" using assms(4) by linarith
    then have "0 < unat (RemoteWindowSize s)" unfolding unat_eq_nat_uint by linarith
    ultimately show False using assms(3,7) by (simp add: turn_size_def min_def split: if_splits)
  qed
  moreover have "sz = of_nat n" using sz by (metis of_nat_unat ucast_id)
  ultimately show ?thesis using ps rest res(3) by (intro exI [of _ ps]) simp
qed

text \<open>C17: The sender transmits what the application wrote, in order and complete: when the window has
  room and the network works, a turn takes a prefix of the write buffer, cuts it into packets of
  1 to 1024 bytes with consecutive sequence numbers that carry exactly these bytes, sends each
  once and queues each for retransmission, and counts them; the rest stays in the buffer.\<close>

theorem turn_sends_written_bytes:
  assumes "ringbuffer_ok (RPkg E) okb bytes cap" "okb (WriteBuffer s)"
    and "bytes (WriteBuffer s) \<noteq> []" and "uint (BytesInFlight s) < uint (RemoteWindowSize s)"
    and "net_takes E (RemoteIP (SConn s))"
    and "HandleVWrite_turn E now s = (s', effs, w)"
  shows "\<exists>ps. carries (SConn s) (NextExpectedByte s + RemoteISN s) (InitSeqNum s + NumberBytesSent s + 1)
      (concat (map Data ps)) ps \<and>
    concat (map Data ps) @ bytes (WriteBuffer s') = bytes (WriteBuffer s) \<and> ps \<noteq> [] \<and>
    effs = map (\<lambda>p. Sent (RemoteIP (SConn s)) (MarshalTCP (TPkg E) p)) ps \<and>
    RTQueue s' = RTQueue s @ map (segment_item now) ps \<and>
    NumberBytesSent s' = NumberBytesSent s + of_nat (length (concat (map Data ps))) \<and> w = Running"
proof -
  let ?n = "turn_size s (bytes (WriteBuffer s))" and ?w = "bytes (WriteBuffer s)"
  from turn_sends [where n = ?n, OF assms refl] obtain ps where
    ps: "carries (SConn s) (next_ack s) (next_seq s) (take ?n ?w) ps" "ps \<noteq> []"
      "bytes (WriteBuffer s') = drop ?n ?w"
      "effs = map (\<lambda>p. Sent (RemoteIP (SConn s)) (MarshalTCP (TPkg E) p)) ps"
      "RTQueue s' = RTQueue s @ map (segment_item now) ps"
      "NumberBytesSent s' = NumberBytesSent s + of_nat ?n" "w = Running"
    by (elim exE conjE) (rule that; assumption)
  have "length (take ?n ?w) = ?n" by (simp add: turn_size_def)
  with ps carries_concat [OF ps(1)] show ?thesis
    by (intro exI [of _ ps]) (simp add: next_seq_def next_ack_def)
qed

theorem turn_sends_written_bytes_witness:
  "\<exists>ps. concat (map Data ps) @ snd (WriteBuffer (fst (HandleVWrite_turn sample_env 7 sample_socket)))
     = [1, 2, 3] \<and> carries sample_conn 5001 1001 (concat (map Data ps)) ps"
proof -
  have rb: "ringbuffer_ok (RPkg sample_env) (\<lambda>(c, xs). int (length xs) \<le> c) snd fst"
    using list_rb_ok by (simp add: sample_env_def)
  have start: "(\<lambda>(c, xs). int (length xs) \<le> c) (WriteBuffer sample_socket)"
      "snd (WriteBuffer sample_socket) \<noteq> []"
      "uint (BytesInFlight sample_socket) < uint (RemoteWindowSize sample_socket)" by code_simp+
  have net: "net_takes sample_env (RemoteIP (SConn sample_socket))" by simp
  obtain s' effs w where r: "HandleVWrite_turn sample_env 7 sample_socket = (s', effs, w)"
    by (metis prod_cases3)
  have vals: "snd (WriteBuffer sample_socket) = [1, 2, 3]"
      "InitSeqNum sample_socket + NumberBytesSent sample_socket + 1 = 1001"
      "NextExpectedByte sample_socket + RemoteISN sample_socket = 5001" "SConn sample_socket = sample_conn"
    by code_simp+
  from turn_sends_written_bytes [OF rb start net r] show ?thesis
    unfolding vals r by auto
qed

end
