(* ===== verification/TcpTransfer.thy ===== *)
theory TcpTransfer
  imports TcpSender TcpTeardown
begin

text \<open>
  A sender and a receiver together: a write on one end of a connection the handshake has opened
  reaches the other end and is acknowledged, through the packets' wire form. Then three
  behaviours of the window that the comments of the code rule out.
\<close>

section \<open>Segments in order\<close>

text \<open>A receiver that has \<open>got\<close> so far, with nothing of its own under way.\<close>

definition ready :: "('b \<Rightarrow> bool) \<Rightarrow> ('b \<Rightarrow> u8 list) \<Rightarrow> ('b \<Rightarrow> int) \<Rightarrow> VTCPConn \<Rightarrow> u32 \<Rightarrow> u32 \<Rightarrow> int
    \<Rightarrow> u8 list \<Rightarrow> 'b TCPSocket \<Rightarrow> bool" where
  "ready okb bytes cap conn isn risn room got s \<longleftrightarrow>
     okb (ReadBuffer s) \<and> bytes (ReadBuffer s) = got \<and> cap (ReadBuffer s) = room \<and>
     NextExpectedByte s = 1 + of_nat (length got) \<and> EarlyArrivalQueue s = [] \<and> RTQueue s = [] \<and>
     ConnState s = ESTABLISHED \<and> SConn s = conn \<and> RemoteISN s = risn \<and>
     NextSequenceNumber s = isn + 1 \<and> InitSeqNum s + NumberBytesSent s = isn"

lemma handle_ack_ready:
  assumes "ready okb bytes cap conn isn risn room got s" "AckNum (Header p) \<le> isn + 1"
  shows "\<exists>s1. handle_ack E now s p = (s1, [], False) \<and> ready okb bytes cap conn isn risn room got s1"
proof -
  let ?n = "note_ack s (AckNum (Header p))"
  have "RTQueue ?n = []" using assms(1) by (simp add: ready_def)
  then have l: "ack_loop E now ?n = (?n, False)" by (rule ack_loop_Nil)
  have "ready okb bytes cap conn isn risn room got ?n"
    "ready okb bytes cap conn isn risn room got (?n\<lparr>RTTimer := 0\<rparr>)"
    using assms(1) by (simp_all add: ready_def note_ack_def)
  then show ?thesis
    using handle_ack_eq [OF l] assms by (auto simp: ready_def)
qed

lemma handle_window_ready:
  "ready okb bytes cap conn isn risn room got s \<Longrightarrow>
     ready okb bytes cap conn isn risn room got (fst (handle_window s p))"
  by (simp add: handle_window_def Let_def ready_def)

text \<open>The next segment is stored and answered with the acknowledgment of all that was received.\<close>

lemma next_segment_received:
  assumes rb: "ringbuffer_ok (RPkg E) okb bytes cap" and net: "net_takes E (RemoteIP conn)"
    and r: "ready okb bytes cap conn isn risn room got s"
    and p: "Flags (Header p) = TCPFlagAck" "Data p \<noteq> []" "AckNum (Header p) \<le> isn + 1"
      "SeqNum (Header p) = risn + 1 + of_nat (length got)"
    and fits: "int (length got + length (Data p)) \<le> room"
  shows "\<exists>s' rest. HandleTCPPacket E now s p = (s', rest @ [Sent (RemoteIP conn)
      (MarshalTCP (TPkg E) (ack_packet E s' (risn + 1 + of_nat (length (got @ Data p)))))]) \<and>
    ready okb bytes cap conn isn risn room (got @ Data p) s'"
proof -
  obtain s1 where a: "handle_ack E now s p = (s1, [], False)"
    "ready okb bytes cap conn isn risn room got s1"
    using handle_ack_ready [OF r p(3)] by blast
  obtain s2 e2 where w: "handle_window s1 p = (s2, e2)" by fastforce
  have s2: "ready okb bytes cap conn isn risn room got s2"
    using handle_window_ready [OF a(2), of p] by (simp add: w)
  then have ok: "okb (ReadBuffer s2)" and free: "rb_Free (RPkg E) (ReadBuffer s2) = room - int (length got)"
    using ringbuffer_laws(1) [OF rb] by (simp_all add: ready_def)
  have "int (length (Data p)) \<le> cap (ReadBuffer s2) - int (length (bytes (ReadBuffer s2)))"
    using s2 fits by (simp add: ready_def)
  from WriteSegment_fits [where s = s2, OF rb ok this] obtain b' where
    ws: "WriteSegment E s2 p = s2\<lparr>ReadBuffer := b',
      NextExpectedByte := NextExpectedByte s2 + of_nat (length (Data p))\<rparr>"
    and b': "okb b'" "cap b' = cap (ReadBuffer s2)" "bytes b' = bytes (ReadBuffer s2) @ Data p" by blast
  let ?s3 = "WriteSegment E s2 p"
  have s3: "ready okb bytes cap conn isn risn room (got @ Data p) ?s3"
    using s2 b' by (simp add: ready_def ws algebra_simps)
  then have "drain E ?s3 = (?s3, [])" by (intro drain_stop) (simp add: ready_def)
  moreover have "NextExpectedByte s2 = SeqNum (Header p) - RemoteISN s2"
    using s2 p(4) by (simp add: ready_def)
  ultimately have tx: "receive_text E s2 p = (?s3, [])"
    using fits free by (simp add: receive_text_def Let_def)
  have nxt: "NextExpectedByte ?s3 + RemoteISN ?s3 = risn + 1 + of_nat (length (got @ Data p))"
    and conn: "SConn ?s3 = conn" using s3 by (simp_all add: ready_def algebra_simps)
  have "handle_text E s2 p = (?s3, [Sent (RemoteIP conn) (MarshalTCP (TPkg E)
      (ack_packet E ?s3 (risn + 1 + of_nat (length (got @ Data p)))))])"
    unfolding handle_text_def tx using p(2) by (simp add: nxt conn send_segment_taken [OF net] del: length_append)
  then have "HandleTCPPacket E now s p = (?s3, e2 @ [Sent (RemoteIP conn) (MarshalTCP (TPkg E)
      (ack_packet E ?s3 (risn + 1 + of_nat (length (got @ Data p)))))])"
    using p(1) by (simp add: HandleTCPPacket_def a(1) w)
  then show ?thesis using s3 by blast
qed

text \<open>What one turn of the sender queues is in sequence, the hypothesis of \<open>ack_removes_acknowledged\<close>.\<close>

lemma turn_in_sequence:
  "carries conn ack seq payload ps \<Longrightarrow> uint seq + int (length payload) < 2 ^ 32 \<Longrightarrow>
     in_sequence (map (segment_item now) ps) \<and> (\<forall>p \<in> set ps. uint seq \<le> uint (SeqNum (Header p)))"
proof (induction ps arbitrary: seq payload)
  case (Cons p ps)
  let ?d = "length (Data p)"
  have p: "Data p \<noteq> []" "Flags (Header p) = TCPFlagAck" "SeqNum (Header p) = seq"
      "Data p = take ?d payload" "carries conn ack (seq + of_nat ?d) (drop ?d payload) ps"
    using Cons.prems(1) by simp_all
  have "?d = length (take ?d payload)" using p(4) by simp
  then have len: "?d \<le> length payload" by simp
  then have u: "uint (seq + of_nat ?d) = uint seq + int ?d" using Cons.prems(2) by (intro uint_number) simp
  then have tail: "in_sequence (map (segment_item now) ps)"
    "\<forall>p' \<in> set ps. uint seq + int ?d \<le> uint (SeqNum (Header p'))"
    using Cons.IH [OF p(5)] Cons.prems(2) len by simp_all
  have "length (numbers p) = ?d" using p(2) by (simp add: length_numbers is_fin_def tcp_flags)
  then have "numbers p \<noteq> []" "uint seq + int (length (numbers p)) < 2 ^ 32"
    "\<forall>p' \<in> set ps. uint seq + int (length (numbers p)) \<le> uint (SeqNum (Header p'))"
    using p(1) tail(2) Cons.prems(2) len by auto
  moreover have item: "Priority (segment_item now p) = uint (SeqNum (Header p))" "Value (segment_item now p) = p"
    for p by (simp_all add: segment_item_def)
  ultimately show ?case using tail p(3) by (auto simp: in_sequence_def)
qed (simp add: in_sequence_def)

text \<open>A datagram's payload arrives from \<open>src\<close>; the effects kept are those of the last packet.\<close>

definition arrive :: "'b tcp_env \<Rightarrow> int \<Rightarrow> Addr \<Rightarrow> 'b TCPSocket \<times> tcp_effect list \<Rightarrow> u8 list
    \<Rightarrow> 'b TCPSocket \<times> tcp_effect list" where
  "arrive E now src st raw =
     (case UnmarshalTCPPacket (TPkg E) raw src of
        Inl e \<Rightarrow> st
      | Inr p \<Rightarrow> HandleTCPPacket E now (fst st) p)"

lemma segments_received:
  assumes rb: "ringbuffer_ok (RPkg E) okb bytes cap" and net: "net_takes E (RemoteIP conn)"
    and T: "tcp_pkgs_ok (TPkg E)" and ack: "ack \<le> isn + 1"
  shows "carries c ack (risn + 1 + of_nat (length got)) payload ps \<Longrightarrow> ps \<noteq> [] \<Longrightarrow>
    ready okb bytes cap conn isn risn room got (fst st) \<Longrightarrow>
    int (length got + length payload) \<le> room \<Longrightarrow>
    \<exists>s' rest. foldl (arrive E now src) st (map (MarshalTCP (TPkg E)) ps) =
      (s', rest @ [Sent (RemoteIP conn) (MarshalTCP (TPkg E)
         (ack_packet E s' (risn + 1 + of_nat (length (got @ payload)))))]) \<and>
      ready okb bytes cap conn isn risn room (got @ payload) s'"
proof (induction ps arbitrary: got payload st)
  case (Cons p ps)
  let ?p = "p\<lparr>SrcIP := src\<rparr>"
  have p: "tcp_hdr_ok (Header p)" "AckNum (Header p) = ack" "Data p \<noteq> []"
      "Flags (Header p) = TCPFlagAck" "SeqNum (Header p) = risn + 1 + of_nat (length got)"
      "Data p = take (length (Data p)) payload"
    and tail: "carries c ack (risn + 1 + of_nat (length got) + of_nat (length (Data p)))
      (drop (length (Data p)) payload) ps"
    using Cons.prems(1) by simp_all
  have split: "payload = Data p @ drop (length (Data p)) payload"
    by (subst p(6)) (simp only: append_take_drop_id)
  have "length payload = length (Data p) + length (drop (length (Data p)) payload)"
    by (subst split) simp
  then have fits: "int (length got + length (Data ?p)) \<le> room"
    "int (length (got @ Data p) + length (drop (length (Data p)) payload)) \<le> room"
    using Cons.prems(4) by simp_all
  have un: "UnmarshalTCPPacket (TPkg E) (MarshalTCP (TPkg E) p) src = Inr ?p"
    by (rule Unmarshal_MarshalTCP [OF T p(1)])
  have hp: "Flags (Header ?p) = TCPFlagAck" "Data ?p \<noteq> []" "AckNum (Header ?p) \<le> isn + 1"
      "SeqNum (Header ?p) = risn + 1 + of_nat (length got)" using p ack by simp_all
  from next_segment_received [where now = now, OF rb net Cons.prems(3) hp fits(1)]
  obtain s1 rest where s1: "HandleTCPPacket E now (fst st) ?p = (s1, rest @ [Sent (RemoteIP conn)
      (MarshalTCP (TPkg E) (ack_packet E s1 (risn + 1 + of_nat (length (got @ Data p)))))])"
    "ready okb bytes cap conn isn risn room (got @ Data p) s1" by auto
  have step: "arrive E now src st (MarshalTCP (TPkg E) p) = (s1, rest @ [Sent (RemoteIP conn)
      (MarshalTCP (TPkg E) (ack_packet E s1 (risn + 1 + of_nat (length (got @ Data p)))))])"
    by (simp add: arrive_def un s1(1))
  show ?case
  proof (cases "ps = []")
    case True
    then have "payload = Data p" using tail split by simp
    then show ?thesis using True s1(2) step by auto
  next
    case False
    have "carries c ack (risn + 1 + of_nat (length (got @ Data p))) (drop (length (Data p)) payload) ps"
      using tail by (simp add: algebra_simps)
    from Cons.IH [OF this False, of "arrive E now src st (MarshalTCP (TPkg E) p)"] s1(2) fits(2)
    show ?thesis unfolding step by (simp add: step split [symmetric])
  qed
qed simp

section \<open>From one application to the other\<close>

lemma uint_of_nat_u32: "int n < 2 ^ 32 \<Longrightarrow> uint (of_nat n :: u32) = int n"
  by (simp add: unsigned_of_nat take_bit_nat_eq_self)

lemma uint_nonneg: "0 \<le> uint w"
  by simp

text \<open>The sender's last segment ends where its payload ends.\<close>

lemma carries_bound:
  assumes "carries c ack seq payload ps" "uint seq + int (length payload) < 2 ^ 32" "p \<in> set ps"
  shows "uint (SeqNum (Header p)) + int (length (Data p)) \<le> uint seq + int (length payload)"
  using assms
proof (induction ps arbitrary: seq payload)
  case (Cons q ps)
  let ?l = "length (Data q)"
  have q: "SeqNum (Header q) = seq" "Data q = take ?l payload"
    "carries c ack (seq + of_nat ?l) (drop ?l payload) ps" using Cons.prems(1) by simp_all
  have le: "?l \<le> length payload" using arg_cong [OF q(2), of length] by simp
  have "uint (of_nat ?l :: u32) = int ?l"
    using le Cons.prems(2) uint_nonneg [of seq] by (intro uint_of_nat_u32) linarith
  then have seq: "uint (seq + of_nat ?l) = uint seq + int ?l"
    using le Cons.prems(2) by (subst uint_add_lem [THEN iffD1]) simp_all
  show ?case
  proof (cases "p = q")
    case True
    then show ?thesis using q(1) le by simp
  next
    case False
    then have "p \<in> set ps" using Cons.prems(3) by simp
    from Cons.IH [OF q(3) _ this] show ?thesis using seq le Cons.prems(2) by simp
  qed
qed simp

lemma ack_empties_queue:
  assumes inv: "sock_inv s" "flight_inv s" "\<not> ZWPMode s" and st: "ConnState s = ESTABLISHED"
    and q: "RTQueue s = map (segment_item now) ps" "carries c a seq payload ps" "payload \<noteq> []"
    and seq: "uint seq + int (length payload) < 2 ^ 32"
    and snd: "NextSequenceNumber s = seq + of_nat (length payload)" "LargestAck s \<le> seq"
    and p: "Flags (Header p) = TCPFlagAck" "AckNum (Header p) = seq + of_nat (length payload)"
  shows "RTQueue (fst (HandleTCPPacket E now' s p)) = [] \<and>
    BytesInFlight (fst (HandleTCPPacket E now' s p)) = 0"
proof -
  have "uint (of_nat (length payload) :: u32) = int (length payload)"
    using seq uint_nonneg [of seq] by (intro uint_of_nat_u32) linarith
  then have ack: "uint (seq + of_nat (length payload)) = uint seq + int (length payload)"
    using seq by (subst uint_add_lem [THEN iffD1]) simp_all
  have "0 < length payload" using q(3) by simp
  then have lt: "LargestAck s < AckNum (Header p)" using snd(2) ack
    unfolding p(2) word_less_def word_le_def by linarith
  have le: "AckNum (Header p) \<le> NextSequenceNumber s" by (simp add: p(2) snd(1))
  have live: "ConnState s \<noteq> LAST_ACK" using st by simp
  have "\<forall>it \<in> set (RTQueue s). Priority it + int (length (Data (Value it))) \<le> uint (AckNum (Header p))"
    using carries_bound [OF q(2) seq] by (auto simp: q(1) p(2) ack segment_item_def)
  then have "dropWhile (\<lambda>it. Priority it + int (length (Data (Value it))) \<le>
      uint (AckNum (Header p))) (RTQueue s) = []" by simp
  with ack_removes [OF inv(1,2) p(1) lt le live surjective_pairing, of E now'] inv(3)
  show ?thesis by simp
qed

text \<open>One turn of the sender puts everything that was written into packets of its connection.\<close>

lemma opened_turn:
  assumes "net_takes E (RemoteIP conn)" "ringbuffer_ok (RPkg E) okb bytes cap" "opened conn isn risn s"
    and "okb (WriteBuffer s)" "bytes (WriteBuffer s) = data" "data \<noteq> []" "length data \<le> 65535"
  shows "\<exists>s' ps. HandleVWrite_turn E now s =
      (s', map (Sent (RemoteIP conn)) (map (MarshalTCP (TPkg E)) ps), Running) \<and> ps \<noteq> [] \<and>
    carries conn (risn + 1) (isn + 1) data ps \<and> RTQueue s' = map (segment_item now) ps \<and>
    NextSequenceNumber s' = isn + 1 + of_nat (length data) \<and> LargestAck s' \<le> isn + 1 \<and>
    ConnState s' = ESTABLISHED \<and> sock_inv s' \<and> flight_inv s' \<and> \<not> ZWPMode s'"
proof -
  have s: "RemoteWindowSize s = 65535" "RTQueue s = []" "ConnState s = ESTABLISHED" "SConn s = conn"
      "InitSeqNum s = isn" "NumberBytesSent s = 0" "NextSequenceNumber s = isn + 1"
      "NextExpectedByte s = 1" "RemoteISN s = risn" "LargestAck s \<le> isn + 1"
      "sock_inv s" "flight_inv s" "\<not> ZWPMode s" using assms(3) by (simp_all add: opened_def)
  have "BytesInFlight s = 0" using s(2,12,13) by (simp add: flight_inv_def)
  then have room: "uint (BytesInFlight s) < uint (RemoteWindowSize s)" by (simp add: s(1))
  have n: "length data = turn_size s (bytes (WriteBuffer s))"
    using assms(7) by (simp add: turn_size_def s(1) assms(5))
  obtain s' effs w where turn: "HandleVWrite_turn E now s = (s', effs, w)" by (metis prod_cases3)
  have ne: "bytes (WriteBuffer s) \<noteq> []" and net: "net_takes E (RemoteIP (SConn s))"
    using assms(1,5,6) s(4) by simp_all
  from turn_sends [OF assms(2,4) ne room net turn n] obtain ps where
    ps: "carries (SConn s) (next_ack s) (next_seq s) (take (length data) (bytes (WriteBuffer s))) ps"
      "ps \<noteq> []" "effs = map (\<lambda>p. Sent (RemoteIP (SConn s)) (MarshalTCP (TPkg E) p)) ps"
      "RTQueue s' = RTQueue s @ map (segment_item now) ps"
      "NextSequenceNumber s' = NextSequenceNumber s + of_nat (length data)"
      "LargestAck s' = LargestAck s" "ConnState s' = ConnState s" "w = Running"
    by (elim exE conjE) (rule that; assumption)
  have "carries conn (risn + 1) (isn + 1) data ps"
    using ps(1) by (simp add: next_ack_def next_seq_def s(4,5,6,8,9) assms(5) add.commute)
  moreover have "sock_inv s'" "flight_inv s'" "\<not> ZWPMode s'"
    using HandleVWrite_turn_inv [OF s(11-13) turn] ps(8) by simp_all
  ultimately show ?thesis
    using ps s turn by (intro exI [of _ s'] exI [of _ ps]) (simp add: comp_def)
qed

text \<open>The acknowledgment of everything, on the wire, empties the sender's queue.\<close>

lemma ack_arrives:
  assumes T: "tcp_pkgs_ok (TPkg E)"
    and s: "sock_inv s" "flight_inv s" "\<not> ZWPMode s" "ConnState s = ESTABLISHED"
    and q: "RTQueue s = map (segment_item now) ps" "carries c a seq payload ps" "payload \<noteq> []"
    and seq: "uint seq + int (length payload) < 2 ^ 32"
    and snd: "NextSequenceNumber s = seq + of_nat (length payload)" "LargestAck s \<le> seq"
  shows "RTQueue (fst (arrive E now' src (s, e)
      (MarshalTCP (TPkg E) (ack_packet E' r (seq + of_nat (length payload)))))) = [] \<and>
    BytesInFlight (fst (arrive E now' src (s, e)
      (MarshalTCP (TPkg E) (ack_packet E' r (seq + of_nat (length payload)))))) = 0"
proof -
  let ?ack = "ack_packet E' r (seq + of_nat (length payload))"
  have hdr: "Flags (Header (?ack\<lparr>SrcIP := src\<rparr>)) = TCPFlagAck"
      "AckNum (Header (?ack\<lparr>SrcIP := src\<rparr>)) = seq + of_nat (length payload)"
    by (simp_all add: ack_packet_def socket_header_def)
  have "tcp_hdr_ok (Header ?ack)" by simp
  from Unmarshal_MarshalTCP [OF T this] ack_empties_queue [OF s q seq snd hdr]
  show ?thesis by (simp add: arrive_def)
qed

text \<open>C1: What is written arrives. On a connection as the handshake leaves it, let the application
  have written data that fit the window and the peer's buffer. One turn of the sender puts them
  into packets; when these arrive in order, the peer's read buffer holds exactly the data, and
  the last acknowledgment it sends, back at the sender, empties the retransmission queue. (The
  initial sequence number must leave room for the data below 2^32: the code compares sequence
  numbers as plain integers.)\<close>

theorem write_reaches_peer:
  assumes "tcp_pkgs_ok T" "TPkg EA = T" "TPkg EB = T"
    and "net_takes EA (RemoteIP conn)" "net_takes EB (LocalIP conn)"
    and "ringbuffer_ok (RPkg EA) okA bytesA capA" "ringbuffer_ok (RPkg EB) okB bytesB capB"
    and "opened conn isnA isnB s" "opened (mirror conn) isnB isnA r"
    and "okA (WriteBuffer s)" "bytesA (WriteBuffer s) = data" "data \<noteq> []"
    and "okB (ReadBuffer r)" "bytesB (ReadBuffer r) = []"
    and "length data \<le> 65535" "int (length data) \<le> capB (ReadBuffer r)"
    and "uint isnA + 1 + int (length data) < 2 ^ 32"
  shows "\<exists>raws s' r' rest ack.
    HandleVWrite_turn EA now s = (s', map (Sent (RemoteIP conn)) raws, Running) \<and>
    foldl (arrive EB now (LocalIP conn)) (r, []) raws = (r', rest @ [Sent (LocalIP conn) ack]) \<and>
    bytesB (ReadBuffer r') = data \<and>
    RTQueue (fst (arrive EA now (RemoteIP conn) (s', []) ack)) = [] \<and>
    BytesInFlight (fst (arrive EA now (RemoteIP conn) (s', []) ack)) = 0"
proof -
  let ?m = "mirror conn" and ?room = "capB (ReadBuffer r)"
  obtain s' ps where turn: "HandleVWrite_turn EA now s =
      (s', map (Sent (RemoteIP conn)) (map (MarshalTCP T) ps), Running)" "ps \<noteq> []"
    and ps: "carries conn (isnB + 1) (isnA + 1) data ps" "RTQueue s' = map (segment_item now) ps"
    and s': "NextSequenceNumber s' = isnA + 1 + of_nat (length data)" "LargestAck s' \<le> isnA + 1"
      "ConnState s' = ESTABLISHED" "sock_inv s'" "flight_inv s'" "\<not> ZWPMode s'"
    using opened_turn [where now = now, OF assms(4,6,8,10,11,12,15), unfolded assms(2)]
    by (elim exE conjE) (rule that; assumption)
  have ready: "ready okB bytesB capB ?m isnB isnA ?room [] (fst (r, []))"
    using assms(9,13,14) by (simp add: opened_def ready_def)
  have netB: "net_takes EB (RemoteIP ?m)" using assms(5) by (simp add: mirror_def)
  have TB: "tcp_pkgs_ok (TPkg EB)" and TA: "tcp_pkgs_ok (TPkg EA)" using assms(1-3) by simp_all
  from segments_received [where now = now and src = "LocalIP conn" and got = "[]",
      OF assms(7) netB TB order_refl _ turn(2) ready, of conn data] ps(1) assms(16)
  obtain r' rest where r': "foldl (arrive EB now (LocalIP conn)) (r, []) (map (MarshalTCP T) ps) =
      (r', rest @ [Sent (RemoteIP ?m) (MarshalTCP T (ack_packet EB r' (isnA + 1 + of_nat (length data))))])"
    "ready okB bytesB capB ?m isnB isnA ?room data r'"
    by (auto simp: assms(3))
  have "uint (isnA + 1) = uint isnA + 1"
    using assms(17) by (subst uint_add_lem [THEN iffD1]) simp_all
  then have bound: "uint (isnA + 1) + int (length data) < 2 ^ 32" using assms(17) by simp
  note acked = ack_arrives [OF TA s'(4-6,3) ps(2,1) assms(12) bound s'(1,2), unfolded assms(2)]
  have "bytesB (ReadBuffer r') = data" using r'(2) by (simp add: ready_def)
  moreover have "RemoteIP ?m = LocalIP conn" by (simp add: mirror_def)
  ultimately show ?thesis
    using turn(1) r'(1) acked
    by (intro exI [of _ "map (MarshalTCP T) ps"] exI [of _ s'] exI [of _ r'] exI [of _ rest]
        exI [of _ "MarshalTCP T (ack_packet EB r' (isnA + 1 + of_nat (length data)))"]) simp
qed

text \<open>The two ends of the sample connection.\<close>

definition sample_writer :: "(int \<times> u8 list) TCPSocket" where
  "sample_writer = sample_socket\<lparr>RemoteWindowSize := 65535\<rparr>"

definition sample_reader :: "(int \<times> u8 list) TCPSocket" where
  "sample_reader = (MakeTCPSocket list_rb 1 5000 ESTABLISHED (mirror sample_conn) 1000)
     \<lparr>NextExpectedByte := 1, RemoteWindowSize := 65535\<rparr>"

theorem write_reaches_peer_witness:
  "\<exists>raws s'. HandleVWrite_turn sample_env 7 sample_writer =
       (s', map (Sent (sample_ip 1 2)) raws, Running) \<and>
     snd (ReadBuffer (fst (foldl (arrive sample_env 7 (sample_ip 0 1)) (sample_reader, []) raws))) =
       [1, 2, 3]"
proof -
  let ?ok = "\<lambda>(c :: int, xs :: u8 list). int (length xs) \<le> c"
  have pk: "tcp_pkgs_ok wire_tcp" "TPkg sample_env = wire_tcp"
    by (simp_all add: wire_tcp_ok sample_env_def)
  have net: "\<And>dst. net_takes sample_env dst" by simp
  have rb: "ringbuffer_ok (RPkg sample_env) ?ok snd fst"
    using list_rb_ok by (simp add: sample_env_def)
  have ends: "opened sample_conn 1000 5000 sample_writer"
      "opened (mirror sample_conn) 5000 1000 sample_reader"
    by (simp_all add: opened_def sample_writer_def sample_socket_def sample_reader_def MakeTCPSocket_def
        sock_inv_def flight_inv_def heap_upto_def RTOMin_def RTOMax_def)
  have start: "?ok (WriteBuffer sample_writer)" "snd (WriteBuffer sample_writer) = [1, 2, 3]"
      "[1, 2, 3] \<noteq> ([] :: u8 list)" "?ok (ReadBuffer sample_reader)"
      "snd (ReadBuffer sample_reader) = []" "length ([1, 2, 3] :: u8 list) \<le> 65535"
      "int (length ([1, 2, 3] :: u8 list)) \<le> fst (ReadBuffer sample_reader)"
      "uint (1000 :: u32) + 1 + int (length ([1, 2, 3] :: u8 list)) < 2 ^ 32"
    by (simp_all add: sample_writer_def sample_socket_def sample_reader_def MakeTCPSocket_def
        list_rb_def MaxBufferSize_def)
  have ip: "LocalIP sample_conn = sample_ip 0 1" "RemoteIP sample_conn = sample_ip 1 2"
    by (simp_all add: sample_conn_def)
  from write_reaches_peer [where now = 7, OF pk(1,2,2) net net rb rb ends start]
  show ?thesis unfolding ip by (elim exE conjE) (rule exI, rule exI, rule conjI, assumption, simp)
qed

section \<open>Flow control\<close>

lemma drop_acked_window [simp]:
  "RemoteWindowSize (drop_acked E now it q s) = RemoteWindowSize s"
  "LastSegmentSequenceNumber (drop_acked E now it q s) = LastSegmentSequenceNumber s"
  by (simp_all add: drop_acked_def update_RTO_def Let_def)

lemma ack_loop_window:
  "RemoteWindowSize (fst (ack_loop E now s)) = RemoteWindowSize s \<and>
   LastSegmentSequenceNumber (fst (ack_loop E now s)) = LastSegmentSequenceNumber s"
proof (induction "RTQueue s" arbitrary: s)
  case Nil
  then show ?case by (simp add: ack_loop_Nil)
next
  case (Cons it q)
  have q: "RTQueue s = it # q" using Cons.hyps(2) by simp
  show ?case
    using Cons.hyps(1) [of "drop_acked E now it q s"] by (simp add: ack_loop_Cons [OF q])
qed

text \<open>What a segment older than the last window update leaves alone.\<close>

definition frozen :: "u32 \<Rightarrow> u32 \<Rightarrow> u16 \<Rightarrow> 'b TCPSocket \<Rightarrow> bool" where
  "frozen risn l w s \<longleftrightarrow> RemoteISN s = risn \<and> LastSegmentSequenceNumber s = l \<and>
     RemoteWindowSize s = w \<and> sock_inv s \<and> flight_inv s"

lemma old_segment_keeps_window:
  assumes "frozen risn l w s" "SeqNum (Header p) - risn < l"
  shows "frozen risn l w (fst (HandleTCPPacket E now s p))"
proof -
  have f: "RemoteISN s = risn" "LastSegmentSequenceNumber s = l" "RemoteWindowSize s = w"
      "sock_inv s" "flight_inv s" using assms(1) by (simp_all add: frozen_def)
  have inv: "sock_inv (fst (HandleTCPPacket E now s p))" "flight_inv (fst (HandleTCPPacket E now s p))"
    using HandleTCPPacket_inv [OF f(4,5) surjective_pairing, of E now p] by simp_all
  show ?thesis
  proof (cases "Flags (Header p) = TCPFlagAck")
    case True
    obtain s3 b where l: "ack_loop E now (note_ack s (AckNum (Header p))) = (s3, b)" by fastforce
    obtain s1 e1 b1 where a: "handle_ack E now s p = (s1, e1, b1)" by (metis prod_cases3)
    have r1: "receiver s1 = receiver s" using handle_ack_receiver [of E now s p] by (simp add: a)
    have "RemoteWindowSize s3 = w" "LastSegmentSequenceNumber s3 = l"
      using ack_loop_window [of E now "note_ack s (AckNum (Header p))"] f(2,3) l
      by (simp_all add: note_ack_def split: if_splits)
    then have s1: "RemoteWindowSize s1 = w" "LastSegmentSequenceNumber s1 = l" "RemoteISN s1 = risn"
      using a f r1 by (auto simp: handle_ack_eq [OF l] receiver_def split: if_splits)
    then have w: "handle_window s1 p = (s1, [])"
      using assms(2) by (auto simp: handle_window_def Let_def)
    have "heap_ok (EarlyArrivalQueue s1)" using r1 f(4) by (simp add: receiver_def sock_inv_def)
    from handle_text_frame [OF this, of E p] s1
    have "RemoteWindowSize (fst (handle_text E s1 p)) = w"
      "LastSegmentSequenceNumber (fst (handle_text E s1 p)) = l"
      "RemoteISN (fst (handle_text E s1 p)) = risn" by (simp_all add: same_sender_def)
    then show ?thesis
      using True s1 inv by (auto simp: frozen_def HandleTCPPacket_def a w split: prod.splits if_splits)
  next
    case False
    have "heap_ok (EarlyArrivalQueue s)" using f(4) by (simp add: sock_inv_def)
    from handle_fin_frame [OF this, of E p] f(1-3)
    show ?thesis using False inv assms(1) by (simp add: frozen_def HandleTCPPacket_def same_sender_def)
  qed
qed

text \<open>A connection opened by \<open>VAccept\<close> ignores the peer's window. Its \<open>LastSegmentSequenceNumber\<close>
  starts as the peer's absolute initial number but is compared with relative numbers: until the
  peer's stream is as long as that number, no packet whatever changes \<open>RemoteWindowSize\<close>,
  not even one that closes the window.\<close>

theorem accepted_window_frozen:
  assumes "s = (MakeTCPSocket R i isn st conn risn)
      \<lparr>NextExpectedByte := 1, ConnState := ESTABLISHED, RemoteWindowSize := w\<rparr>"
    and "\<And>now p. (now, p) \<in> set arrivals \<Longrightarrow> SeqNum (Header p) - risn < risn"
  shows "RemoteWindowSize (foldl (\<lambda>s (now, p). fst (HandleTCPPacket E now s p)) s arrivals) = w"
proof -
  have "frozen risn risn w s"
    by (simp add: assms(1) frozen_def MakeTCPSocket_def sock_inv_def flight_inv_def RTOMin_def
        RTOMax_def heap_upto_def)
  then have "frozen risn risn w (foldl (\<lambda>s (now, p). fst (HandleTCPPacket E now s p)) s arrivals)"
    using assms(2)
  proof (induction arrivals arbitrary: s)
    case (Cons x xs)
    obtain now p where x: "x = (now, p)" by fastforce
    have "SeqNum (Header p) - risn < risn" using Cons.prems(2) [of now p] x by simp
    from Cons.IH [OF old_segment_keeps_window [OF Cons.prems(1) this]] Cons.prems(2) show ?case by (auto simp: x)
  qed simp
  then show ?thesis by (simp add: frozen_def)
qed

theorem accepted_window_frozen_witness:
  "RemoteWindowSize (fst (HandleTCPPacket sample_env 1 ((MakeTCPSocket list_rb 0 9 SYN_SENT sample_conn
       5000)\<lparr>NextExpectedByte := 1, ConnState := ESTABLISHED, RemoteWindowSize := 100\<rparr>)
       ((sample_ack 10)\<lparr>Header := (Header (sample_ack 10))\<lparr>WindowSize := 0\<rparr>\<rparr>))) = 100"
proof -
  let ?p = "(sample_ack 10)\<lparr>Header := (Header (sample_ack 10))\<lparr>WindowSize := 0\<rparr>\<rparr>"
  have "SeqNum (Header p) - 5000 < 5000" if "(now, p) \<in> set [(1 :: int, ?p)]" for now p
    using that by (simp add: sample_ack_def)
  from accepted_window_frozen [where arrivals = "[(1 :: int, ?p)]" and E = sample_env, OF refl this]
  show ?thesis by simp
qed

lemma data_bytes_segments:
  "data_bytes (q @ map (segment_item now) ps) = data_bytes q + length (concat (map Data ps))"
  by (induction ps) (simp_all add: data_bytes_def segment_item_def)

text \<open>The sender does not subtract what is in flight. The comment on the turn says the amount to send
  is the window minus the bytes in flight; the code only asks whether that is positive and then
  sends up to a whole window: with data in flight and a full buffer, more is outstanding after
  the turn than the peer has room for.\<close>

theorem turn_overruns_window:
  assumes "ringbuffer_ok (RPkg E) okb bytes cap" "okb (WriteBuffer s)"
    and "uint (BytesInFlight s) < uint (RemoteWindowSize s)"
    and "net_takes E (RemoteIP (SConn s))"
    and "0 < sum_list (map (\<lambda>it. length (Data (Value it))) (RTQueue s))"
    and "unat (RemoteWindowSize s) \<le> length (bytes (WriteBuffer s))"
    and "HandleVWrite_turn E now s = (s', effs, w)"
  shows "unat (RemoteWindowSize s) < sum_list (map (\<lambda>it. length (Data (Value it))) (RTQueue s'))"
proof -
  have "0 < uint (RemoteWindowSize s)" using assms(3) uint_nonneg [of "BytesInFlight s"] by linarith
  then have w: "0 < unat (RemoteWindowSize s)" unfolding unat_eq_nat_uint by linarith
  then have ne: "bytes (WriteBuffer s) \<noteq> []" using assms(6) by auto
  have n: "unat (RemoteWindowSize s) = turn_size s (bytes (WriteBuffer s))"
    using assms(6) by (simp add: turn_size_def)
  from turn_sends [OF assms(1,2) ne assms(3,4,7) n] obtain ps where
    ps: "carries (SConn s) (next_ack s) (next_seq s) (take (unat (RemoteWindowSize s)) (bytes (WriteBuffer s))) ps"
      "RTQueue s' = RTQueue s @ map (segment_item now) ps" by blast
  have "data_bytes (RTQueue s') = data_bytes (RTQueue s) + unat (RemoteWindowSize s)"
    using carries_concat [OF ps(1)] assms(6) by (simp add: ps(2) data_bytes_segments)
  then show ?thesis using assms(5) by (simp add: data_bytes_def)
qed

text \<open>A window of four bytes, three of them in flight, and four more to send.\<close>

definition busy_socket :: "(int \<times> u8 list) TCPSocket" where
  "busy_socket = sample_sent\<lparr>RemoteWindowSize := 4, WriteBuffer := (65535, [4, 5, 6, 7])\<rparr>"

theorem turn_overruns_window_witness:
  "4 < sum_list (map (\<lambda>it. length (Data (Value it)))
     (RTQueue (fst (HandleVWrite_turn sample_env 8 busy_socket))))"
proof -
  have rb: "ringbuffer_ok (RPkg sample_env) (\<lambda>(c, xs). int (length xs) \<le> c) snd fst"
    using list_rb_ok by (simp add: sample_env_def)
  have ok: "(\<lambda>(c, xs). int (length xs) \<le> c) (WriteBuffer busy_socket)"
      "uint (BytesInFlight busy_socket) < uint (RemoteWindowSize busy_socket)" by code_simp+
  have net: "net_takes sample_env (RemoteIP (SConn busy_socket))" by simp
  have full: "0 < sum_list (map (\<lambda>it. length (Data (Value it))) (RTQueue busy_socket))"
      "unat (RemoteWindowSize busy_socket) \<le> length (snd (WriteBuffer busy_socket))" by code_simp+
  have "unat (RemoteWindowSize busy_socket) = 4" by code_simp
  moreover obtain s' effs w where r: "HandleVWrite_turn sample_env 8 busy_socket = (s', effs, w)"
    by (metis prod_cases3)
  ultimately show ?thesis using turn_overruns_window [OF rb ok net full r] by (simp add: r)
qed

section \<open>Data the code gives up\<close>

lemma send_loop_fails:
  assumes "Net E (RemoteIP (SConn s)) = (\<lambda>data. Some e)"
  shows "send_loop E now s payload sz = (s, [])"
proof (cases "0 < sz")
  case True
  then show ?thesis using assms by (simp add: send_loop_step send_segment_def Let_def)
next
  case False
  then have "sz = 0" by (simp add: word_greater_zero_iff)
  then show ?thesis by (simp add: send_loop_done)
qed

text \<open>Data are lost when the network refuses a packet. \<open>HandleVWrite\<close> takes a window's worth of bytes
  out of the write buffer before it sends; when \<open>SendIP\<close> fails (no route, an interface that
  is down) the loop is left, the bytes are in no buffer and no queue, and they are not counted:
  the next bytes written take their sequence numbers.\<close>

theorem refused_send_loses_data:
  assumes "ringbuffer_ok (RPkg E) okb bytes cap" "okb (WriteBuffer s)"
    and "bytes (WriteBuffer s) \<noteq> []" and "uint (BytesInFlight s) < uint (RemoteWindowSize s)"
    and "Net E (RemoteIP (SConn s)) = (\<lambda>data. Some e)"
    and "HandleVWrite_turn E now s = (s', effs, w)"
  shows "effs = [] \<and> s' = s\<lparr>WriteBuffer := WriteBuffer s'\<rparr> \<and>
    bytes (WriteBuffer s') = drop (unat (RemoteWindowSize s)) (bytes (WriteBuffer s))"
proof -
  from turn_takes [where s = s, OF assms(1-4), of now] obtain s1 sz where
    turn: "HandleVWrite_turn E now s = (fst (send_loop E now s1
         (take (turn_size s (bytes (WriteBuffer s))) (bytes (WriteBuffer s))) sz),
       snd (send_loop E now s1 (take (turn_size s (bytes (WriteBuffer s))) (bytes (WriteBuffer s))) sz),
       Running)"
    and s1: "s1 = s\<lparr>WriteBuffer := WriteBuffer s1\<rparr>"
    and rest: "bytes (WriteBuffer s1) = drop (turn_size s (bytes (WriteBuffer s))) (bytes (WriteBuffer s))"
    by blast
  have "SConn s1 = SConn s" by (subst s1) simp
  then have "Net E (RemoteIP (SConn s1)) = (\<lambda>data. Some e)" using assms(5) by simp
  from send_loop_fails [OF this] turn assms(6) have "s' = s1" "effs = []" by simp_all
  moreover have "drop (turn_size s (bytes (WriteBuffer s))) (bytes (WriteBuffer s)) =
      drop (unat (RemoteWindowSize s)) (bytes (WriteBuffer s))"
    by (simp add: turn_size_def min_def)
  ultimately show ?thesis using s1 rest by simp
qed

theorem refused_send_loses_data_witness:
  "\<exists>s' effs w. HandleVWrite_turn (sample_env\<lparr>Net := \<lambda>dst data. Some (Error ''interface is down'')\<rparr>) 7
       sample_socket = (s', effs, w) \<and> effs = [] \<and> snd (WriteBuffer s') = []"
proof -
  let ?E = "sample_env\<lparr>Net := \<lambda>dst data. Some (Error ''interface is down'')\<rparr>"
  have rb: "ringbuffer_ok (RPkg ?E) (\<lambda>(c, xs). int (length xs) \<le> c) snd fst"
    using list_rb_ok by (simp add: sample_env_def)
  have start: "(\<lambda>(c, xs). int (length xs) \<le> c) (WriteBuffer sample_socket)"
      "snd (WriteBuffer sample_socket) \<noteq> []"
      "uint (BytesInFlight sample_socket) < uint (RemoteWindowSize sample_socket)" by code_simp+
  have net: "Net ?E (RemoteIP (SConn sample_socket)) = (\<lambda>data. Some (Error ''interface is down''))"
    by simp
  obtain s' effs w where r: "HandleVWrite_turn ?E 7 sample_socket = (s', effs, w)"
    by (metis prod_cases3)
  have "drop (unat (RemoteWindowSize sample_socket)) (snd (WriteBuffer sample_socket)) = []" by code_simp
  with refused_send_loses_data [OF rb start net r] r show ?thesis by auto
qed

text \<open>The stream 1, 2, 3, 4, 5, 6 in three segments; the second comes twice and before the first.\<close>

definition duplicate_events :: "recv_event list" where
  "duplicate_events =
     [Arrive 1 (sample_segment 3 [3, 4]), Arrive 2 (sample_segment 3 [3, 4]),
      Arrive 3 (sample_segment 5 [5, 6]), Arrive 4 (sample_segment 1 [1, 2])]"

text \<open>A segment that arrives early twice blocks the early-arrival queue. The second copy is below the
  next expected byte when the queue is emptied, is never removed, and the segments behind it are
  not delivered although the stream is complete up to them; they must be sent again, and even then
  both entries stay in the queue.\<close>

theorem duplicate_blocks_early_queue:
  "snd (ReadBuffer (fst (foldl (recv_step sample_env) (sample_socket, []) duplicate_events))) =
     [1, 2, 3, 4] \<and>
   map Priority (EarlyArrivalQueue (fst (foldl (recv_step sample_env) (sample_socket, [])
     duplicate_events))) = [3, 5] \<and>
   map Priority (EarlyArrivalQueue (fst (foldl (recv_step sample_env) (sample_socket, [])
     (duplicate_events @ [Arrive 5 (sample_segment 5 [5, 6])])))) = [3, 5]"
  by (intro conjI) code_simp+

end
