(* ===== verification/TcpOverIp.thy ===== *)
theory TcpOverIp
  imports Programs TcpTransfer
begin

text \<open>
  TCP over the stack below it: a segment that one host's socket sends leaves in a datagram, routers
  forward it, and the other host's handler gives it to the socket of the same connection. On top of
  that, text typed with \<open>s\<close> at one prompt is what \<open>r\<close> prints at the other.
\<close>

section \<open>A segment on its way\<close>

text \<open>The datagram in which a node sends \<open>raw\<close> to \<open>dst\<close>, if it does.\<close>

definition segment_datagram :: "'b shell_env \<Rightarrow> 'b Node \<Rightarrow> Addr \<Rightarrow> u8 list \<Rightarrow> u8 list option" where
  "segment_datagram S h dst raw =
     (case SendIP (NetPkgs S) (RangeOrder S) (Stack h) dst TCPProtocolNum raw of
        Inl e \<Rightarrow> None
      | Inr out \<Rightarrow> sent_bytes out)"

text \<open>The node sends to \<open>dst\<close> out of the interface with address \<open>src\<close>, to a neighbor.\<close>

definition routed :: "'b shell_env \<Rightarrow> 'b Node \<Rightarrow> Addr \<Rightarrow> Addr \<Rightarrow> bool" where
  "routed S h src dst \<longleftrightarrow>
     (case send_route (RangeOrder S) (NetLayer (Stack h)) dst of
        Inl e \<Rightarrow> False
      | Inr (isLocal, i, hop) \<Rightarrow>
          \<not> isLocal \<and> AssignedIP i = src \<and> getRemoteAddrByNeighborIP hop i \<noteq> None)"

text \<open>A host that runs TCP under the address \<open>ip\<close>, as \<open>vhost\<close> starts it.\<close>

definition tcp_host :: "'b Node \<Rightarrow> 'b TCPLayer \<Rightarrow> Addr \<Rightarrow> bool" where
  "tcp_host h l ip \<longleftrightarrow> Layer h = Some l \<and> TLocalIP l = ip \<and>
     is_destination (NetLayer (Stack h)) ip \<and>
     map_of (Handlers (NetLayer (Stack h))) TCPProtocolNum = Some TCPApp"

lemma routed_sends:
  assumes "net_pkgs_ok (NetPkgs S)" "routed S h src dst" "length raw < 65516"
  shows "\<exists>out bytes. SendIP (NetPkgs S) (RangeOrder S) (Stack h) dst TCPProtocolNum raw = Inr out \<and>
    segment_datagram S h dst raw = Some bytes \<and>
    on_wire (NetPkgs S) (sent_header src dst TCPProtocolNum raw) raw bytes"
proof -
  obtain i hop a where r: "send_route (RangeOrder S) (NetLayer (Stack h)) dst = Inr (False, i, hop)"
    "AssignedIP i = src" "getRemoteAddrByNeighborIP hop i = Some a"
    using assms(2) by (auto simp: routed_def split: sum.splits prod.splits)
  let ?h = "sent_header src dst TCPProtocolNum raw"
  have ok: "hdr_ok ?h" using assms(3) by (rule hdr_ok_sent_header)
  obtain bs c where fin: "finish_header (NetPkgs S) ?h = Inr (?h\<lparr>IChecksum := uint (c :: u16)\<rparr>, bs)"
    using finish_header_cases [OF assms(1) ok] by metis
  then have send: "SendIP (NetPkgs S) (RangeOrder S) (Stack h) dst TCPProtocolNum raw =
      Inr (ToUDP i a (bs @ raw))"
    using r by (simp add: SendIP_def SendPacketToDestIP_def sent_header_def)
  moreover have "on_wire (NetPkgs S) ?h raw (bs @ raw)"
    using ok fin by (auto simp: on_wire_def) (simp add: sent_header_def)
  ultimately show ?thesis by (auto simp: segment_datagram_def)
qed

lemma segment_length:
  "tcp_pkgs_ok T \<Longrightarrow> tcp_hdr_ok (Header p) \<Longrightarrow> length (Data p) \<le> 1024 \<Longrightarrow> length (MarshalTCP T p) \<le> 1044"
  by (simp add: MarshalTCP_def tcp_pkgs_ok_def)

lemma node_env_simps [simp]:
  "TPkg (node_env S h) = TPkg (TcpEnv S)" "RPkg (node_env S h) = RPkg (TcpEnv S)"
  "node_env S (h\<lparr>Layer := l\<rparr>) = node_env S h"
  by (simp_all add: node_env_def)

lemma segment_datagram_layer [simp]: "segment_datagram S (h\<lparr>Layer := l\<rparr>) = segment_datagram S h"
  by (simp add: segment_datagram_def fun_eq_iff)

text \<open>The stack below takes what TCP sends: \<open>net_takes\<close> holds of a node with a route.\<close>

lemma node_takes:
  assumes "net_pkgs_ok (NetPkgs S)" "tcp_pkgs_ok (TPkg (TcpEnv S))" "routed S h src dst"
  shows "net_takes (node_env S h) dst"
proof -
  have "Net (node_env S h) dst (MarshalTCP (TPkg (TcpEnv S)) p) = None"
    if "tcp_hdr_ok (Header p)" "length (Data p) \<le> 1024" for p
  proof -
    have "length (MarshalTCP (TPkg (TcpEnv S)) p) < 65516"
      using segment_length [OF assms(2) that] by simp
    from routed_sends [OF assms(1,3) this] show ?thesis by (auto simp: node_env_def tcp_net_def)
  qed
  then show ?thesis by (simp add: net_takes_def)
qed

text \<open>Where the handler of a host sends a segment that reached it.\<close>

definition segment_goes :: "'b TCPLayer \<Rightarrow> VTCPConn \<Rightarrow> TCPPacket \<Rightarrow> delivery" where
  "segment_goes l conn p =
     (case map_of (SocketTable l) conn of
        Some s \<Rightarrow> ToSocket conn p
      | None \<Rightarrow> (case map_of (ListenersTable l) (LocalPort conn) of
                   Some _ \<Rightarrow> ToListener (LocalPort conn) p
                 | None \<Rightarrow> NoListener (LocalPort conn)))"

lemma segment_crosses:
  assumes "net_pkgs_ok (NetPkgs S)" and "NetPkgs S' = NetPkgs S" and "range_ok (RangeOrder S')"
    and "tcp_pkgs_ok T" and "TPkg (TcpEnv S') = T" and "routed S a src dst" and "tcp_host b l dst"
    and "tcp_hdr_ok (Header p)" and "length (Data p) \<le> 1024"
    and "segment_datagram S a dst (MarshalTCP T p) = Some bytes"
    and "\<forall>x \<in> set path. NetPkgs (fst x) = NetPkgs S" and "carried path bytes = Some datagram"
  shows "\<exists>hdr. ParseHeader (NetPkgs S) datagram = Inr hdr \<and>
    (IChecksum hdr \<noteq> 0 \<longrightarrow> node_step True S' b (Datagram datagram) = Inr (b, [Delivered (segment_goes l
       \<lparr>LocalIP = dst, LocalPort = DstPort (Header p), RemoteIP = src, RemotePort = SrcPort (Header p)\<rparr>
       (p\<lparr>SrcIP := src\<rparr>))]))"
proof -
  let ?raw = "MarshalTCP T p" and ?p = "p\<lparr>SrcIP := src\<rparr>" and ?P = "NetPkgs S"
  let ?c = "\<lparr>LocalIP = dst, LocalPort = DstPort (Header p), RemoteIP = src, RemotePort = SrcPort (Header p)\<rparr>"
  have len: "length ?raw < 65516" "length ?raw \<le> 1380" using segment_length [OF assms(4,8,9)] by simp_all
  have w: "on_wire ?P (sent_header src dst TCPProtocolNum ?raw) ?raw bytes"
    using routed_sends [OF assms(1,6) len(1)] assms(10) by auto
  let ?h = "\<lambda>c. (sent_header src dst TCPProtocolNum ?raw)\<lparr>TTL := 16 - int (length path), IChecksum := c\<rparr>"
  have b: "Layer b = Some l" "TLocalIP l = dst" "is_destination (NetLayer (Stack b)) dst"
    "map_of (Handlers (NetLayer (Stack b))) TCPProtocolNum = Some TCPApp"
    using assms(7) by (simp_all add: tcp_host_def)
  from carried_received [OF assms(1) len(2) assms(3) w assms(11,12), of "NetLayer (Stack b)" TCPApp] b(3,4)
  obtain c where c: "ParseHeader ?P datagram = Inr (?h c)"
    "HandlePacket ?P (RangeOrder S') (NetLayer (Stack b)) (ReceivePacket datagram) =
      (if c = 0 then Inl (Error ''invalid checksum'') else Inr (ToHandler TCPApp ?raw (?h c)))"
    by (auto simp: sent_header_def MaxHops_def)
  have "TcpHandler T l (MarshalTCP T ?p) (?h c) = Inr (segment_goes l ?c ?p)"
    using TcpHandler_deliver [OF assms(4), of ?p "?h c" l ?c] assms(8) b(2)
    by (simp add: sent_header_def segment_goes_def split: option.split)
  moreover have "MarshalTCP T ?p = ?raw" by (simp add: MarshalTCP_def)
  ultimately show ?thesis
    using c(2) by (intro exI [of _ "?h c"] conjI [OF c(1)])
      (simp add: receive_packet_def assms(2,5) run_handler_def b(1))
qed

text \<open>C10: A TCP segment crosses the network. Let a host's stack send a segment to an address it has a
  route to, any number of nodes forward the datagram, and the host with that address read it with a
  header checksum other than 0: its TCP handler gives the segment, unchanged but for the source
  address filled in from the header, to the socket of the same connection seen from the other end,
  or, when there is none, to the listener on the destination port.\<close>

theorem segment_crosses_network:
  assumes "net_pkgs_ok (NetPkgs S)" and "NetPkgs S' = NetPkgs S" and "range_ok (RangeOrder S')"
    and "tcp_pkgs_ok T" and "TPkg (TcpEnv S') = T" and "routed S a src dst" and "tcp_host b l dst"
    and "tcp_hdr_ok (Header p)" and "length (Data p) \<le> 1024"
    and "segment_datagram S a dst (MarshalTCP T p) = Some bytes"
    and "\<forall>x \<in> set path. NetPkgs (fst x) = NetPkgs S" and "carried path bytes = Some datagram"
  shows "\<exists>hdr. ParseHeader (NetPkgs S) datagram = Inr hdr \<and>
    (IChecksum hdr \<noteq> 0 \<longrightarrow> node_step True S' b (Datagram datagram) = Inr (b, [Delivered (segment_goes l
       \<lparr>LocalIP = dst, LocalPort = DstPort (Header p), RemoteIP = src, RemotePort = SrcPort (Header p)\<rparr>
       (p\<lparr>SrcIP := src\<rparr>))]))"
  by (rule segment_crosses [OF assms])

section \<open>A host with several interfaces\<close>

text \<open>TCP knows one address, that of the first interface. A SYN that leaves by another one carries that
  one's address, so the answer comes back to an address the layer does not take: it is dropped and
  \<open>VConnect\<close> waits for ever.\<close>

lemma answer_to_other_interface_dropped:
  assumes "tcp_pkgs_ok T" and "tcp_hdr_ok (Header p)" and "Dst hdr = src" and "src \<noteq> TLocalIP l"
  shows "TcpHandler T l (MarshalTCP T p) hdr = Inr NotOurIP"
  using assms by (simp add: TcpHandler_def Unmarshal_MarshalTCP)

section \<open>Handling what arrives\<close>

text \<open>A datagram that is handed to a socket, whose thread handles it: the events \<open>Datagram\<close> and then
  \<open>SocketCall\<close> of \<open>node_step\<close>, with what the thread sends.\<close>

definition handle_datagram ::
  "'b shell_env \<Rightarrow> 'b Node \<times> tcp_effect list \<Rightarrow> u8 list \<Rightarrow> 'b Node \<times> tcp_effect list" where
  "handle_datagram S x datagram =
     (case node_step True S (fst x) (Datagram datagram) of
        Inr (h, [Delivered (ToSocket conn p)]) \<Rightarrow>
          (case Layer h of
             None \<Rightarrow> x
           | Some l \<Rightarrow>
               (case map_of (SocketTable l) conn of
                  None \<Rightarrow> x
                | Some s \<Rightarrow>
                    (case HandleTCPPacket (node_env S h) (Now S) s p of
                       (s', effs) \<Rightarrow> (h\<lparr>Layer := Some (store_socket conn s' l)\<rparr>, effs))))
      | _ \<Rightarrow> x)"

text \<open>The segment \<open>raw\<close> of node \<open>a\<close> reaches another node as \<open>datagram\<close>, with a checksum it accepts.\<close>

definition crosses :: "'b shell_env \<Rightarrow> 'b Node \<Rightarrow> Addr \<Rightarrow> u8 list \<Rightarrow> u8 list \<Rightarrow> bool" where
  "crosses S a dst raw datagram \<longleftrightarrow>
     (\<exists>bytes path hdr. segment_datagram S a dst raw = Some bytes \<and>
        (\<forall>x \<in> set (path :: ('b shell_env \<times> 'b Node) list). NetPkgs (fst x) = NetPkgs S) \<and>
        carried path bytes = Some datagram \<and>
        ParseHeader (NetPkgs S) datagram = Inr hdr \<and> IChecksum hdr \<noteq> 0)"

text \<open>What the two nodes' environments have in common.\<close>

definition shells_ok :: "tcp_pkgs \<Rightarrow> 'b shell_env \<Rightarrow> 'b shell_env \<Rightarrow> bool" where
  "shells_ok T S S' \<longleftrightarrow> net_pkgs_ok (NetPkgs S) \<and> NetPkgs S' = NetPkgs S \<and> tcp_pkgs_ok T \<and>
     (\<forall>Z \<in> {S, S'}. TPkg (TcpEnv Z) = T \<and> range_ok (RangeOrder Z) \<and>
        (\<forall>t. set (SocketOrder Z t) = set t))"

text \<open>One end of a connection as the handshake leaves it, on a host with a route to the other end.\<close>

definition tcp_end ::
  "'b shell_env \<Rightarrow> 'b Node \<Rightarrow> 'b TCPLayer \<Rightarrow> VTCPConn \<Rightarrow> u32 \<Rightarrow> u32 \<Rightarrow> 'b TCPSocket \<Rightarrow> bool" where
  "tcp_end S h l conn isn risn s \<longleftrightarrow> tcp_host h l (LocalIP conn) \<and> (\<exists>k. layer_ok k l) \<and>
     routed S h (LocalIP conn) (RemoteIP conn) \<and> map_of (SocketTable l) conn = Some s \<and>
     opened conn isn risn s"

lemma store_socket_again: "store_socket c s' (store_socket c s l) = store_socket c s' l"
  by (simp add: store_socket_def update_last)

lemma store_socket_same: "map_of (SocketTable l) c = Some s \<Longrightarrow> store_socket c s l = l"
  by (simp add: store_socket_def update_triv)

lemma tcp_host_store:
  "tcp_host h l ip \<Longrightarrow> tcp_host (h\<lparr>Layer := Some (store_socket c s l)\<rparr>) (store_socket c s l) ip"
  by (simp add: tcp_host_def)

lemma datagram_handled:
  assumes sh: "shells_ok T S S'" and "routed S a (LocalIP conn) (RemoteIP conn)"
    and host: "tcp_host b l (RemoteIP conn)" and s: "map_of (SocketTable l) (mirror conn) = Some s"
    and p: "tcp_hdr_ok (Header p)" "length (Data p) \<le> 1024" "SrcPort (Header p) = LocalPort conn"
      "DstPort (Header p) = RemotePort conn"
    and d: "crosses S a (RemoteIP conn) (MarshalTCP T p) datagram"
    and st: "arrive (node_env S' b) (Now S') (LocalIP conn) (s, e) (MarshalTCP T p) = (s', effs)"
  shows "handle_datagram S' (b, e) datagram = (b\<lparr>Layer := Some (store_socket (mirror conn) s' l)\<rparr>, effs)"
proof -
  have env: "net_pkgs_ok (NetPkgs S)" "NetPkgs S' = NetPkgs S" "range_ok (RangeOrder S')" "tcp_pkgs_ok T"
    "TPkg (TcpEnv S') = T" using sh by (simp_all add: shells_ok_def)
  have m: "\<lparr>LocalIP = RemoteIP conn, LocalPort = DstPort (Header p), RemoteIP = LocalIP conn,
      RemotePort = SrcPort (Header p)\<rparr> = mirror conn" by (simp add: mirror_def p(3,4))
  obtain bytes path hdr where "segment_datagram S a (RemoteIP conn) (MarshalTCP T p) = Some bytes"
    "\<forall>x \<in> set (path :: ('a shell_env \<times> 'a Node) list). NetPkgs (fst x) = NetPkgs S"
    "carried path bytes = Some datagram" "ParseHeader (NetPkgs S) datagram = Inr hdr" "IChecksum hdr \<noteq> 0"
    using d unfolding crosses_def by blast
  from segment_crosses [OF env assms(2) host p(1,2) this(1-3), unfolded m] this(4,5) s
  have "node_step True S' b (Datagram datagram) = Inr (b, [Delivered (ToSocket (mirror conn) (p\<lparr>SrcIP := LocalIP conn\<rparr>))])"
    by (simp add: segment_goes_def)
  moreover have "HandleTCPPacket (node_env S' b) (Now S') s (p\<lparr>SrcIP := LocalIP conn\<rparr>) = (s', effs)"
    using st Unmarshal_MarshalTCP [OF env(4) p(1), of "LocalIP conn"] by (simp add: arrive_def env(5))
  ultimately show ?thesis
    using host s by (simp add: handle_datagram_def tcp_host_def del: node_step.simps)
qed

text \<open>All segments of a turn: the node follows \<open>arrive\<close> on the socket.\<close>

lemma datagrams_handled:
  assumes sh: "shells_ok T S S'" and "routed S a (LocalIP conn) (RemoteIP conn)"
  shows "carries conn ack seq payload ps \<Longrightarrow>
    list_all2 (crosses S a (RemoteIP conn)) (map (MarshalTCP T) ps) datagrams \<Longrightarrow>
    tcp_host b l (RemoteIP conn) \<Longrightarrow> map_of (SocketTable l) (mirror conn) = Some s \<Longrightarrow>
    foldl (arrive (node_env S' b) (Now S') (LocalIP conn)) (s, e) (map (MarshalTCP T) ps) = (s', effs) \<Longrightarrow>
    foldl (handle_datagram S') (b, e) datagrams =
      (b\<lparr>Layer := Some (store_socket (mirror conn) s' l)\<rparr>, effs)"
proof (induction ps arbitrary: seq payload datagrams b l s e)
  case Nil
  then show ?case by (simp add: store_socket_same tcp_host_def)
next
  case (Cons p ps)
  obtain d ds where ds: "datagrams = d # ds" "crosses S a (RemoteIP conn) (MarshalTCP T p) d"
    "list_all2 (crosses S a (RemoteIP conn)) (map (MarshalTCP T) ps) ds"
    using Cons.prems(2) by (auto simp: list_all2_Cons1)
  have p: "tcp_hdr_ok (Header p)" "length (Data p) \<le> 1024" "SrcPort (Header p) = LocalPort conn"
      "DstPort (Header p) = RemotePort conn"
    and tail: "carries conn ack (seq + of_nat (length (Data p))) (drop (length (Data p)) payload) ps"
    using Cons.prems(1) by simp_all
  obtain s1 e1 where st: "arrive (node_env S' b) (Now S') (LocalIP conn) (s, e) (MarshalTCP T p) = (s1, e1)"
    by fastforce
  let ?l = "store_socket (mirror conn) s1 l"
  let ?b = "b\<lparr>Layer := Some ?l\<rparr>"
  have one: "handle_datagram S' (b, e) d = (?b, e1)"
    by (rule datagram_handled [OF sh assms(2) Cons.prems(3,4) p ds(2) st])
  have "tcp_host ?b ?l (RemoteIP conn)" using Cons.prems(3) by (rule tcp_host_store)
  moreover have "map_of (SocketTable ?l) (mirror conn) = Some s1" by simp
  moreover have "foldl (arrive (node_env S' ?b) (Now S') (LocalIP conn)) (s1, e1) (map (MarshalTCP T) ps) = (s', effs)"
    using Cons.prems(5) st by simp
  ultimately have "foldl (handle_datagram S') (?b, e1) ds =
      (?b\<lparr>Layer := Some (store_socket (mirror conn) s' ?l)\<rparr>, effs)"
    by (rule Cons.IH [OF tail ds(3)])
  then show ?case by (simp add: ds(1) one store_socket_again)
qed

section \<open>From prompt to prompt\<close>

lemma number_word: "CHR '' '' \<notin> set (show_nat n)"
proof -
  have "\<not> is_digit CHR '' ''" by (simp add: is_digit_def)
  then show ?thesis using digits_show_nat [of n] by (auto simp: list_all_iff)
qed

lemma Atoi_show_nat: "n < 2 ^ 63 \<Longrightarrow> Atoi (show_nat n) = Inr (int n)"
proof -
  assume n: "n < 2 ^ 63"
  obtain c cs where c: "show_nat n = c # cs" by (cases "show_nat n") auto
  have "is_digit c" using digits_show_nat [of n] by (simp add: c)
  then have "c \<noteq> CHR ''-''" "c \<noteq> CHR ''+''" by (auto simp: is_digit_def)
  moreover have "numeric (c # cs)" "decimal (c # cs) = n"
    using numeric_show_nat [of n] decimal_show_nat [of n] by (simp_all add: c)
  ultimately show ?thesis using n by (simp add: Atoi_def c)
qed

lemma show_int_of_nat: "show_int (int n) = show_nat n"
  by (simp add: show_int_def)

lemma send_line:
  "go_split CHR '' '' (''s '' @ show_nat i @ '' '' @ msg) = ''s'' # show_nat i # go_split CHR '' '' msg"
  using go_split_cut [of "CHR '' ''" "''s''" "show_nat i @ '' '' @ msg"]
    go_split_cut [OF number_word, of i msg] by simp

lemma read_line:
  "go_split CHR '' '' (''r '' @ show_nat i @ '' '' @ show_nat n) = [''r'', show_nat i, show_nat n]"
  using go_split_cut [of "CHR '' ''" "''r''" "show_nat i @ '' '' @ show_nat n"]
    go_split_cut [OF number_word, of i "show_nat n"] go_split_single [OF number_word, of n] by simp

lemma VWrite_all:
  assumes rb: "ringbuffer_ok (RPkg E) okb bytes cap" and s: "map_of (SocketTable l) c = Some s"
    and "okb (WriteBuffer s)" "bytes (WriteBuffer s) = []" "int (length data) \<le> cap (WriteBuffer s)"
    and "data \<noteq> []" "ConnState s = ESTABLISHED"
  shows "\<exists>wb. VWrite E l c data = (store_socket c (s\<lparr>WriteBuffer := wb\<rparr>) l, Done (Inr (int (length data))), []) \<and>
    okb wb \<and> bytes wb = data"
proof -
  obtain wb n err where w: "rb_Write (RPkg E) (WriteBuffer s) data = (wb, n, err)" by (metis prod_cases3)
  note laws = ringbuffer_laws [OF rb assms(3), unfolded assms(4)]
  have r: "okb wb" "bytes wb = data" "n = int (length data)" "err = None"
    using ringbuffer_write [OF rb assms(3) w] laws(1) assms(4,5) by simp_all
  have "0 < length data" using assms(6) by simp
  then have "0 < cap (WriteBuffer s)" using assms(5) by linarith
  then have "\<not> rb_IsFull (RPkg E) (WriteBuffer s)" using laws(4) by simp
  then have "VWrite_turn E s data = (s\<lparr>WriteBuffer := wb\<rparr>, Done (Inr (int (length data))))"
    using r by (simp add: VWrite_turn_def w)
  moreover have "VWrite_loop E t [] k = (t, Done (Inr k), [])" for t k
    by (simp add: VWrite_loop.simps)
  ultimately have "VWrite_loop E s data 0 = (s\<lparr>WriteBuffer := wb\<rparr>, Done (Inr (int (length data))), [])"
    using assms(6) by (subst VWrite_loop.simps) simp
  then show ?thesis using r s assms(7) by (intro exI [of _ wb]) (simp add: VWrite_def less_TCPState_def)
qed

lemma VRead_all:
  assumes rb: "ringbuffer_ok (RPkg E) okb bytes cap" and s: "map_of (SocketTable l) c = Some s"
    and "okb (ReadBuffer s)" "bytes (ReadBuffer s) \<noteq> []" "length (bytes (ReadBuffer s)) \<le> n"
    and "ConnState s = ESTABLISHED"
  shows "\<exists>b'. VRead E l c (int n) = (store_socket c (s\<lparr>ReadBuffer := b'\<rparr>) l, Done (Inr (bytes (ReadBuffer s))))"
proof -
  obtain b' out err where w: "rb_Read (RPkg E) (ReadBuffer s) (int n) = (b', out, err)" by (metis prod_cases3)
  have r: "out = bytes (ReadBuffer s)" "err = None"
    using ringbuffer_read [OF rb assms(3) _ w] assms(4,5) by simp_all
  then show ?thesis using ringbuffer_laws(2) [OF rb assms(3)] s assms(4,6)
    by (intro exI [of _ b']) (simp add: VRead_def VRead_turn_def w less_TCPState_def)
qed

text \<open>The commands on a socket of an established connection.\<close>

lemma typed_write:
  assumes rb: "ringbuffer_ok (RPkg (TcpEnv S)) okb bytes cap" and l: "Layer h = Some l" "layer_ok k l"
    and ord: "\<And>t. set (SocketOrder S t) = set t" and s: "map_of (SocketTable l) c = Some s" "SConn s = c"
    and "okb (WriteBuffer s)" "bytes (WriteBuffer s) = []" "int (length msg) \<le> cap (WriteBuffer s)"
    and "msg \<noteq> []" "ConnState s = ESTABLISHED"
  shows "\<exists>wb. HandleInput S (''s '' @ show_nat (unat (SocketID s)) @ '' '' @ msg) True h =
      Inr (h\<lparr>Layer := Some (store_socket c (s\<lparr>WriteBuffer := wb\<rparr>) l)\<rparr>,
        [Printed (''Sent '' @ show_int (int (length msg)) @ '' bytes'' @ newline)], Prompt) \<and>
    okb wb \<and> bytes wb = bytes_of msg"
proof -
  have "unat (SocketID s) < 2 ^ 32" using unsigned_less [of "SocketID s"] by simp
  then have at: "Atoi (show_nat (unat (SocketID s))) = Inr (uint (SocketID s))"
    by (subst Atoi_show_nat) simp_all
  have get: "GetSocketById (SocketOrder S) l (uint (SocketID s)) = Some s"
    by (rule layer_find_socket [where ord = "SocketOrder S", OF l(2) ord s(1)])
  have ne: "bytes_of msg \<noteq> []" using assms(10) by (simp add: bytes_of_def)
  have rb': "ringbuffer_ok (RPkg (node_env S h)) okb bytes cap"
    and fits: "int (length (bytes_of msg)) \<le> cap (WriteBuffer s)" using rb assms(9) by simp_all
  obtain wb where wb: "VWrite (node_env S h) l c (bytes_of msg) =
      (store_socket c (s\<lparr>WriteBuffer := wb\<rparr>) l, Done (Inr (int (length msg))), [])"
    "okb wb" "bytes wb = bytes_of msg"
    using VWrite_all [OF rb' s(1) assms(7,8) fits ne assms(11)] by auto
  obtain w ws where ws: "go_split CHR '' '' msg = w # ws" by (cases "go_split CHR '' '' msg") auto
  have "go_join CHR '' '' (w # ws) = msg" using go_join_split [of "CHR '' ''" msg] by (simp add: ws)
  then show ?thesis
    using wb by (intro exI [of _ wb])
      (simp add: HandleInput_def Let_def send_line ws HandleSendSocket_def at l(1) get s(2)
        del: append_Cons append.simps)
qed

lemma typed_read:
  assumes rb: "ringbuffer_ok (RPkg (TcpEnv S)) okb bytes cap" and l: "Layer h = Some l" "layer_ok k l"
    and ord: "\<And>t. set (SocketOrder S t) = set t" and s: "map_of (SocketTable l) c = Some s" "SConn s = c"
    and "okb (ReadBuffer s)" "bytes (ReadBuffer s) = bytes_of msg" "msg \<noteq> []" "ConnState s = ESTABLISHED"
    and n: "length msg \<le> n" "n < 2 ^ 63"
  shows "\<exists>h'. HandleInput S (''r '' @ show_nat (unat (SocketID s)) @ '' '' @ show_nat n) True h =
      Inr (h', [Printed (''Read '' @ show_nat (length msg) @ '' bytes: '' @ msg @ newline)], Prompt)"
proof -
  have "unat (SocketID s) < 2 ^ 32" using unsigned_less [of "SocketID s"] by simp
  then have at: "Atoi (show_nat (unat (SocketID s))) = Inr (uint (SocketID s))"
    by (subst Atoi_show_nat) simp_all
  have get: "GetSocketById (SocketOrder S) l (uint (SocketID s)) = Some s"
    by (rule layer_find_socket [where ord = "SocketOrder S", OF l(2) ord s(1)])
  have rb': "ringbuffer_ok (RPkg (node_env S h)) okb bytes cap"
    and ne: "bytes (ReadBuffer s) \<noteq> []" and fits: "length (bytes (ReadBuffer s)) \<le> n"
    using rb n(1) assms(8,9) by (simp_all add: bytes_of_def)
  obtain b' where "VRead (node_env S h) l c (int n) =
      (store_socket c (s\<lparr>ReadBuffer := b'\<rparr>) l, Done (Inr (bytes_of msg)))"
    using VRead_all [OF rb' s(1) assms(7) ne fits assms(10)] by (auto simp: assms(8))
  then show ?thesis
    using at n(2) by (intro exI [of _ "h\<lparr>Layer := Some (store_socket c (s\<lparr>ReadBuffer := b'\<rparr>) l)\<rparr>"])
      (simp add: HandleInput_def Let_def read_line HandleReceiveSocket_def AtoiValue_def Atoi_show_nat l(1)
        get s(2) del: append_Cons append.simps)
qed

lemma arrive_id: "SocketID (fst (arrive E now src st raw)) = SocketID (fst st)"
  using evolves_HandleTCPPacket [of "fst st" E now] by (simp add: arrive_def evolves_def split: sum.split)

lemma arrivals_id: "SocketID (fst (foldl (arrive E now src) st raws)) = SocketID (fst st)"
  by (induction raws arbitrary: st) (simp_all add: arrive_id)

lemma mirror_simps [simp]:
  "LocalIP (mirror c) = RemoteIP c" "RemoteIP (mirror c) = LocalIP c" "LocalPort (mirror c) = RemotePort c"
  "RemotePort (mirror c) = LocalPort c" "mirror (mirror c) = c"
  by (simp_all add: mirror_def)

definition node_socket :: "'b Node \<Rightarrow> VTCPConn \<Rightarrow> 'b TCPSocket option" where
  "node_socket h conn = (case Layer h of None \<Rightarrow> None | Some l \<Rightarrow> map_of (SocketTable l) conn)"

definition with_socket :: "'b Node \<Rightarrow> VTCPConn \<Rightarrow> 'b TCPSocket \<Rightarrow> 'b Node" where
  "with_socket h conn s = h\<lparr>Layer := map_option (store_socket conn s) (Layer h)\<rparr>"

lemma with_socket_Some: "Layer h = Some l \<Longrightarrow> with_socket h c s = h\<lparr>Layer := Some (store_socket c s l)\<rparr>"
  by (simp add: with_socket_def)

lemma with_socket_simps [simp]:
  "node_env S (with_socket h c s) = node_env S h" "crosses S (with_socket h c s) = crosses S h"
  "with_socket (with_socket h c s) c t = with_socket h c t"
  by (simp_all add: with_socket_def crosses_def fun_eq_iff option.map_comp comp_def store_socket_again)

lemma node_socket_with_socket [simp]: "Layer h = Some l \<Longrightarrow> node_socket (with_socket h c s) c = Some s"
  by (simp add: node_socket_def with_socket_Some)

lemma opened_WriteBuffer [simp]: "opened c isn risn (s\<lparr>WriteBuffer := wb\<rparr>) = opened c isn risn s"
  by (simp add: opened_def sock_inv_def flight_inv_def)

text \<open>The typed text is in the packets of one turn.\<close>

lemma typed_text_sent:
  assumes sh: "shells_ok T S S'" and rb: "ringbuffer_ok (RPkg (TcpEnv S)) okb bytes cap"
    and a: "tcp_end S a la conn isn risn s"
    and w: "okb (WriteBuffer s)" "bytes (WriteBuffer s) = []" "int (length msg) \<le> cap (WriteBuffer s)"
    and msg: "msg \<noteq> []" "length msg \<le> 65535"
  shows "\<exists>s1 s2 ps.
    HandleInput S (''s '' @ show_nat (unat (SocketID s)) @ '' '' @ msg) True a = Inr (with_socket a conn s1,
      [Printed (''Sent '' @ show_int (int (length msg)) @ '' bytes'' @ newline)], Prompt) \<and>
    HandleVWrite_turn (node_env S a) (Now S) s1 =
      (s2, map (Sent (RemoteIP conn)) (map (MarshalTCP T) ps), Running) \<and> ps \<noteq> [] \<and>
    carries conn (risn + 1) (isn + 1) (bytes_of msg) ps \<and> RTQueue s2 = map (segment_item (Now S)) ps \<and>
    NextSequenceNumber s2 = isn + 1 + of_nat (length msg) \<and> LargestAck s2 \<le> isn + 1 \<and>
    ConnState s2 = ESTABLISHED \<and> sock_inv s2 \<and> flight_inv s2 \<and> \<not> ZWPMode s2"
proof -
  have env: "net_pkgs_ok (NetPkgs S)" "tcp_pkgs_ok T" "TPkg (TcpEnv S) = T"
      "\<And>t. set (SocketOrder S t) = set t" using sh by (simp_all add: shells_ok_def)
  have A: "tcp_host a la (LocalIP conn)" "routed S a (LocalIP conn) (RemoteIP conn)"
      "map_of (SocketTable la) conn = Some s" "opened conn isn risn s"
    using a by (simp_all add: tcp_end_def)
  obtain k where k: "layer_ok k la" using a by (auto simp: tcp_end_def)
  have la: "Layer a = Some la" using A(1) by (simp add: tcp_host_def)
  have s: "SConn s = conn" "ConnState s = ESTABLISHED" using A(4) by (simp_all add: opened_def)
  obtain wb where wb: "HandleInput S (''s '' @ show_nat (unat (SocketID s)) @ '' '' @ msg) True a =
      Inr (a\<lparr>Layer := Some (store_socket conn (s\<lparr>WriteBuffer := wb\<rparr>) la)\<rparr>,
        [Printed (''Sent '' @ show_int (int (length msg)) @ '' bytes'' @ newline)], Prompt)"
    "okb wb" "bytes wb = bytes_of msg"
    using typed_write [OF rb la k env(4) A(3) s(1) w msg(1) s(2)] by blast
  let ?s1 = "s\<lparr>WriteBuffer := wb\<rparr>"
  have net: "net_takes (node_env S a) (RemoteIP conn)"
    by (rule node_takes [OF env(1) _ A(2)]) (simp add: env(2,3))
  have rb': "ringbuffer_ok (RPkg (node_env S a)) okb bytes cap" using rb by simp
  have s1: "opened conn isn risn ?s1" "okb (WriteBuffer ?s1)" "bytes (WriteBuffer ?s1) = bytes_of msg"
    "bytes_of msg \<noteq> []" "length (bytes_of msg) \<le> 65535" using A(4) wb(2,3) msg by (simp_all add: bytes_of_def)
  from opened_turn [where now = "Now S", OF net rb' s1, unfolded node_env_simps env(3) length_bytes_of]
  show ?thesis using wb(1)
    by - (rule exI [of _ ?s1], simp add: with_socket_Some [OF la])
qed

text \<open>The packets, as datagrams, end up in what \<open>r\<close> prints.\<close>

lemma arrived_text_read:
  assumes sh: "shells_ok T S S'" and rb: "ringbuffer_ok (RPkg (TcpEnv S')) okb bytes cap"
    and route: "routed S a (LocalIP conn) (RemoteIP conn)" and b: "tcp_end S' b lb (mirror conn) isnB isnA r"
    and rd: "okb (ReadBuffer r)" "bytes (ReadBuffer r) = []" "int (length msg) \<le> cap (ReadBuffer r)"
    and ps: "carries conn (isnB + 1) (isnA + 1) (bytes_of msg) ps" "ps \<noteq> []" "msg \<noteq> []"
    and ds: "list_all2 (crosses S a (RemoteIP conn)) (map (MarshalTCP T) ps) datagrams"
    and n: "length msg \<le> n" "n < 2 ^ 63"
  shows "\<exists>b2 r' rest. foldl (handle_datagram S') (b, []) datagrams = (with_socket b (mirror conn) r',
      rest @ [Sent (LocalIP conn) (MarshalTCP T
        (ack_packet (node_env S' b) r' (isnA + 1 + of_nat (length msg))))]) \<and> SConn r' = mirror conn \<and>
    HandleInput S' (''r '' @ show_nat (unat (SocketID r)) @ '' '' @ show_nat n) True
        (with_socket b (mirror conn) r') =
      Inr (b2, [Printed (''Read '' @ show_nat (length msg) @ '' bytes: '' @ msg @ newline)], Prompt)"
proof -
  have env: "net_pkgs_ok (NetPkgs S')" "tcp_pkgs_ok T" "TPkg (TcpEnv S') = T"
      "\<And>t. set (SocketOrder S' t) = set t" using sh by (simp_all add: shells_ok_def)
  have B: "tcp_host b lb (RemoteIP conn)" "routed S' b (RemoteIP conn) (LocalIP conn)"
      "map_of (SocketTable lb) (mirror conn) = Some r" "opened (mirror conn) isnB isnA r"
    using b by (simp_all add: tcp_end_def)
  obtain j where j: "layer_ok j lb" using b by (auto simp: tcp_end_def)
  have lb: "Layer b = Some lb" using B(1) by (simp add: tcp_host_def)
  let ?m = "mirror conn" and ?E = "node_env S' b" and ?room = "cap (ReadBuffer r)"
  have net: "net_takes ?E (RemoteIP ?m)" using node_takes [OF env(1) _ B(2)] env(2,3) by simp
  have rb': "ringbuffer_ok (RPkg ?E) okb bytes cap" and T: "tcp_pkgs_ok (TPkg ?E)"
    using rb env(2,3) by simp_all
  have ready: "ready okb bytes cap ?m isnB isnA ?room [] (fst (r, []))"
    using B(4) rd(1,2) by (simp add: opened_def ready_def)
  from segments_received [where now = "Now S'" and src = "LocalIP conn" and got = "[]",
      OF rb' net T order_refl _ ps(2) ready, of conn "bytes_of msg"] ps(1) rd(3)
  obtain r' rest where r': "foldl (arrive ?E (Now S') (LocalIP conn)) (r, []) (map (MarshalTCP T) ps) =
      (r', rest @ [Sent (LocalIP conn) (MarshalTCP T (ack_packet ?E r' (isnA + 1 + of_nat (length msg))))])"
    "ready okb bytes cap ?m isnB isnA ?room (bytes_of msg) r'"
    by (auto simp: env(3))
  from datagrams_handled [OF sh route ps(1) ds B(1,3) r'(1)]
  have run: "foldl (handle_datagram S') (b, []) datagrams = (with_socket b ?m r', rest @ [Sent (LocalIP conn)
      (MarshalTCP T (ack_packet ?E r' (isnA + 1 + of_nat (length msg))))])"
    by (simp add: with_socket_Some [OF lb])
  have id: "SocketID r' = SocketID r"
    using arrivals_id [of ?E "Now S'" "LocalIP conn" "(r, [])" "map (MarshalTCP T) ps"] by (simp add: r'(1))
  have s': "SConn r' = ?m" "okb (ReadBuffer r')" "bytes (ReadBuffer r') = bytes_of msg" "ConnState r' = ESTABLISHED"
    using r'(2) by (simp_all add: ready_def)
  let ?l = "store_socket ?m r' lb"
  have "SConn r = ?m" using B(4) by (simp add: opened_def)
  then have ok: "layer_ok j ?l" using layer_ok_update_socket [OF j B(3) id] s'(1) by simp
  have l: "Layer (with_socket b ?m r') = Some ?l" "map_of (SocketTable ?l) ?m = Some r'"
    by (simp_all add: with_socket_Some [OF lb])
  from typed_read [OF rb l(1) ok env(4) l(2) s'(1-3) ps(3) s'(4) n, unfolded id] run s'(1)
  show ?thesis by blast
qed

text \<open>The acknowledgment, as a datagram, empties the sender's queue.\<close>

lemma ack_datagram:
  assumes sh: "shells_ok T S S'" and route: "routed S' b (RemoteIP conn) (LocalIP conn)"
    and host: "tcp_host a la (LocalIP conn)" and r: "SConn r = mirror conn"
    and s: "sock_inv s" "flight_inv s" "\<not> ZWPMode s" "ConnState s = ESTABLISHED"
    and q: "RTQueue s = map (segment_item now) ps" "carries c k seq payload ps" "payload \<noteq> []"
    and seq: "uint seq + int (length payload) < 2 ^ 32"
    and snd: "NextSequenceNumber s = seq + of_nat (length payload)" "LargestAck s \<le> seq"
    and d: "crosses S' b (LocalIP conn) (MarshalTCP T (ack_packet E r (seq + of_nat (length payload)))) datagram"
  shows "\<exists>s'. node_socket (fst (handle_datagram S (with_socket a conn s, []) datagram)) conn = Some s' \<and>
    RTQueue s' = []"
proof -
  let ?p = "ack_packet E r (seq + of_nat (length payload))" and ?E = "node_env S (with_socket a conn s)"
  have T: "tcp_pkgs_ok (TPkg ?E)" "TPkg ?E = T" and sh': "shells_ok T S' S"
    using sh by (auto simp: shells_ok_def)
  have la: "Layer a = Some la" using host by (simp add: tcp_host_def)
  let ?l = "store_socket conn s la"
  have a: "tcp_host (with_socket a conn s) ?l (RemoteIP (mirror conn))"
    "map_of (SocketTable ?l) (mirror (mirror conn)) = Some s"
    using tcp_host_store [OF host] by (simp_all add: with_socket_Some [OF la])
  have p: "tcp_hdr_ok (Header ?p)" "length (Data ?p) \<le> 1024" "SrcPort (Header ?p) = LocalPort (mirror conn)"
    "DstPort (Header ?p) = RemotePort (mirror conn)"
    by (simp_all add: r) (simp_all add: ack_packet_def socket_header_def r)
  have m: "routed S' b (LocalIP (mirror conn)) (RemoteIP (mirror conn))"
    "crosses S' b (RemoteIP (mirror conn)) (MarshalTCP T ?p) datagram" using route d by simp_all
  obtain s' effs where st: "arrive ?E (Now S) (LocalIP (mirror conn)) (s, []) (MarshalTCP T ?p) = (s', effs)"
    by fastforce
  have "handle_datagram S (with_socket a conn s, []) datagram =
      ((with_socket a conn s)\<lparr>Layer := Some (store_socket (mirror (mirror conn)) s' ?l)\<rparr>, effs)"
    by (rule datagram_handled [OF sh' m(1) a p m(2) st])
  then have "node_socket (fst (handle_datagram S (with_socket a conn s, []) datagram)) conn = Some s'"
    by (simp add: node_socket_def)
  moreover have "RTQueue s' = []"
    using ack_arrives [where now' = "Now S" and src = "RemoteIP conn" and e = "[]" and r = r and E' = E,
        OF T(1) s q seq snd, unfolded T(2)] st by simp
  ultimately show ?thesis by blast
qed

text \<open>C2: What is typed at one prompt is read at the other, over TCP. Between the two ends of a
  connection as the handshake leaves it, on hosts with routes to each other, the user of one types
  \<open>s <socket> <text>\<close>. The command answers that all of it is sent; one turn of the socket's sender makes the
  segments; and whatever nodes forward their datagrams, when these arrive in order with header checksums other
  than 0, \<open>r <socket> <n>\<close> at the other host prints exactly the text, and the last acknowledgment,
  back as a datagram, leaves nothing to retransmit. (The initial sequence number must leave room
  for the text below 2^32, and the buffers must have room for it.)\<close>

theorem typed_text_crosses_tcp:
  assumes "shells_ok T S S'" and "ringbuffer_ok (RPkg (TcpEnv S)) okA bytesA capA"
    and "ringbuffer_ok (RPkg (TcpEnv S')) okB bytesB capB"
    and "tcp_end S a la conn isnA isnB s" and "tcp_end S' b lb (mirror conn) isnB isnA r"
    and "okA (WriteBuffer s)" "bytesA (WriteBuffer s) = []" "int (length msg) \<le> capA (WriteBuffer s)"
    and "okB (ReadBuffer r)" "bytesB (ReadBuffer r) = []" "int (length msg) \<le> capB (ReadBuffer r)"
    and "msg \<noteq> []" "length msg \<le> 65535" "uint isnA + 1 + int (length msg) < 2 ^ 32"
    and "length msg \<le> n" "n < 2 ^ 63"
  shows "\<exists>s1 s2 raws.
    HandleInput S (''s '' @ show_nat (unat (SocketID s)) @ '' '' @ msg) True a = Inr (with_socket a conn s1,
      [Printed (''Sent '' @ show_int (int (length msg)) @ '' bytes'' @ newline)], Prompt) \<and>
    HandleVWrite_turn (node_env S a) (Now S) s1 = (s2, map (Sent (RemoteIP conn)) raws, Running) \<and>
    (\<forall>datagrams. list_all2 (crosses S a (RemoteIP conn)) raws datagrams \<longrightarrow>
      (\<exists>b1 b2 rest ack.
        foldl (handle_datagram S') (b, []) datagrams = (b1, rest @ [Sent (LocalIP conn) ack]) \<and>
        HandleInput S' (''r '' @ show_nat (unat (SocketID r)) @ '' '' @ show_nat n) True b1 =
          Inr (b2, [Printed (''Read '' @ show_nat (length msg) @ '' bytes: '' @ msg @ newline)], Prompt) \<and>
        (\<forall>datagram. crosses S' b1 (LocalIP conn) ack datagram \<longrightarrow>
          (\<exists>s3. node_socket (fst (handle_datagram S (with_socket a conn s2, []) datagram)) conn = Some s3 \<and>
            RTQueue s3 = []))))"
proof -
  have A: "tcp_host a la (LocalIP conn)" "routed S a (LocalIP conn) (RemoteIP conn)"
    and B: "routed S' b (RemoteIP conn) (LocalIP conn)" using assms(4,5) by (simp_all add: tcp_end_def)
  have "uint (isnA + 1) = uint isnA + 1"
    using assms(14) by (subst uint_add_lem [THEN iffD1]) simp_all
  then have bound: "uint (isnA + 1) + int (length (bytes_of msg)) < 2 ^ 32" using assms(14) by simp
  have ne: "bytes_of msg \<noteq> []" using assms(12) by (simp add: bytes_of_def)
  obtain s1 s2 ps where sent: "HandleInput S (''s '' @ show_nat (unat (SocketID s)) @ '' '' @ msg) True a =
      Inr (with_socket a conn s1,
        [Printed (''Sent '' @ show_int (int (length msg)) @ '' bytes'' @ newline)], Prompt)"
      "HandleVWrite_turn (node_env S a) (Now S) s1 =
        (s2, map (Sent (RemoteIP conn)) (map (MarshalTCP T) ps), Running)"
    and ps: "ps \<noteq> []" "carries conn (isnB + 1) (isnA + 1) (bytes_of msg) ps" "RTQueue s2 = map (segment_item (Now S)) ps"
    and s2: "NextSequenceNumber s2 = isnA + 1 + of_nat (length msg)" "LargestAck s2 \<le> isnA + 1"
      "ConnState s2 = ESTABLISHED" "sock_inv s2" "flight_inv s2" "\<not> ZWPMode s2"
    using typed_text_sent [OF assms(1,2,4,6,7,8,12,13)] by (elim exE conjE) (rule that; assumption)
  have "\<exists>b1 b2 rest ack. foldl (handle_datagram S') (b, []) datagrams = (b1, rest @ [Sent (LocalIP conn) ack]) \<and>
      HandleInput S' (''r '' @ show_nat (unat (SocketID r)) @ '' '' @ show_nat n) True b1 =
        Inr (b2, [Printed (''Read '' @ show_nat (length msg) @ '' bytes: '' @ msg @ newline)], Prompt) \<and>
      (\<forall>datagram. crosses S' b1 (LocalIP conn) ack datagram \<longrightarrow>
        (\<exists>s3. node_socket (fst (handle_datagram S (with_socket a conn s2, []) datagram)) conn = Some s3 \<and>
          RTQueue s3 = []))"
    if ds: "list_all2 (crosses S a (RemoteIP conn)) (map (MarshalTCP T) ps) datagrams" for datagrams
  proof -
    obtain b2 r' rest where read: "foldl (handle_datagram S') (b, []) datagrams = (with_socket b (mirror conn) r',
        rest @ [Sent (LocalIP conn) (MarshalTCP T
          (ack_packet (node_env S' b) r' (isnA + 1 + of_nat (length (bytes_of msg)))))])"
      "HandleInput S' (''r '' @ show_nat (unat (SocketID r)) @ '' '' @ show_nat n) True
          (with_socket b (mirror conn) r') =
        Inr (b2, [Printed (''Read '' @ show_nat (length msg) @ '' bytes: '' @ msg @ newline)], Prompt)"
      and r': "SConn r' = mirror conn"
      using arrived_text_read [OF assms(1,3) A(2) assms(5,9-11) ps(2,1) assms(12) ds assms(15,16)]
      by (auto simp del: append.simps append_Cons)
    have "NextSequenceNumber s2 = isnA + 1 + of_nat (length (bytes_of msg))" using s2(1) by simp
    note acked = ack_datagram [OF assms(1) B A(1) r' s2(4-6,3) ps(3,2) ne bound this s2(2)]
    show ?thesis
      by (intro exI conjI, rule read(1), rule read(2)) (use acked in simp)
  qed
  with sent show ?thesis by (intro exI [of _ s1] exI [of _ s2] exI [of _ "map (MarshalTCP T) ps"]) simp
qed

text \<open>The hosts of the sample network with the two ends of a connection.\<close>

definition tcp_node :: "(int \<times> u8 list) Node \<Rightarrow> Addr \<Rightarrow> (int \<times> u8 list) TCPSocket \<Rightarrow> (int \<times> u8 list) Node" where
  "tcp_node h ip s =
     \<lparr>Stack = RegisterRecvHandler (Stack h) TCPProtocolNum TCPApp,
      Layer = Some \<lparr>SocketTable = [(SConn s, s)], ListenersTable = [], TLocalIP = ip, UsedPorts = [],
        socketIDCounter = SocketID s + 1\<rparr>\<rparr>"

definition writer_a :: "(int \<times> u8 list) TCPSocket" where
  "writer_a = sample_writer\<lparr>WriteBuffer := (65535, [])\<rparr>"

definition tcp_a :: "(int \<times> u8 list) Node" where
  "tcp_a = tcp_node host_a (sample_ip 0 1) writer_a"

definition tcp_b :: "(int \<times> u8 list) Node" where
  "tcp_b = tcp_node host_b (sample_ip 1 2) sample_reader"

lemma sample_shells: "shells_ok wire_tcp sample_shell sample_shell"
  by (simp add: shells_ok_def sample_shell_def wire_pkgs_ok wire_tcp_ok sample_env_def range_ok_id)

lemma one_socket_ok:
  "unat (SocketID s) < k \<Longrightarrow> SocketID s + 1 = of_nat k \<Longrightarrow>
   layer_ok k \<lparr>SocketTable = [(SConn s, s)], ListenersTable = [], TLocalIP = ip, UsedPorts = [],
     socketIDCounter = SocketID s + 1\<rparr>"
  by (simp add: layer_ok_def named_def)

lemma sample_ends:
  "\<exists>l. tcp_end sample_shell tcp_a l sample_conn 1000 5000 writer_a"
  "\<exists>l. tcp_end sample_shell tcp_b l (mirror sample_conn) 5000 1000 sample_reader"
proof -
  have net: "routed sample_shell tcp_a (sample_ip 0 1) (sample_ip 1 2)"
    "routed sample_shell tcp_b (sample_ip 1 2) (sample_ip 0 1)"
    "is_destination (NetLayer (Stack tcp_a)) (sample_ip 0 1)"
    "is_destination (NetLayer (Stack tcp_b)) (sample_ip 1 2)"
    "map_of (Handlers (NetLayer (Stack tcp_a))) TCPProtocolNum = Some TCPApp"
    "map_of (Handlers (NetLayer (Stack tcp_b))) TCPProtocolNum = Some TCPApp"
    by code_simp+
  have ip: "LocalIP sample_conn = sample_ip 0 1" "RemoteIP sample_conn = sample_ip 1 2"
    by (simp_all add: sample_conn_def)
  have op: "opened sample_conn 1000 5000 writer_a" "opened (mirror sample_conn) 5000 1000 sample_reader"
    by (simp_all add: opened_def writer_a_def sample_writer_def sample_socket_def sample_reader_def
        MakeTCPSocket_def sock_inv_def flight_inv_def heap_upto_def RTOMin_def RTOMax_def)
  have conn: "SConn writer_a = sample_conn" "SConn sample_reader = mirror sample_conn"
    using op by (simp_all add: opened_def)
  have id: "SocketID writer_a = 0" "SocketID sample_reader = 1" by code_simp+
  let ?l = "\<lambda>ip s. \<lparr>SocketTable = [(SConn s, s)], ListenersTable = [], TLocalIP = ip, UsedPorts = [],
        socketIDCounter = SocketID s + 1\<rparr>"
  have "layer_ok 1 (?l (sample_ip 0 1) writer_a)" "layer_ok 2 (?l (sample_ip 1 2) sample_reader)"
    by (rule one_socket_ok; simp add: id)+
  moreover have "Layer tcp_a = Some (?l (sample_ip 0 1) writer_a)"
    "Layer tcp_b = Some (?l (sample_ip 1 2) sample_reader)"
    by (simp_all add: tcp_a_def tcp_b_def tcp_node_def)
  ultimately have "tcp_end sample_shell tcp_a (?l (sample_ip 0 1) writer_a) sample_conn 1000 5000 writer_a"
    "tcp_end sample_shell tcp_b (?l (sample_ip 1 2) sample_reader) (mirror sample_conn) 5000 1000 sample_reader"
    using net op conn by (auto simp: tcp_end_def tcp_host_def ip)
  then show "\<exists>l. tcp_end sample_shell tcp_a l sample_conn 1000 5000 writer_a"
    "\<exists>l. tcp_end sample_shell tcp_b l (mirror sample_conn) 5000 1000 sample_reader" by blast+
qed

text \<open>What happens when \<open>Hi\<close> is typed at the first.\<close>

definition typed_a :: "(int \<times> u8 list) TCPSocket" where
  "typed_a = writer_a\<lparr>WriteBuffer := (65535, [72, 105])\<rparr>"

definition hi_segment :: "u8 list" where
  "hi_segment = [156, 64, 0, 80, 0, 0, 3, 233, 0, 0, 19, 137, 80, 16, 255, 255, 0, 0, 0, 0, 72, 105]"

definition hi_datagram :: "u8 list" where
  "hi_datagram = [69, 0, 0, 42, 0, 0, 0, 0, 15, 6, 151, 203, 10, 0, 0, 1, 10, 1, 0, 2] @ hi_segment"

lemma a_types_hi:
  "HandleInput sample_shell (''s '' @ show_nat (unat (SocketID writer_a)) @ '' '' @ ''Hi'') True tcp_a =
     Inr (with_socket tcp_a sample_conn typed_a,
       [Printed (''Sent '' @ show_int (int (length ''Hi'')) @ '' bytes'' @ newline)], Prompt)"
proof -
  obtain l where l: "Layer tcp_a = Some l" "SocketTable l = [(SConn writer_a, writer_a)]" "the (Layer tcp_a) = l"
    by (simp add: tcp_a_def tcp_node_def)
  have "VWrite (node_env sample_shell tcp_a) (the (Layer tcp_a)) sample_conn [72, 105] =
      (store_socket sample_conn typed_a (the (Layer tcp_a)), Done (Inr 2), [])"
    and id: "SocketID writer_a = 0" and conn: "SConn writer_a = sample_conn" by code_simp+
  then have vw: "VWrite (node_env sample_shell tcp_a) l sample_conn [72, 105] =
      (store_socket sample_conn typed_a l, Done (Inr 2), [])" by (simp only: l(3))
  have get: "GetSocketById (SocketOrder sample_shell) l 0 = Some writer_a"
    by (simp add: GetSocketById_def sample_shell_def id l(2))
  have at: "Atoi (show_nat 0) = Inr 0" using Atoi_show_nat [of 0] by simp
  have "bytes_of ''Hi'' = [72, 105]" by (simp add: bytes_of_def)
  moreover have "go_split CHR '' '' ''Hi'' = [''Hi'']" by simp
  ultimately have "HandleInput sample_shell (''s '' @ show_nat 0 @ '' '' @ ''Hi'') True tcp_a =
      Inr (tcp_a\<lparr>Layer := Some (store_socket sample_conn typed_a l)\<rparr>,
        [Printed (''Sent '' @ show_int 2 @ '' bytes'' @ newline)], Prompt)"
    by (subst HandleInput_def, subst send_line) (simp add: Let_def HandleSendSocket_def at l(1) get conn vw)
  then show ?thesis by (simp add: id with_socket_Some [OF l(1)])
qed

lemma hi_route:
  obtains bytes hdr where "segment_datagram sample_shell tcp_a (sample_ip 1 2) hi_segment = Some bytes"
    "\<forall>x \<in> set [(sample_shell, router_ab)]. NetPkgs (fst x) = NetPkgs sample_shell"
    "carried [(sample_shell, router_ab)] bytes = Some hi_datagram"
    "ParseHeader (NetPkgs sample_shell) hi_datagram = Inr hdr" "IChecksum hdr \<noteq> 0"
proof -
  have "(case segment_datagram sample_shell tcp_a (sample_ip 1 2) hi_segment of None \<Rightarrow> None
      | Some bytes \<Rightarrow> carried [(sample_shell, router_ab)] bytes) = Some hi_datagram"
    "case ParseHeader (NetPkgs sample_shell) hi_datagram of Inl e \<Rightarrow> False | Inr hdr \<Rightarrow> IChecksum hdr \<noteq> 0"
    by code_simp+
  then show ?thesis
    by (auto split: option.splits sum.splits simp del: carried.simps intro: that)
qed

lemma hi_crosses: "crosses sample_shell tcp_a (sample_ip 1 2) hi_segment hi_datagram"
proof -
  obtain bytes hdr where "segment_datagram sample_shell tcp_a (sample_ip 1 2) hi_segment = Some bytes"
    "\<forall>x \<in> set [(sample_shell, router_ab)]. NetPkgs (fst x) = NetPkgs sample_shell"
    "carried [(sample_shell, router_ab)] bytes = Some hi_datagram"
    "ParseHeader (NetPkgs sample_shell) hi_datagram = Inr hdr" "IChecksum hdr \<noteq> 0"
    by (rule hi_route)
  then show ?thesis unfolding crosses_def by blast
qed

definition hi_packet :: TCPPacket where
  "hi_packet = \<lparr>SrcIP = 0, Header = \<lparr>SrcPort = 40000, DstPort = 80, SeqNum = 1001, AckNum = 5001,
     DataOffset = 20, Flags = TCPFlagAck, WindowSize = 65535, TChecksum = 0, UrgentPointer = 0\<rparr>,
     Data = [72, 105]\<rparr>"

theorem segment_crosses_network_witness:
  "node_step True sample_shell tcp_b (Datagram hi_datagram) = Inr (tcp_b,
     [Delivered (ToSocket (mirror sample_conn) (hi_packet\<lparr>SrcIP := sample_ip 0 1\<rparr>))])"
proof -
  have env: "net_pkgs_ok (NetPkgs sample_shell)" "range_ok (RangeOrder sample_shell)" "tcp_pkgs_ok wire_tcp"
    "TPkg (TcpEnv sample_shell) = wire_tcp" using sample_shells by (simp_all add: shells_ok_def)
  obtain la lb where ends: "tcp_end sample_shell tcp_a la sample_conn 1000 5000 writer_a"
    "tcp_end sample_shell tcp_b lb (mirror sample_conn) 5000 1000 sample_reader"
    using sample_ends by blast
  then have h: "routed sample_shell tcp_a (sample_ip 0 1) (sample_ip 1 2)" "tcp_host tcp_b lb (sample_ip 1 2)"
    "map_of (SocketTable lb) (mirror sample_conn) = Some sample_reader"
    by (simp_all add: tcp_end_def mirror_def sample_conn_def)
  have p: "tcp_hdr_ok (Header hi_packet)" "length (Data hi_packet) \<le> 1024" by code_simp+
  have raw: "MarshalTCP wire_tcp hi_packet = hi_segment" by code_simp
  have m: "\<lparr>LocalIP = sample_ip 1 2, LocalPort = DstPort (Header hi_packet), RemoteIP = sample_ip 0 1,
      RemotePort = SrcPort (Header hi_packet)\<rparr> = mirror sample_conn"
    by (simp add: mirror_def sample_conn_def hi_packet_def)
  obtain bytes hdr where d: "segment_datagram sample_shell tcp_a (sample_ip 1 2) hi_segment = Some bytes"
    "\<forall>x \<in> set [(sample_shell, router_ab)]. NetPkgs (fst x) = NetPkgs sample_shell"
    "carried [(sample_shell, router_ab)] bytes = Some hi_datagram"
    "ParseHeader (NetPkgs sample_shell) hi_datagram = Inr hdr" "IChecksum hdr \<noteq> 0"
    by (rule hi_route)
  from segment_crosses_network [OF env(1) refl env(2-4) h(1,2) p, unfolded raw m, OF d(1-3)] d(4,5) h(3)
  show ?thesis by (simp add: segment_goes_def del: node_step.simps)
qed

lemma hi_sent: "HandleVWrite_turn (node_env sample_shell tcp_a) (Now sample_shell) typed_a =
    (fst (HandleVWrite_turn (node_env sample_shell tcp_a) (Now sample_shell) typed_a),
     [Sent (sample_ip 1 2) hi_segment], Running)"
proof -
  have "snd (HandleVWrite_turn (node_env sample_shell tcp_a) (Now sample_shell) typed_a) =
      ([Sent (sample_ip 1 2) hi_segment], Running)" by code_simp
  then show ?thesis by (intro prod_eqI) simp_all
qed

theorem typed_text_crosses_tcp_witness:
  "HandleInput sample_shell (''s '' @ show_nat (unat (SocketID writer_a)) @ '' '' @ ''Hi'') True tcp_a =
     Inr (with_socket tcp_a sample_conn typed_a,
       [Printed (''Sent '' @ show_int (int (length ''Hi'')) @ '' bytes'' @ newline)], Prompt) \<and>
   crosses sample_shell tcp_a (sample_ip 1 2) hi_segment hi_datagram \<and>
   (\<exists>b2. HandleInput sample_shell (''r '' @ show_nat (unat (SocketID sample_reader)) @ '' '' @ show_nat 10) True
       (fst (handle_datagram sample_shell (tcp_b, []) hi_datagram)) =
     Inr (b2, [Printed (''Read '' @ show_nat (length ''Hi'') @ '' bytes: '' @ ''Hi'' @ newline)], Prompt))"
proof -
  let ?ok = "\<lambda>(c :: int, xs :: u8 list). int (length xs) \<le> c"
  have rb: "ringbuffer_ok (RPkg (TcpEnv sample_shell)) ?ok snd fst"
    using list_rb_ok by (simp add: sample_env_def sample_shell_def)
  obtain la lb where ends: "tcp_end sample_shell tcp_a la sample_conn 1000 5000 writer_a"
    "tcp_end sample_shell tcp_b lb (mirror sample_conn) 5000 1000 sample_reader"
    using sample_ends by blast
  have bufs: "?ok (WriteBuffer writer_a)" "snd (WriteBuffer writer_a) = []"
    "int (length ''Hi'') \<le> fst (WriteBuffer writer_a)" "?ok (ReadBuffer sample_reader)"
    "snd (ReadBuffer sample_reader) = []" "int (length ''Hi'') \<le> fst (ReadBuffer sample_reader)"
    "''Hi'' \<noteq> ''''" "length ''Hi'' \<le> 65535" "uint (1000 :: u32) + 1 + int (length ''Hi'') < 2 ^ 32"
    "length ''Hi'' \<le> 10" "(10 :: nat) < 2 ^ 63"
    by (simp_all add: writer_a_def sample_reader_def MakeTCPSocket_def list_rb_def MaxBufferSize_def)
  have ip: "RemoteIP sample_conn = sample_ip 1 2" by (simp add: sample_conn_def)
  obtain s1 s2 raws where r: "HandleInput sample_shell (''s '' @ show_nat (unat (SocketID writer_a)) @ '' '' @ ''Hi'') True tcp_a =
      Inr (with_socket tcp_a sample_conn s1,
        [Printed (''Sent '' @ show_int (int (length ''Hi'')) @ '' bytes'' @ newline)], Prompt)"
    "HandleVWrite_turn (node_env sample_shell tcp_a) (Now sample_shell) s1 =
      (s2, map (Sent (RemoteIP sample_conn)) raws, Running)"
    "\<forall>datagrams. list_all2 (crosses sample_shell tcp_a (RemoteIP sample_conn)) raws datagrams \<longrightarrow>
      (\<exists>b1 b2 rest ack.
        foldl (handle_datagram sample_shell) (tcp_b, []) datagrams = (b1, rest @ [Sent (LocalIP sample_conn) ack]) \<and>
        HandleInput sample_shell (''r '' @ show_nat (unat (SocketID sample_reader)) @ '' '' @ show_nat 10) True b1 =
          Inr (b2, [Printed (''Read '' @ show_nat (length ''Hi'') @ '' bytes: '' @ ''Hi'' @ newline)], Prompt))"
    using typed_text_crosses_tcp [OF sample_shells rb rb ends bufs] by (elim exE conjE) (rule that, assumption+, blast)
  have "with_socket tcp_a sample_conn s1 = with_socket tcp_a sample_conn typed_a" using r(1) a_types_hi by simp
  then have "node_socket (with_socket tcp_a sample_conn s1) sample_conn =
      node_socket (with_socket tcp_a sample_conn typed_a) sample_conn" by simp
  moreover obtain l where "Layer tcp_a = Some l" by (simp add: tcp_a_def tcp_node_def)
  ultimately have "s1 = typed_a" by simp
  then have "map (Sent (RemoteIP sample_conn)) raws = [Sent (sample_ip 1 2) hi_segment]"
    using r(2) hi_sent by simp
  then have "raws = [hi_segment]" by auto
  then have "list_all2 (crosses sample_shell tcp_a (RemoteIP sample_conn)) raws [hi_datagram]"
    using hi_crosses by (simp add: ip)
  with r(3) a_types_hi hi_crosses show ?thesis by fastforce
qed

end
