(* ===== verification/TcpOpening.thy ===== *)
theory TcpOpening
  imports TcpOverIp
begin

text \<open>
  A connection is opened from two prompts: \<open>a\<close> on one host, \<open>c\<close> on the other, and the three segments of the
  handshake cross the network as datagrams. What it leaves is where the theorem about typed
  text in TcpOverIp starts.
\<close>

section \<open>The commands\<close>

lemma accept_line: "go_split CHR '' '' (''a '' @ show_nat n) = [''a'', show_nat n]"
  using go_split_cut [of "CHR '' ''" "''a''" "show_nat n"] go_split_single [OF number_word, of n] by simp

lemma connect_line:
  "go_split CHR '' '' (''c '' @ show_addr ip @ '' '' @ show_nat n) = [''c'', show_addr ip, show_nat n]"
  using go_split_cut [of "CHR '' ''" "''c''" "show_addr ip @ '' '' @ show_nat n"]
    go_split_cut [of "CHR '' ''" "show_addr ip" "show_nat n"] line_pieces
    go_split_single [OF number_word, of n] by simp

lemma port_number: "Atoi (show_nat (unat (p :: u16))) = Inr (uint p)"
proof -
  have "unat p < 2 ^ 16" using unsigned_less [of p] by simp
  then have "unat p < 2 ^ 63" by (rule less_trans) simp
  from Atoi_show_nat [OF this] show ?thesis by simp
qed

definition listener_on :: "'b TCPLayer \<Rightarrow> u16 \<Rightarrow> VTCPListener" where
  "listener_on l port = \<lparr>LSocketID = socketIDCounter l, LIPAddress = TLocalIP l, LPortNumber = port\<rparr>"

text \<open>\<open>a\<close> opens a listener and starts the goroutine that accepts.\<close>

lemma typed_accept:
  assumes "Layer b = Some lb" "map_of (ListenersTable lb) port = None"
  shows "\<exists>lb1. VListen lb port = Inr (lb1, listener_on lb port) \<and>
    HandleInput S (''a '' @ show_nat (unat port)) True b =
      Inr (b\<lparr>Layer := Some lb1\<rparr>, [StartTask (AcceptFrom (listener_on lb port))], Prompt) \<and>
    TLocalIP lb1 = TLocalIP lb \<and> SocketTable lb1 = SocketTable lb \<and>
    map_of (ListenersTable lb1) port = Some (listener_on lb port)"
proof -
  obtain lb1 where lb1: "VListen lb port = Inr (lb1, listener_on lb port)" "TLocalIP lb1 = TLocalIP lb"
    "SocketTable lb1 = SocketTable lb" "map_of (ListenersTable lb1) port = Some (listener_on lb port)"
    using assms(2) by (auto simp: VListen_def getNextSocketID_def listener_on_def Let_def update_conv')
  have "HandleInput S (''a '' @ show_nat (unat port)) True b = HandleAccept [''a'', show_nat (unat port)] b"
    by (subst HandleInput_def, subst accept_line) (simp add: Let_def)
  then have "HandleInput S (''a '' @ show_nat (unat port)) True b =
      Inr (b\<lparr>Layer := Some lb1\<rparr>, [StartTask (AcceptFrom (listener_on lb port))], Prompt)"
    using lb1(1) assms(1) by (simp add: HandleAccept_def AtoiValue_def port_number)
  with lb1 show ?thesis by blast
qed

lemma typed_connect:
  "HandleInput S (''c '' @ show_addr ip @ '' '' @ show_nat (unat port)) True a =
     Inr (a, [StartTask (ConnectTo ip port)], Prompt)"
  by (subst HandleInput_def, subst connect_line) (simp add: Let_def HandleConnect_def port_number)

section \<open>The segments\<close>

lemma crosses_layer [simp]: "crosses S (h\<lparr>Layer := l\<rparr>) = crosses S h"
  by (simp add: crosses_def fun_eq_iff)

lemma routed_layer [simp]: "routed S (h\<lparr>Layer := l\<rparr>) = routed S h"
  by (simp add: routed_def fun_eq_iff)

lemma segment_delivered:
  assumes sh: "shells_ok T S S'" and "routed S a (LocalIP conn) (RemoteIP conn)"
    and host: "tcp_host b l (RemoteIP conn)" and p: "segment_from conn p"
    and d: "crosses S a (RemoteIP conn) (MarshalTCP T p) datagram"
  shows "node_step True S' b (Datagram datagram) = Inr (b, [Delivered (segment_goes l (mirror conn) p)])"
proof -
  have env: "net_pkgs_ok (NetPkgs S)" "NetPkgs S' = NetPkgs S" "range_ok (RangeOrder S')" "tcp_pkgs_ok T"
    "TPkg (TcpEnv S') = T" using sh by (simp_all add: shells_ok_def)
  have p': "tcp_hdr_ok (Header p)" "length (Data p) \<le> 1024" "p\<lparr>SrcIP := LocalIP conn\<rparr> = p"
    using p by (simp_all add: segment_from_def)
  have m: "\<lparr>LocalIP = RemoteIP conn, LocalPort = DstPort (Header p), RemoteIP = LocalIP conn,
      RemotePort = SrcPort (Header p)\<rparr> = mirror conn" using p by (simp add: mirror_def segment_from_def)
  obtain bytes path hdr where "segment_datagram S a (RemoteIP conn) (MarshalTCP T p) = Some bytes"
    "\<forall>x \<in> set (path :: ('a shell_env \<times> 'a Node) list). NetPkgs (fst x) = NetPkgs S"
    "carried path bytes = Some datagram" "ParseHeader (NetPkgs S) datagram = Inr hdr" "IChecksum hdr \<noteq> 0"
    using d unfolding crosses_def by blast
  from segment_crosses [OF env assms(2) host p'(1,2) this(1-3), unfolded m p'(3)] this(4,5)
  show ?thesis by simp
qed

section \<open>The handshake between two prompts\<close>

lemma end_after_handshake:
  assumes "tcp_host h l (LocalIP conn)" "layer_ok k l" "k < 2 ^ 32"
    "routed S h (LocalIP conn) (RemoteIP conn)" "fresh_end E (socketIDCounter l) conn isn risn s"
    and l1: "l1 = store_socket conn s1 (snd (getNextSocketID l))"
  shows "tcp_end S (h\<lparr>Layer := Some (store_socket conn s l1)\<rparr>) (store_socket conn s l1) conn isn risn s"
proof -
  have s: "opened conn isn risn s" "SocketID s = socketIDCounter l" "SConn s = conn"
    using assms(5) by (simp_all add: fresh_end_def opened_def)
  have "store_socket conn s l1 = store_socket conn s (snd (getNextSocketID l))"
    by (simp add: l1 store_socket_again)
  then have "layer_ok (Suc k) (store_socket conn s l1)"
    using layer_ok_new_socket [OF assms(2,3) s(2,3)] by simp
  moreover have "tcp_host (h\<lparr>Layer := Some (store_socket conn s l1)\<rparr>) (store_socket conn s l1) (LocalIP conn)"
    using assms(1) by (simp add: tcp_host_def l1)
  ultimately show ?thesis using assms(4) s(1) by (auto simp: tcp_end_def)
qed

text \<open>What a host does with a datagram for TCP while a call waits for it: the event \<open>Datagram\<close> of
  \<open>node_step\<close>, then the call, with what it sends and returns; \<open>None\<close> if the datagram is not for that call.\<close>

definition delivered :: "'b shell_env \<Rightarrow> 'b Node \<Rightarrow> u8 list \<Rightarrow> ('b TCPLayer \<times> delivery) option" where
  "delivered S h datagram =
     (case node_step True S h (Datagram datagram) of
        Inr (h', [Delivered x]) \<Rightarrow> map_option (\<lambda>l. (l, x)) (Layer h')
      | _ \<Rightarrow> None)"

definition connect_on ::
  "'b shell_env \<Rightarrow> (nat \<Rightarrow> u32) \<Rightarrow> u32 \<Rightarrow> 'b Node \<Rightarrow> Addr \<Rightarrow> u16
     \<Rightarrow> ('b Node \<times> tcp_effect list \<times> VTCPConn res) option" where
  "connect_on S rnd isn h ip port =
     (case Layer h of
        None \<Rightarrow> None
      | Some l \<Rightarrow> map_option (\<lambda>(l', sent, r). (h\<lparr>Layer := Some l'\<rparr>, sent, r))
          (VConnect_start (node_env S h) rnd isn l ip port))"

definition accept_on ::
  "'b shell_env \<Rightarrow> u32 \<Rightarrow> VTCPListener \<Rightarrow> 'b Node \<Rightarrow> u8 list
     \<Rightarrow> ('b Node \<times> tcp_effect list \<times> VTCPConn res) option" where
  "accept_on S isn lst h datagram =
     (case delivered S h datagram of
        Some (l, ToListener port p) \<Rightarrow>
          if port = LPortNumber lst
          then case VAccept_syn (node_env S h) isn lst l p of (l', sent, r) \<Rightarrow> Some (h\<lparr>Layer := Some l'\<rparr>, sent, r)
          else None
      | _ \<Rightarrow> None)"

definition connected_on ::
  "'b shell_env \<Rightarrow> VTCPConn \<Rightarrow> 'b Node \<Rightarrow> u8 list \<Rightarrow> ('b Node \<times> tcp_effect list \<times> VTCPConn res) option" where
  "connected_on S conn h datagram =
     (case delivered S h datagram of
        Some (l, ToSocket c p) \<Rightarrow>
          if c = conn
          then case VConnect_synack (node_env S h) l conn p of (l', sent, r) \<Rightarrow> Some (h\<lparr>Layer := Some l'\<rparr>, sent, r)
          else None
      | _ \<Rightarrow> None)"

definition accepted_on ::
  "'b shell_env \<Rightarrow> VTCPConn \<Rightarrow> 'b Node \<Rightarrow> u8 list \<Rightarrow> ('b Node \<times> VTCPConn res) option" where
  "accepted_on S conn h datagram =
     (case delivered S h datagram of
        Some (l, ToSocket c p) \<Rightarrow>
          if c = conn then case VAccept_ack l conn p of (l', r) \<Rightarrow> Some (h\<lparr>Layer := Some l'\<rparr>, r) else None
      | _ \<Rightarrow> None)"

lemma segment_reaches:
  assumes "shells_ok T S S'" "routed S a (LocalIP conn) (RemoteIP conn)"
    "tcp_host b l (RemoteIP conn)" "segment_from conn p" "crosses S a (RemoteIP conn) (MarshalTCP T p) datagram"
  shows "delivered S' b datagram = Some (l, segment_goes l (mirror conn) p)"
  using segment_delivered [OF assms] assms(3) by (simp add: delivered_def tcp_host_def del: node_step.simps)

text \<open>The calls, on two nodes with routes to each other.\<close>

lemma calls_between_nodes:
  assumes "shells_ok T S S'" and "tcp_host a la (LocalIP conn)" and "tcp_host b lb (RemoteIP conn)"
    and "routed S a (LocalIP conn) (RemoteIP conn)" "routed S' b (RemoteIP conn) (LocalIP conn)"
    and "LIPAddress lst = RemoteIP conn" "LPortNumber lst = RemotePort conn"
    and "getUnusedPort la rnd = Some (LocalPort conn)" "map_of (SocketTable la) conn = None"
  shows "\<exists>la1 lb1 syn synack ack s1 s2 sA sB.
    la1 = store_socket conn s1 (snd (getNextSocketID la)) \<and>
    lb1 = store_socket (mirror conn) s2 (snd (getNextSocketID lb)) \<and>
    VConnect_start (node_env S a) rnd isnA la (RemoteIP conn) (RemotePort conn) =
      Some (la1, [Sent (RemoteIP conn) (MarshalTCP T syn)], Inr conn) \<and>
    VAccept_syn (node_env S' b) isnB lst lb syn =
      (lb1, [Sent (LocalIP conn) (MarshalTCP T synack)], Inr (mirror conn)) \<and>
    VConnect_synack (node_env S a) la1 conn synack =
      (store_socket conn sA la1, [Sent (RemoteIP conn) (MarshalTCP T ack)], Inr conn) \<and>
    VAccept_ack lb1 (mirror conn) ack = (store_socket (mirror conn) sB lb1, Inr (mirror conn)) \<and>
    segment_from conn syn \<and> segment_from (mirror conn) synack \<and> segment_from conn ack \<and>
    fresh_end (TcpEnv S) (socketIDCounter la) conn isnA isnB sA \<and>
    fresh_end (TcpEnv S') (socketIDCounter lb) (mirror conn) isnB isnA sB"
proof -
  have T: "tcp_pkgs_ok T" "TPkg (TcpEnv S) = T" "TPkg (TcpEnv S') = T"
    "net_pkgs_ok (NetPkgs S)" "net_pkgs_ok (NetPkgs S')" using assms(1) by (auto simp: shells_ok_def)
  have ip: "TLocalIP la = LocalIP conn" "TLocalIP lb = RemoteIP conn"
    using assms(2,3) by (simp_all add: tcp_host_def)
  have net: "net_takes (node_env S a) (TLocalIP lb)" "net_takes (node_env S' b) (TLocalIP la)"
    using node_takes [OF T(4) _ assms(4)] node_takes [OF T(5) _ assms(5)] by (simp_all add: T ip)
  have E: "TPkg (node_env S a) = T" "TPkg (node_env S' b) = T" by (simp_all add: T)
  have fresh: "fresh_end (node_env Z h) i c x y s = fresh_end (TcpEnv Z) i c x y s"
    for Z :: "'a shell_env" and h i c x y s by (simp add: fresh_end_def)
  have "conn = \<lparr>LocalIP = TLocalIP la, LocalPort = LocalPort conn, RemoteIP = TLocalIP lb,
      RemotePort = RemotePort conn\<rparr>" by (simp add: ip)
  from handshake_calls [OF E net _ assms(7,8) this assms(9), of isnA isnB] assms(6)
  show ?thesis unfolding ip fresh by simp
qed

text \<open>The handshake with a listener, segment by segment.\<close>

lemma handshake_datagrams:
  assumes sh: "shells_ok T S S'" and hosts: "tcp_host a la (LocalIP conn)" "tcp_host b lb (RemoteIP conn)"
    and ok: "layer_ok k la" "k < 2 ^ 32" "layer_ok j lb" "j < 2 ^ 32"
    and "routed S a (LocalIP conn) (RemoteIP conn)" "routed S' b (RemoteIP conn) (LocalIP conn)"
    and lst: "LIPAddress lst = RemoteIP conn" "LPortNumber lst = RemotePort conn"
      "map_of (ListenersTable lb) (RemotePort conn) = Some lst"
    and "getUnusedPort la rnd = Some (LocalPort conn)"
    and "map_of (SocketTable la) conn = None" "map_of (SocketTable lb) (mirror conn) = None"
  shows "\<exists>a1 syn. connect_on S rnd isnA a (RemoteIP conn) (RemotePort conn) =
      Some (a1, [Sent (RemoteIP conn) syn], Inr conn) \<and>
    (\<forall>d1. crosses S a (RemoteIP conn) syn d1 \<longrightarrow> (\<exists>b1 synack.
      accept_on S' isnB lst b d1 = Some (b1, [Sent (LocalIP conn) synack], Inr (mirror conn)) \<and>
      (\<forall>d2. crosses S' b1 (LocalIP conn) synack d2 \<longrightarrow> (\<exists>a2 ack.
        connected_on S conn a1 d2 = Some (a2, [Sent (RemoteIP conn) ack], Inr conn) \<and>
        (\<forall>d3. crosses S a2 (RemoteIP conn) ack d3 \<longrightarrow> (\<exists>b2 la2 lb2 sA sB.
          accepted_on S' (mirror conn) b1 d3 = Some (b2, Inr (mirror conn)) \<and>
          tcp_end S a2 la2 conn isnA isnB sA \<and> tcp_end S' b2 lb2 (mirror conn) isnB isnA sB \<and>
          fresh_end (TcpEnv S) (socketIDCounter la) conn isnA isnB sA \<and>
          fresh_end (TcpEnv S') (socketIDCounter lb) (mirror conn) isnB isnA sB))))))"
proof -
  have sh': "shells_ok T S' S" using sh by (auto simp: shells_ok_def)
  have la: "Layer a = Some la" using hosts(1) by (simp add: tcp_host_def)
  obtain la1 lb1 syn synack ack s1 s2 sA sB where
    l1: "la1 = store_socket conn s1 (snd (getNextSocketID la))"
      "lb1 = store_socket (mirror conn) s2 (snd (getNextSocketID lb))" and
    calls: "VConnect_start (node_env S a) rnd isnA la (RemoteIP conn) (RemotePort conn) =
        Some (la1, [Sent (RemoteIP conn) (MarshalTCP T syn)], Inr conn)"
      "VAccept_syn (node_env S' b) isnB lst lb syn =
        (lb1, [Sent (LocalIP conn) (MarshalTCP T synack)], Inr (mirror conn))"
      "VConnect_synack (node_env S a) la1 conn synack =
        (store_socket conn sA la1, [Sent (RemoteIP conn) (MarshalTCP T ack)], Inr conn)"
      "VAccept_ack lb1 (mirror conn) ack = (store_socket (mirror conn) sB lb1, Inr (mirror conn))" and
    segs: "segment_from conn syn" "segment_from (mirror conn) synack" "segment_from conn ack" and
    ends: "fresh_end (TcpEnv S) (socketIDCounter la) conn isnA isnB sA"
      "fresh_end (TcpEnv S') (socketIDCounter lb) (mirror conn) isnB isnA sB"
    using calls_between_nodes [OF sh hosts assms(8,9) lst(1,2) assms(13,14), of isnA isnB] by blast
  let ?a1 = "a\<lparr>Layer := Some la1\<rparr>" and ?b1 = "b\<lparr>Layer := Some lb1\<rparr>"
  have waiting: "tcp_host ?a1 la1 (RemoteIP (mirror conn))" "tcp_host ?b1 lb1 (RemoteIP conn)"
    using hosts by (simp_all add: tcp_host_def l1)
  have routes: "routed S a (LocalIP conn) (RemoteIP conn)"
    "routed S' b (LocalIP (mirror conn)) (RemoteIP (mirror conn))" using assms(8,9) by simp_all
  have connect: "connect_on S rnd isnA a (RemoteIP conn) (RemotePort conn) =
      Some (?a1, [Sent (RemoteIP conn) (MarshalTCP T syn)], Inr conn)"
    using calls(1) by (simp add: connect_on_def la)
  have accept: "accept_on S' isnB lst b d = Some (?b1, [Sent (LocalIP conn) (MarshalTCP T synack)], Inr (mirror conn))"
    if "crosses S a (RemoteIP conn) (MarshalTCP T syn) d" for d
    using segment_reaches [OF sh routes(1) hosts(2) segs(1) that] assms(15) calls(2) lst(2,3)
    by (simp add: accept_on_def segment_goes_def)
  have connected: "connected_on S conn ?a1 d =
      Some (a\<lparr>Layer := Some (store_socket conn sA la1)\<rparr>, [Sent (RemoteIP conn) (MarshalTCP T ack)], Inr conn)"
    if "crosses S' ?b1 (LocalIP conn) (MarshalTCP T synack) d" for d
    using segment_reaches [OF sh' routes(2) waiting(1) segs(2)] that calls(3)
    by (simp add: connected_on_def segment_goes_def l1)
  have accepted: "accepted_on S' (mirror conn) ?b1 d =
      Some (b\<lparr>Layer := Some (store_socket (mirror conn) sB lb1)\<rparr>, Inr (mirror conn))"
    if "crosses S (a\<lparr>Layer := Some (store_socket conn sA la1)\<rparr>) (RemoteIP conn) (MarshalTCP T ack) d" for d
    using segment_reaches [OF sh routes(1) waiting(2) segs(3)] that calls(4)
    by (simp add: accepted_on_def segment_goes_def l1)
  have "tcp_host b lb (LocalIP (mirror conn))" using hosts(2) by simp
  note both = end_after_handshake [OF hosts(1) ok(1,2) routes(1) ends(1) l1(1)]
    end_after_handshake [OF this ok(3,4) routes(2) ends(2) l1(2)]
  show ?thesis
    by (intro exI conjI allI impI, rule connect, erule accept, erule connected, erule accepted, rule both(1),
        rule both(2), rule ends(1), rule ends(2))
qed

text \<open>C3: A connection is opened from two prompts across the network. On one host the user types
  \<open>a <port>\<close>, which leaves a listener and starts \<open>VAccept\<close>; on the other \<open>c <address> <port>\<close>, which starts
  \<open>VConnect\<close>. \<open>VConnect\<close> sends a SYN. Whatever nodes forward its datagram, the listener gets it, and
  \<open>VAccept\<close> answers with a SYN-ACK; its datagram goes to the connecting socket, and \<open>VConnect\<close> returns
  with an ACK; that one goes to the accepting socket, and \<open>VAccept\<close> returns. Both ends are then open,
  agree on addresses and numbers, have empty buffers and the next free socket IDs: the state in which
  \<open>s\<close> and \<open>r\<close> carry text. (Datagrams whose header checksum comes out as 0 are dropped.)\<close>

theorem commands_open_connection:
  assumes "shells_ok T S S'" and "tcp_host a la ipA" and "tcp_host b lb ipB"
    and "layer_ok k la" "k < 2 ^ 32" "layer_ok j lb" "Suc j < 2 ^ 32"
    and "routed S a ipA ipB" "routed S' b ipB ipA"
    and "map_of (ListenersTable lb) port = None" "getUnusedPort la rnd = Some aport"
    and "conn = \<lparr>LocalIP = ipA, LocalPort = aport, RemoteIP = ipB, RemotePort = port\<rparr>"
    and "map_of (SocketTable la) conn = None" "map_of (SocketTable lb) (mirror conn) = None"
  shows "\<exists>b0 a1 syn.
    HandleInput S' (''a '' @ show_nat (unat port)) True b =
      Inr (b0, [StartTask (AcceptFrom (listener_on lb port))], Prompt) \<and>
    HandleInput S (''c '' @ show_addr ipB @ '' '' @ show_nat (unat port)) True a =
      Inr (a, [StartTask (ConnectTo ipB port)], Prompt) \<and>
    connect_on S rnd isnA a ipB port = Some (a1, [Sent ipB syn], Inr conn) \<and>
    (\<forall>d1. crosses S a ipB syn d1 \<longrightarrow> (\<exists>b1 synack.
      accept_on S' isnB (listener_on lb port) b0 d1 = Some (b1, [Sent ipA synack], Inr (mirror conn)) \<and>
      (\<forall>d2. crosses S' b1 ipA synack d2 \<longrightarrow> (\<exists>a2 ack.
        connected_on S conn a1 d2 = Some (a2, [Sent ipB ack], Inr conn) \<and>
        (\<forall>d3. crosses S a2 ipB ack d3 \<longrightarrow> (\<exists>b2 la2 lb2 sA sB.
          accepted_on S' (mirror conn) b1 d3 = Some (b2, Inr (mirror conn)) \<and>
          tcp_end S a2 la2 conn isnA isnB sA \<and> tcp_end S' b2 lb2 (mirror conn) isnB isnA sB \<and>
          fresh_end (TcpEnv S) (socketIDCounter la) conn isnA isnB sA \<and>
          fresh_end (TcpEnv S') (socketIDCounter lb + 1) (mirror conn) isnB isnA sB))))))"
proof -
  have lb: "Layer b = Some lb" "TLocalIP lb = ipB" using assms(3) by (simp_all add: tcp_host_def)
  have ip: "LocalIP conn = ipA" "LocalPort conn = aport" "RemoteIP conn = ipB" "RemotePort conn = port"
    by (simp_all add: assms(12))
  let ?lst = "listener_on lb port"
  obtain lb0 where listen: "VListen lb port = Inr (lb0, ?lst)"
    "HandleInput S' (''a '' @ show_nat (unat port)) True b =
      Inr (b\<lparr>Layer := Some lb0\<rparr>, [StartTask (AcceptFrom ?lst)], Prompt)"
    "TLocalIP lb0 = TLocalIP lb" "SocketTable lb0 = SocketTable lb" "map_of (ListenersTable lb0) port = Some ?lst"
    using typed_accept [OF lb(1) assms(10), of S'] by blast
  let ?b0 = "b\<lparr>Layer := Some lb0\<rparr>"
  have ok0: "layer_ok (Suc j) lb0" using layer_ok_new_listener [OF assms(6) _ listen(1)] assms(7) by simp
  have lst: "LIPAddress ?lst = RemoteIP conn" "LPortNumber ?lst = RemotePort conn"
    by (simp_all add: listener_on_def lb ip)
  have b0: "tcp_host ?b0 lb0 (RemoteIP conn)" using assms(3) by (simp add: tcp_host_def listen(3) ip)
  have id: "socketIDCounter lb0 = socketIDCounter lb + 1"
    using listen(1) by (auto simp: VListen_def getNextSocketID_def Let_def split: if_splits)
  have "\<exists>a1 syn. connect_on S rnd isnA a ipB port = Some (a1, [Sent ipB syn], Inr conn) \<and>
    (\<forall>d1. crosses S a ipB syn d1 \<longrightarrow> (\<exists>b1 synack.
      accept_on S' isnB ?lst ?b0 d1 = Some (b1, [Sent ipA synack], Inr (mirror conn)) \<and>
      (\<forall>d2. crosses S' b1 ipA synack d2 \<longrightarrow> (\<exists>a2 ack.
        connected_on S conn a1 d2 = Some (a2, [Sent ipB ack], Inr conn) \<and>
        (\<forall>d3. crosses S a2 ipB ack d3 \<longrightarrow> (\<exists>b2 la2 lb2 sA sB.
          accepted_on S' (mirror conn) b1 d3 = Some (b2, Inr (mirror conn)) \<and>
          tcp_end S a2 la2 conn isnA isnB sA \<and> tcp_end S' b2 lb2 (mirror conn) isnB isnA sB \<and>
          fresh_end (TcpEnv S) (socketIDCounter la) conn isnA isnB sA \<and>
          fresh_end (TcpEnv S') (socketIDCounter lb + 1) (mirror conn) isnB isnA sB))))))"
    using handshake_datagrams [OF assms(1) _ b0 assms(4,5) ok0 assms(7) _ _ lst, of a rnd isnA isnB] assms(2,8,9,11,13,14)
    by (simp only: ip listen(4,5) id routed_layer simp_thms)
  with listen(2) typed_connect show ?thesis by blast
qed

text \<open>What the handshake leaves in the buffers is what text typed next needs.\<close>

lemma fresh_buffers:
  assumes "ringbuffer_ok (RPkg E) okb bytes cap" "fresh_end E i conn isn risn s"
  shows "okb (ReadBuffer s)" "bytes (ReadBuffer s) = []" "cap (ReadBuffer s) = 65535"
    "okb (WriteBuffer s)" "bytes (WriteBuffer s) = []" "cap (WriteBuffer s) = 65535"
  using assms by (simp_all add: ringbuffer_ok_def fresh_end_def MaxBufferSize_def)

text \<open>The hosts of the sample network, started, and their handshake on port 80.\<close>

definition started :: "(int \<times> u8 list) Node \<Rightarrow> Addr \<Rightarrow> (int \<times> u8 list) Node" where
  "started h ip = \<lparr>Stack = RegisterRecvHandler (Stack h) TCPProtocolNum TCPApp, Layer = Some (host_layer ip)\<rparr>"

definition started_a :: "(int \<times> u8 list) Node" where
  "started_a = started host_a (sample_ip 0 1)"

definition started_b :: "(int \<times> u8 list) Node" where
  "started_b = started host_b (sample_ip 1 2)"

definition conn_80 :: VTCPConn where
  "conn_80 = \<lparr>LocalIP = sample_ip 0 1, LocalPort = 1029, RemoteIP = sample_ip 1 2, RemotePort = 80\<rparr>"

definition listening :: "(int \<times> u8 list) TCPLayer" where
  "listening = (case VListen (host_layer (sample_ip 1 2)) 80 of
     Inl e \<Rightarrow> host_layer (sample_ip 1 2) | Inr (l, x) \<Rightarrow> l)"

definition connecting :: "(int \<times> u8 list) TCPLayer" where
  "connecting = store_socket conn_80 (MakeTCPSocket list_rb 0 7 SYN_SENT conn_80 0)
     (snd (getNextSocketID (host_layer (sample_ip 0 1))))"

text \<open>The segments are sent to the other host and read there as these datagrams.\<close>

definition syn_80 :: "u8 list" where
  "syn_80 = [4, 5, 0, 80, 0, 0, 0, 7, 0, 0, 0, 0, 80, 2, 255, 255, 0, 0, 0, 0]"

definition synack_80 :: "u8 list" where
  "synack_80 = [0, 80, 4, 5, 0, 0, 0, 9, 0, 0, 0, 8, 80, 18, 255, 255, 0, 0, 0, 0]"

definition ack_80 :: "u8 list" where
  "ack_80 = [4, 5, 0, 80, 0, 0, 0, 8, 0, 0, 0, 10, 80, 16, 255, 255, 0, 0, 0, 0]"

definition from_a :: "u8 list" where
  "from_a = [69, 0, 0, 40, 0, 0, 0, 0, 15, 6, 151, 205, 10, 0, 0, 1, 10, 1, 0, 2]"

definition from_b :: "u8 list" where
  "from_b = [69, 0, 0, 40, 0, 0, 0, 0, 15, 6, 151, 205, 10, 1, 0, 2, 10, 0, 0, 1]"

lemma crosses_by_router:
  assumes "(case segment_datagram sample_shell h dst raw of None \<Rightarrow> None
      | Some bytes \<Rightarrow> carried [(sample_shell, router_ab)] bytes) = Some datagram"
    "case ParseHeader (NetPkgs sample_shell) datagram of Inl e \<Rightarrow> False | Inr hdr \<Rightarrow> IChecksum hdr \<noteq> 0"
  shows "crosses sample_shell h dst raw datagram"
proof -
  obtain bytes hdr where "segment_datagram sample_shell h dst raw = Some bytes"
    "carried [(sample_shell, router_ab)] bytes = Some datagram"
    "ParseHeader (NetPkgs sample_shell) datagram = Inr hdr" "IChecksum hdr \<noteq> 0"
    using assms by (auto split: option.splits sum.splits simp del: carried.simps)
  moreover have "\<forall>x \<in> set [(sample_shell, router_ab)]. NetPkgs (fst x) = NetPkgs sample_shell" by simp
  ultimately show ?thesis unfolding crosses_def by blast
qed

lemma handshake_crosses:
  "crosses sample_shell started_a (sample_ip 1 2) syn_80 (from_a @ syn_80)"
  "crosses sample_shell started_b (sample_ip 0 1) synack_80 (from_b @ synack_80)"
  "crosses sample_shell started_a (sample_ip 1 2) ack_80 (from_a @ ack_80)"
  by (rule crosses_by_router; code_simp)+

lemma a_connects: "VConnect_start (node_env sample_shell started_a) (\<lambda>i. 5) 7 (host_layer (sample_ip 0 1))
    (sample_ip 1 2) 80 = Some (connecting, [Sent (sample_ip 1 2) syn_80], Inr conn_80)"
proof -
  let ?E = "node_env sample_shell started_a" and ?l = "host_layer (sample_ip 0 1)"
  have port: "getUnusedPort ?l (\<lambda>i. 5) = Some 1029"
    by (simp add: getUnusedPort_def host_layer_def unused_port_none_used random_port_def)
  have conn: "conn_80 = \<lparr>LocalIP = TLocalIP ?l, LocalPort = 1029, RemoteIP = sample_ip 1 2, RemotePort = 80\<rparr>"
    "map_of (SocketTable ?l) conn_80 = None" "socketIDCounter ?l = 0"
    by (simp_all add: conn_80_def host_layer_def)
  have "routed sample_shell started_a (sample_ip 0 1) (sample_ip 1 2)" by code_simp
  then have "net_takes ?E (sample_ip 1 2)"
    using node_takes [of sample_shell started_a] sample_shells by (simp add: shells_ok_def)
  moreover have "MarshalTCP (TPkg sample_env) (handshake_packet ?l 1029 80 7 0 TCPFlagSyn) = syn_80" by code_simp
  ultimately show ?thesis
    using VConnect_start_sends [OF port conn(1,2), of ?E 7] conn(3)
    by (simp add: connecting_def sample_shell_def sample_env_def)
qed

text \<open>What each host sends, computed.\<close>

lemma handshake_sent:
  "map_option (\<lambda>(h, sent, r). sent) (accept_on sample_shell 9 (listener_on (host_layer (sample_ip 1 2)) 80)
     (started_b\<lparr>Layer := Some listening\<rparr>) (from_a @ syn_80)) = Some [Sent (sample_ip 0 1) synack_80]"
  "map_option (\<lambda>(h, sent, r). sent) (connected_on sample_shell conn_80
     (started_a\<lparr>Layer := Some connecting\<rparr>) (from_b @ synack_80)) = Some [Sent (sample_ip 1 2) ack_80]"
  by code_simp+

lemma started_hosts:
  "tcp_host started_a (host_layer (sample_ip 0 1)) (sample_ip 0 1)"
  "tcp_host started_b (host_layer (sample_ip 1 2)) (sample_ip 1 2)"
  "routed sample_shell started_a (sample_ip 0 1) (sample_ip 1 2)"
  "routed sample_shell started_b (sample_ip 1 2) (sample_ip 0 1)"
proof -
  have "is_destination (NetLayer (Stack started_a)) (sample_ip 0 1)"
    "is_destination (NetLayer (Stack started_b)) (sample_ip 1 2)"
    "map_of (Handlers (NetLayer (Stack started_a))) TCPProtocolNum = Some TCPApp"
    "map_of (Handlers (NetLayer (Stack started_b))) TCPProtocolNum = Some TCPApp" by code_simp+
  then show "tcp_host started_a (host_layer (sample_ip 0 1)) (sample_ip 0 1)"
    "tcp_host started_b (host_layer (sample_ip 1 2)) (sample_ip 1 2)"
    by (simp_all add: tcp_host_def started_a_def started_b_def started_def host_layer_def)
  show "routed sample_shell started_a (sample_ip 0 1) (sample_ip 1 2)"
    "routed sample_shell started_b (sample_ip 1 2) (sample_ip 0 1)" by code_simp+
qed

lemma b_listens:
  "HandleInput sample_shell (''a '' @ show_nat (unat (80 :: u16))) True started_b =
     Inr (started_b\<lparr>Layer := Some listening\<rparr>, [StartTask (AcceptFrom (listener_on (host_layer (sample_ip 1 2)) 80))], Prompt)"
proof -
  have "Layer started_b = Some (host_layer (sample_ip 1 2))"
    "map_of (ListenersTable (host_layer (sample_ip 1 2))) 80 = None"
    by (simp_all add: started_b_def started_def host_layer_def)
  from typed_accept [OF this, of sample_shell] show ?thesis by (auto simp: listening_def)
qed

theorem commands_open_connection_witness:
  "\<exists>b1 a2 b2 la lb sA sB.
     accept_on sample_shell 9 (listener_on (host_layer (sample_ip 1 2)) 80) (started_b\<lparr>Layer := Some listening\<rparr>)
       (from_a @ syn_80) = Some (b1, [Sent (sample_ip 0 1) synack_80], Inr (mirror conn_80)) \<and>
     connected_on sample_shell conn_80 (started_a\<lparr>Layer := Some connecting\<rparr>) (from_b @ synack_80) =
       Some (a2, [Sent (sample_ip 1 2) ack_80], Inr conn_80) \<and>
     accepted_on sample_shell (mirror conn_80) b1 (from_a @ ack_80) = Some (b2, Inr (mirror conn_80)) \<and>
     tcp_end sample_shell a2 la conn_80 7 9 sA \<and> tcp_end sample_shell b2 lb (mirror conn_80) 9 7 sB"
proof -
  let ?ipA = "sample_ip 0 1" and ?ipB = "sample_ip 1 2"
  have ok: "layer_ok 0 (host_layer ip)" for ip by (simp add: layer_ok_def named_def host_layer_def)
  have bounds: "(0 :: nat) < 2 ^ 32" "Suc 0 < 2 ^ 32" by simp_all
  have port: "map_of (ListenersTable (host_layer ?ipB)) 80 = None"
    "getUnusedPort (host_layer ?ipA) (\<lambda>i. 5) = Some 1029"
    "map_of (SocketTable (host_layer ?ipA)) conn_80 = None"
    "map_of (SocketTable (host_layer ?ipB)) (mirror conn_80) = None"
    by (simp_all add: host_layer_def getUnusedPort_def unused_port_none_used random_port_def)
  have connect: "connect_on sample_shell (\<lambda>i. 5) 7 started_a ?ipB 80 =
      Some (started_a\<lparr>Layer := Some connecting\<rparr>, [Sent ?ipB syn_80], Inr conn_80)"
    using a_connects started_hosts(1) by (simp add: connect_on_def tcp_host_def)
  let ?to_b = "\<lambda>b1 a2 ack. \<forall>d3. crosses sample_shell a2 ?ipB ack d3 \<longrightarrow> (\<exists>b2 la2 lb2 sA sB.
          accepted_on sample_shell (mirror conn_80) b1 d3 = Some (b2, Inr (mirror conn_80)) \<and>
          tcp_end sample_shell a2 la2 conn_80 7 9 sA \<and> tcp_end sample_shell b2 lb2 (mirror conn_80) 9 7 sB \<and>
          fresh_end (TcpEnv sample_shell) (socketIDCounter (host_layer ?ipA)) conn_80 7 9 sA \<and>
          fresh_end (TcpEnv sample_shell) (socketIDCounter (host_layer ?ipB) + 1) (mirror conn_80) 9 7 sB)"
  let ?to_a = "\<lambda>b1 synack. \<forall>d2. crosses sample_shell b1 ?ipA synack d2 \<longrightarrow> (\<exists>a2 ack.
        connected_on sample_shell conn_80 (started_a\<lparr>Layer := Some connecting\<rparr>) d2 =
          Some (a2, [Sent ?ipB ack], Inr conn_80) \<and> ?to_b b1 a2 ack)"
  from commands_open_connection [OF sample_shells started_hosts(1,2) ok bounds(1) ok bounds(2) started_hosts(3,4)
      port(1,2) conn_80_def port(3,4), of 7 9, unfolded connect b_listens]
  have run: "\<forall>d1. crosses sample_shell started_a ?ipB syn_80 d1 \<longrightarrow> (\<exists>b1 synack.
      accept_on sample_shell 9 (listener_on (host_layer ?ipB) 80) (started_b\<lparr>Layer := Some listening\<rparr>) d1 =
        Some (b1, [Sent ?ipA synack], Inr (mirror conn_80)) \<and> ?to_a b1 synack)"
    by (elim exE conjE) (simp only: sum.inject option.inject prod.inject list.inject tcp_effect.inject)
  obtain b1 synack where b1: "accept_on sample_shell 9 (listener_on (host_layer ?ipB) 80)
        (started_b\<lparr>Layer := Some listening\<rparr>) (from_a @ syn_80) = Some (b1, [Sent ?ipA synack], Inr (mirror conn_80))"
    and after_b1: "?to_a b1 synack"
    using run handshake_crosses(1) by blast
  have "synack = synack_80" using handshake_sent(1) by (simp add: b1)
  moreover have "crosses sample_shell b1 = crosses sample_shell started_b"
    using b1 by (auto simp: accept_on_def split: option.splits prod.splits delivery.splits if_splits)
  ultimately obtain a2 ack where a2: "connected_on sample_shell conn_80 (started_a\<lparr>Layer := Some connecting\<rparr>)
        (from_b @ synack_80) = Some (a2, [Sent ?ipB ack], Inr conn_80)"
    and after_a2: "?to_b b1 a2 ack"
    using after_b1 handshake_crosses(2) by (simp only:) blast
  have "ack = ack_80" using handshake_sent(2) by (simp add: a2)
  moreover have "crosses sample_shell a2 = crosses sample_shell started_a"
    using a2 by (auto simp: connected_on_def split: option.splits prod.splits delivery.splits if_splits)
  ultimately show ?thesis
    using after_a2 handshake_crosses(3) b1 a2 \<open>synack = synack_80\<close> by (simp only:) blast
qed

end
