(* ===== verification/Printer.thy ===== *)
theory Printer
  imports Programs
begin

text \<open>
  The debugging printer (\<open>pkg/printer\<close>) and the example program beside the copy of the parser
  (\<open>src/util/lnx-parsers\<close>), as the text they write. Maps are visited in orders that are arguments, and so is
  the text of a \<open>time.Time\<close>.
\<close>

section \<open>The printer\<close>

definition line :: "string \<Rightarrow> string \<Rightarrow> string" where
  "line label value = label @ value @ newline"

definition separator :: string where
  "separator = replicate 38 CHR ''-'' @ newline"

definition PrintInterfaces ::
  "((Addr \<times> AddrPort) list \<Rightarrow> (Addr \<times> AddrPort) list) \<Rightarrow> IPInterface list \<Rightarrow> string" where
  "PrintInterfaces ord interfaces =
     (if length interfaces = 0 then ''ipInterfaces is empty'' @ newline
      else concat (map (\<lambda>iface.
        line ''Interface Name: '' (InterfaceName iface) @
        line ''Assigned IP: '' (show_addr (AssignedIP iface)) @
        line ''Assigned Prefix: '' (show_prefix (AssignedPrefix iface)) @
        line ''UDPPort: '' (show_addrport (UDPPort iface)) @
        line ''Conn: '' (show_addrport (conn_laddr (Conn iface))) @
        concat (map (\<lambda>(destAddr, udpAddr).
          line ''Neighbor DestAddr: '' (show_addr destAddr) @
          line ''Neighbor UDPAddr: '' (show_addrport udpAddr)) (ord (INeighbors iface)))) interfaces))"

definition PrintIPAddr :: "IPConfig \<Rightarrow> string" where
  "PrintIPAddr lnxConfig = concat (map (\<lambda>iface.
     let prefixForm = \<lparr>PAddr = IC_AssignedIP iface, Bits = Bits (IC_AssignedPrefix iface)\<rparr>
     in IC_Name iface @ '' has IP '' @ show_prefix prefixForm @ newline) (Interfaces lnxConfig))"

text \<open>A local route without an interface panics; what was printed before it is left out.\<close>

fun local_lines :: "(int \<Rightarrow> string) \<Rightarrow> FwdTable \<Rightarrow> string res" where
  "local_lines show_time [] = Inr []"
| "local_lines show_time ((fwdTableEntry, fwdTableValue) # t) =
     (if RouteType fwdTableValue = LocalRoute
      then (case Interface fwdTableValue of
              None \<Rightarrow> Inl (Panic NilDereference)
            | Some i \<Rightarrow>
                (case local_lines show_time t of
                   Inl e \<Rightarrow> Inl e
                 | Inr rest \<Rightarrow> Inr (
                     line ''Entry: '' (show_addr (EAssignedIP fwdTableEntry) @ ''/'' @
                       show_prefix (EAssignedPrefix fwdTableEntry)) @
                     line ''Port: '' (show_addrport (UDPPort i)) @
                     line ''Cost: '' (show_nat (unat (Cost fwdTableValue))) @
                     line ''Last Updated Time: '' (show_time (LastUpdatedTime fwdTableValue)) @
                     line ''Interface Name: '' (InterfaceName i) @ separator @ rest)))
      else local_lines show_time t)"

definition static_lines :: "FwdTable \<Rightarrow> string" where
  "static_lines t = concat (map (\<lambda>(fwdTableEntry, fwdTableValue).
     if RouteType fwdTableValue = StaticRoute
     then line ''Default Route: '' (show_prefix (EAssignedPrefix fwdTableEntry) @ '' via '' @
       (case NextHop fwdTableValue of None \<Rightarrow> ''<nil>'' | Some a \<Rightarrow> show_addr a))
     else []) t)"

definition PrintInitializedFwdTable ::
  "(int \<Rightarrow> string) \<Rightarrow> (nat \<Rightarrow> FwdTable \<Rightarrow> FwdTable) \<Rightarrow> 'h NetworkLayer \<Rightarrow> string res" where
  "PrintInitializedFwdTable show_time rng n =
     (case local_lines show_time (rng 0 (FwdTable n)) of
        Inl e \<Rightarrow> Inl e
      | Inr locals \<Rightarrow> Inr (locals @ static_lines (rng 1 (FwdTable n)) @ separator))"

section \<open>The example program\<close>

definition example_main :: "(string \<Rightarrow> string option) \<Rightarrow> string list \<Rightarrow> string launch" where
  "example_main files args =
     (if length args \<noteq> 2 then ExitUsage (''Usage:  '' @ args ! 0 @ '' <configFile>'' @ newline)
      else case ParseConfig (files (args ! 1)) of
             Inl e \<Rightarrow> Crashed e
           | Inr lnxConfig \<Rightarrow> Started (PrintIPAddr lnxConfig))"

section \<open>What they print\<close>

text \<open>A table of either program is printed without a panic.\<close>

lemma local_lines_wf:
  "\<forall>x \<in> set t. entry_wf x \<Longrightarrow> \<exists>s. local_lines show_time t = Inr s"
  by (induction t) (auto simp: entry_wf_def split: option.splits)

lemma printer_does_not_panic:
  assumes "rip_inv n" "range_ok rng"
  shows "\<exists>s. PrintInitializedFwdTable show_time rng n = Inr s"
proof -
  have "\<forall>x \<in> set (rng 0 (FwdTable n)). entry_wf x"
    using assms by (simp add: rip_inv_def fwd_wf_def range_ok_set)
  then show ?thesis using local_lines_wf [of "rng 0 (FwdTable n)" show_time]
    by (auto simp: PrintInitializedFwdTable_def)
qed

text \<open>On the file of a well-formed configuration the example prints one line per interface, with the
  interface's address, not the network's.\<close>

lemma example_prints_interfaces:
  assumes "printable c" "files f = Some (config_text c)"
  shows "example_main files [prog, f] = Started (concat (map (\<lambda>i.
    IC_Name i @ '' has IP '' @ show_addr (IC_AssignedIP i) @ ''/'' @ show_nat (Bits (IC_AssignedPrefix i)) @ newline)
    (Interfaces c)))"
  by (simp add: example_main_def assms(2) parse_printed [OF assms(1)] PrintIPAddr_def Let_def show_prefix_def)

end
