(* ===== verification/Spec2Isabelle.thy ===== *)
theory Spec2Isabelle
  imports RipExchange TcpOpening Printer
begin

text \<open>
  A verification library for the TCP/IP stack of this repository: hosts (\<open>cmd/vhost\<close>) and routers
  (\<open>cmd/vrouter\<close>) that run IPv4 over UDP links, RIP on routers and TCP on hosts.

  \<^bold>\<open>How the program is put together.\<close> \<open>protocol.Initialize\<close> builds a stack from a configuration: a
  link layer (interfaces, each with its neighbors' UDP addresses) and a network layer (a
  forwarding table). A datagram read from an interface goes to \<open>network.HandlePacket\<close>, which
  checks it and either gives it to the handler of its protocol or forwards it; the handlers are
  \<open>rip.RIPHandler\<close> on routers and \<open>tcp.TcpHandler\<close> on hosts. Both send through
  \<open>IPStack.SendIP\<close>. TCP keeps a table of sockets, each with three threads: the packet handler,
  the sender (\<open>HandleVWrite\<close>) and the retransmitter (\<open>HandleRT\<close>), and offers the calls \<open>VListen\<close>,
  \<open>VAccept\<close>, \<open>VConnect\<close>, \<open>VRead\<close>, \<open>VWrite\<close>, \<open>VClose\<close> to the command line.

  \<^bold>\<open>Theories, in the order of import.\<close>
  \<^item> Prelude: Go's integers, errors and panics, slices, big-endian fields, maps and range loops; the
    locales \<open>op_machine\<close> (an invariant kept by any list of operations) and \<open>packet_codec\<close> (a
    message format and its parser).
  \<^item> NetAddr (\<open>net\<close>, \<open>net/netip\<close> for IPv4), NetText (the text functions of the library), LnxConfig and
    LnxParser (\<open>pkg/lnxconfig\<close>: the configuration, its parser), Link (\<open>pkg/link\<close>).
  \<^item> Ipv4 (header fields, checksum, marshalling), Network (\<open>pkg/network/network.go\<close>: table, lookups,
    receive and send paths, up/down), Forwarding and Routes (its properties), Sample (the small
    network the witnesses run on).
  \<^item> Protocol (\<open>pkg/protocol\<close> and the up/down commands of \<open>pkg/cli\<close>).
  \<^item> RipPacket (the message format of \<open>pkg/rip\<close>), Rip (its handlers and timers), Distance_Vector
    (their properties, against a distance-vector rule stated on its own).
  \<^item> TcpTypes (\<open>pkg/tcp/types.go\<close>, \<open>utils.go\<close>), SegmentQueue (\<open>queue.go\<close> and \<open>container/heap\<close>; the locales
    \<open>priority_queue\<close> and \<open>fifo_queue\<close> and their interpretations), TcpSocket (\<open>socket.go\<close>), TcpApi
    (\<open>api.go\<close>, \<open>tcp.go\<close>).
  \<^item> TcpMachine (the threads of a connection as a step relation, and the bookkeeping invariant),
    TcpStream (reassembly), TcpSender (segmentation), TcpHandshake (opening a connection, the
    tables of the layer), TcpTeardown (acknowledgment, closing), TcpTransfer (a write from one
    end to the other, flow control, data that are given up).
  \<^item> Command (\<open>pkg/cli\<close>: every command, the listings, file transfer), Programs (\<open>cmd/vhost\<close>,
    \<open>cmd/vrouter\<close>: start-up from a file and runs of events, with the properties of whole nodes).
  \<^item> TcpOverIp (TCP on top of the stack of two hosts and the nodes between them), TcpOpening (a
    connection opened from two prompts over it), RipExchange (a RIP
    update from one router's table to the other's), Printer (\<open>pkg/printer\<close> and the example program of
    \<open>src/util/lnx-parsers\<close>).

  \<^bold>\<open>How state corresponds.\<close> A Go struct is a record with the same field names (prefixed where two
  structs share one); pointers to a socket or an interface become the value, and an operation
  returns the new one. A map is an association list with distinct keys; a \<open>range\<close> loop visits it in
  an order \<open>rng\<close> or \<open>ord\<close> that the theorems quantify over. Unsigned integers are words of their
  width; Go's \<open>int\<close> is \<open>int\<close>. Errors and run-time panics are values of \<open>go_error\<close>; a panic is not
  caught by any caller. What a thread sends, starts or signals is a list of effects. Messages of
  errors and what commands print are kept; messages of the lower layers leave out formatted values,
  and their debugging output is left out.

  \<^bold>\<open>Atomicity.\<close> A step of the model is one turn of a thread's loop, up to where it blocks on a
  condition variable, a channel or a timer. The source holds a lock for most but not all of such a
  turn, so interleavings inside a turn are not covered. A call that waits for a packet
  (\<open>VConnect\<close>, \<open>VAccept\<close>) is split where it waits. A program is a list of events (datagrams, its own
  packets, typed lines, socket calls, ticks) in any order; more orders are allowed than the source
  can show, since a command line that waits takes no input.

  \<^bold>\<open>What is taken as an argument.\<close> \<open>net_pkgs\<close>: the IPv4 header package and the checksum library;
  \<open>tcp_pkgs\<close>: the layout of a TCP header; \<open>rb_pkg\<close>: the ring buffer; \<open>Net\<close>: whether the stack below
  takes a packet (TcpOverIp instantiates it with \<open>IPStack.SendIP\<close>, and \<open>node_takes\<close> shows that a node with a
  route satisfies the hypothesis \<open>net_takes\<close> of the TCP theories); \<open>Round\<close>: the rounding of \<open>float64\<close>; random numbers and the clock; opening a
  UDP socket and reading a file. The hypotheses \<open>net_pkgs_ok\<close>, \<open>tcp_pkgs_ok\<close>, \<open>ringbuffer_ok\<close> and
  \<open>float_ok\<close> state their documented behaviour, and each is shown for a concrete
  instance (\<open>wire_pkgs\<close>, \<open>wire_tcp\<close>, \<open>list_rb\<close>, identity).

  \<^bold>\<open>What the groups of lemmas show.\<close> Configuration: what the parser accepts is well formed,
  printing and parsing are inverse, and which lines crash it. IPv4: what one node sends its
  destination accepts, whatever nodes forward it on the way, forwarding keeps the packet and ends, output only through interfaces that are up, and
  where the lookup depends on the order of map iteration. RIP: the message format is exact in both
  directions, an entry refines the distance-vector rule, the router's own routes are never lost, split horizon, expiry; a
  whole response, from the sender's table through the datagram to the receiver's, is one step of the
  distance-vector algorithm; and where the code departs from the protocol. TCP: the handshake completes and both ends agree; what
  is written arrives, in order, and is acknowledged; no unacknowledged byte is forgotten, by sequence
  numbers as RFC 793 counts them, but a FIN can be; the
  bookkeeping and the tables are consistent in every reachable state; closing follows the
  diagram; and where data, flow control or (past sequence number 2^32) acknowledgments are lost. TCP
  over IP: a segment reaches the socket of the same connection at the other end, \<open>a\<close> and \<open>c\<close> typed at two
  hosts open a connection, and what \<open>s\<close> sends at
  one prompt \<open>r\<close> prints at the other. Whole nodes: a host comes up from its file, text
  typed at one prompt is printed at the other node, no run of either program makes its state
  inconsistent, and which datagrams and file transfers break it.

  \<^bold>\<open>Loops.\<close> Every loop is a recursive function with a measure, so nothing depends on fuel, but
  \<open>unused_port\<close>, which need not end and has an option as its result. Loops that never end by
  design (threads) are step relations or lists of events.

  \<^bold>\<open>Not modelled.\<close> Text that is not ASCII and IPv6 addresses; sockets of the operating system (UDP),
  the terminal and the scheduling of goroutines; timers, except that they may fire; the
  copy of the parser under \<open>src/util\<close>, which is the file \<open>pkg/lnxconfig/lnxconfig.go\<close> byte for byte; the
  configuration \<open>LnxConfig\<close> in that file, test data that nothing reads.
\<close>

end
